(* ===== verification/Prelude.thy ===== *)
theory Prelude
  imports Main "HOL-Library.Word" "HOL-Library.Char_ord" "HOL-Library.List_Lexorder"
    "HOL-Library.Signed_Division"
begin

text \<open>
  Shared vocabulary of the development: the machine integers the sources use, the C++
  exceptions as values, the interface of an associative container (a locale) with its two
  implementations (the ordered \<open>std::map\<close> and the unordered \<open>std::unordered_map\<close>, both
  as association lists in iteration order), and the generic lemmas the component theories
  share.  Strings are \<open>char list\<close>: one \<open>char\<close> is one byte, as in \<open>std::string\<close>.
\<close>

named_theorems framing \<open>facts that a text contains no newline\<close>
named_theorems frame \<open>fields an operation leaves alone\<close>

section \<open>Machine integers\<close>

type_synonym i32 = "32 word"
type_synonym i64 = "64 word"
type_synonym u32 = "32 word"
type_synonym u64 = "64 word"

text \<open>
  A signed C++ integer is read with \<open>sint\<close>.  \<open>to_int\<close> is the narrowing cast
  \<open>(int)x\<close> of a 64-bit value, \<open>to_i64\<close> the widening of an \<open>int\<close>.
\<close>

definition to_int :: "i64 \<Rightarrow> i32" where
  "to_int x = ucast x"

definition to_i64 :: "i32 \<Rightarrow> i64" where
  "to_i64 x = scast x"

definition fits64 :: "int \<Rightarrow> bool" where
  "fits64 i \<longleftrightarrow> - (2 ^ 63) \<le> i \<and> i < 2 ^ 63"

definition fits32 :: "int \<Rightarrow> bool" where
  "fits32 i \<longleftrightarrow> - (2 ^ 31) \<le> i \<and> i < 2 ^ 31"

lemma sint_of_int64 [simp]: "fits64 i \<Longrightarrow> sint (word_of_int i :: i64) = i"
  by (simp add: fits64_def sint_sbintrunc' signed_take_bit_int_eq_self)

lemma sint_of_int32 [simp]: "fits32 i \<Longrightarrow> sint (word_of_int i :: i32) = i"
  by (simp add: fits32_def sint_sbintrunc' signed_take_bit_int_eq_self)

lemma fits64_sint [simp]: "fits64 (sint (w :: i64))"
  using sint_ge [of w] sint_lt [of w] by (simp add: fits64_def)

lemma fits32_sint [simp]: "fits32 (sint (w :: i32))"
  using sint_ge [of w] sint_lt [of w] by (simp add: fits32_def)

lemma fits32_fits64: "fits32 i \<Longrightarrow> fits64 i"
  by (simp add: fits32_def fits64_def)

lemma sint_to_i64 [simp]: "sint (to_i64 x) = sint x"
  using sint_ge [of x] sint_lt [of x] unfolding to_i64_def scast_eq sint_sbintrunc'
  by (intro signed_take_bit_int_eq_self) auto

lemma to_int_to_i64 [simp]: "to_int (to_i64 x) = x"
  unfolding to_int_def to_i64_def by (rule bit_word_eqI) (simp add: bit_simps)

text \<open>
  Signed division truncates toward zero.  Products and quotients that do not fit are
  undefined in C++; here they wrap, and the theorems that need the exact result assume that
  it fits.
\<close>

definition sdiv32 :: "i32 \<Rightarrow> i32 \<Rightarrow> i32" where
  "sdiv32 a b = word_of_int (sint a sdiv sint b)"

definition smod32 :: "i32 \<Rightarrow> i32 \<Rightarrow> i32" where
  "smod32 a b = word_of_int (sint a smod sint b)"

definition sdiv64 :: "i64 \<Rightarrow> i64 \<Rightarrow> i64" where
  "sdiv64 a b = word_of_int (sint a sdiv sint b)"

lemma sdiv_pos: "0 \<le> (a::int) \<Longrightarrow> 0 < b \<Longrightarrow> a sdiv b = a div b"
  by (cases "a = 0") (simp_all add: signed_divide_int_def)

lemma smod_pos: "0 \<le> (a::int) \<Longrightarrow> 0 < b \<Longrightarrow> a smod b = a mod b"
  by (cases "a = 0") (simp_all add: signed_modulo_int_def)

lemma sint_mult32: "fits32 (sint a * sint b) \<Longrightarrow> sint (a * b) = sint a * sint (b :: i32)"
  using sint_of_int32 [of "sint a * sint b"] by (simp add: wi_hom_mult [symmetric])

lemma sint_mult64: "fits64 (sint a * sint b) \<Longrightarrow> sint (a * b) = sint a * sint (b :: i64)"
  using sint_of_int64 [of "sint a * sint b"] by (simp add: wi_hom_mult [symmetric])

lemma sint_sub64: "fits64 (sint a - sint b) \<Longrightarrow> sint (a - b) = sint a - sint (b :: i64)"
  using sint_of_int64 [of "sint a - sint b"] by (simp add: wi_hom_sub [symmetric])

lemma div_le_self: "0 \<le> (a::int) \<Longrightarrow> 0 < b \<Longrightarrow> 0 \<le> a div b \<and> a div b \<le> a"
  using zdiv_mono2 [of a 1 b] by (simp add: pos_imp_zdiv_nonneg_iff)

lemma sint_sdiv32:
  assumes "0 \<le> sint a" "0 < sint b"
  shows "sint (sdiv32 a b) = sint a div sint b"
proof -
  have "fits32 (sint a div sint b)"
    using div_le_self [OF assms] fits32_sint [of a] by (simp add: fits32_def)
  then show ?thesis using assms by (simp add: sdiv32_def sdiv_pos)
qed

lemma sint_sdiv64:
  assumes "0 \<le> sint a" "0 < sint b"
  shows "sint (sdiv64 a b) = sint a div sint b"
proof -
  have "fits64 (sint a div sint b)"
    using div_le_self [OF assms] fits64_sint [of a] by (simp add: fits64_def)
  then show ?thesis using assms by (simp add: sdiv64_def sdiv_pos)
qed

lemma sint_to_int: "fits32 (sint x) \<Longrightarrow> sint (to_int x) = sint x"
proof -
  assume f: "fits32 (sint x)"
  have "to_int x = word_of_int (sint x)"
    unfolding to_int_def by (rule bit_word_eqI) (simp add: bit_simps)
  then show ?thesis using sint_of_int32 [OF f] by simp
qed

section \<open>Exceptions as values\<close>

text \<open>
  The exceptions the sources throw or let through, each with the text \<open>what()\<close>
  returns.  A function that may throw returns \<open>exn + 'a\<close>, \<open>Inl\<close> for the exception.
\<close>

datatype exn =
    Runtime_error string
  | Invalid_argument string
  | Out_of_range string

type_synonym 'a res = "exn + 'a"

fun what :: "exn \<Rightarrow> string" where
  "what (Runtime_error m) = m"
| "what (Invalid_argument m) = m"
| "what (Out_of_range m) = m"

section \<open>Associative containers\<close>

text \<open>
  The contract both containers offer.  \<open>entries\<close> is the iteration order, the order in
  which a range-based \<open>for\<close> visits the pairs.
\<close>

locale kv_store =
  fixes entries :: "'m \<Rightarrow> ('k \<times> 'v) list"
    and find :: "'m \<Rightarrow> 'k \<Rightarrow> 'v option"
    and put :: "'k \<Rightarrow> 'v \<Rightarrow> 'm \<Rightarrow> 'm"
    and erase :: "'k \<Rightarrow> 'm \<Rightarrow> 'm"
    and ok :: "'m \<Rightarrow> bool"
  assumes ok_put: "ok m \<Longrightarrow> ok (put k v m)"
    and ok_erase: "ok m \<Longrightarrow> ok (erase k m)"
    and ok_distinct: "ok m \<Longrightarrow> distinct (map fst (entries m))"
    and find_entries: "ok m \<Longrightarrow> find m k = map_of (entries m) k"
    and find_put: "ok m \<Longrightarrow> find (put k v m) j = (if j = k then Some v else find m j)"
    and find_erase: "ok m \<Longrightarrow> find (erase k m) j = (if j = k then None else find m j)"
begin

lemma find_Some_entries: "ok m \<Longrightarrow> find m k = Some v \<longleftrightarrow> (k, v) \<in> set (entries m)"
  by (simp add: find_entries ok_distinct)

lemma set_entries_put:
  assumes "ok m"
  shows "set (entries (put k v m)) = insert (k, v) {e \<in> set (entries m). fst e \<noteq> k}"
proof (rule set_eqI)
  fix e show "e \<in> set (entries (put k v m)) \<longleftrightarrow>
      e \<in> insert (k, v) {e \<in> set (entries m). fst e \<noteq> k}"
    using assms by (cases e) (auto simp: ok_put find_put simp flip: find_Some_entries split: if_splits)
qed

lemma set_entries_erase:
  assumes "ok m"
  shows "set (entries (erase k m)) = {e \<in> set (entries m). fst e \<noteq> k}"
proof (rule set_eqI)
  fix e show "e \<in> set (entries (erase k m)) \<longleftrightarrow> e \<in> {e \<in> set (entries m). fst e \<noteq> k}"
    using assms by (cases e) (auto simp: ok_erase find_erase simp flip: find_Some_entries split: if_splits)
qed

lemma put_present: "ok m \<Longrightarrow> find (put k v m) k = Some v"
  by (simp add: find_put)

end

text \<open>An ordered store also visits its keys in increasing order.\<close>

locale ordered_store = kv_store entries find put erase ok
  for entries :: "'m \<Rightarrow> ('k::linorder \<times> 'v) list" and find put erase ok +
  assumes ok_sorted: "ok m \<Longrightarrow> sorted (map fst (entries m))"
begin

lemma same_find_same_entries:
  assumes "ok m" "ok n" "\<And>k. find m k = find n k"
  shows "entries m = entries n"
proof (rule map_sorted_distinct_set_unique)
  show "inj_on fst (set (entries m) \<union> set (entries n))"
    using assms by (auto simp: inj_on_def simp flip: find_Some_entries)
  show "set (entries m) = set (entries n)"
    using assms by (auto simp flip: find_Some_entries)
qed (use assms ok_sorted ok_distinct in auto)

end

subsection \<open>std::map\<close>

fun omap_put :: "'k::linorder \<Rightarrow> 'v \<Rightarrow> ('k \<times> 'v) list \<Rightarrow> ('k \<times> 'v) list" where
  "omap_put k v [] = [(k, v)]"
| "omap_put k v (e # es) =
     (if fst e < k then e # omap_put k v es
      else if fst e = k then (k, v) # es
      else (k, v) # e # es)"

fun omap_erase :: "'k \<Rightarrow> ('k \<times> 'v) list \<Rightarrow> ('k \<times> 'v) list" where
  "omap_erase k [] = []"
| "omap_erase k (e # es) = (if fst e = k then es else e # omap_erase k es)"

definition omap_ok :: "('k::linorder \<times> 'v) list \<Rightarrow> bool" where
  "omap_ok m \<longleftrightarrow> sorted_wrt (<) (map fst m)"

lemma omap_ok_Nil [simp]: "omap_ok []"
  by (simp add: omap_ok_def)

lemma omap_ok_Cons [simp]:
  "omap_ok ((k, v) # m) \<longleftrightarrow> (\<forall>e \<in> set m. k < fst e) \<and> omap_ok m"
  by (auto simp: omap_ok_def)

lemma fst_omap_put: "fst ` set (omap_put k v m) = insert k (fst ` set m)"
  by (induction m) auto

lemma omap_ok_put: "omap_ok m \<Longrightarrow> omap_ok (omap_put k v m)"
proof (induction m)
  case Nil
  then show ?case by simp
next
  case (Cons e es)
  obtain a b where e: "e = (a, b)" by fastforce
  have keys: "\<forall>x \<in> set (omap_put k v es). fst x = k \<or> fst x \<in> fst ` set es"
    using fst_omap_put [of k v es] by blast
  show ?case
    using Cons keys unfolding e by fastforce
qed

lemma map_of_omap_put:
  "omap_ok m \<Longrightarrow> map_of (omap_put k v m) j = (if j = k then Some v else map_of m j)"
  by (induction m) auto

lemma set_omap_erase: "set (omap_erase k m) \<subseteq> set m"
  by (induction m) auto

lemma omap_ok_erase: "omap_ok m \<Longrightarrow> omap_ok (omap_erase k m)"
proof (induction m)
  case Nil
  then show ?case by simp
next
  case (Cons e es)
  then show ?case using set_omap_erase [of k es] by (cases e) auto
qed

lemma map_of_omap_erase:
  "omap_ok m \<Longrightarrow> map_of (omap_erase k m) j = (if j = k then None else map_of m j)"
proof (induction m)
  case Nil
  then show ?case by simp
next
  case (Cons e es)
  have "map_of es (fst e) = None"
    using Cons.prems by (cases e) (auto simp: map_of_eq_None_iff)
  then show ?case using Cons by (cases e) auto
qed

lemma omap_ok_distinct: "omap_ok m \<Longrightarrow> distinct (map fst m)"
  by (simp add: omap_ok_def strict_sorted_iff)

lemma omap_ok_sorted: "omap_ok m \<Longrightarrow> sorted (map fst m)"
  by (simp add: omap_ok_def strict_sorted_iff)

interpretation omap: ordered_store "\<lambda>m. m" map_of omap_put omap_erase omap_ok
  by unfold_locales
    (simp_all add: omap_ok_put omap_ok_erase omap_ok_distinct map_of_omap_put
      map_of_omap_erase omap_ok_sorted)

lemma omap_put_last:
  "\<forall>e \<in> set m. fst e < k \<Longrightarrow> omap_put k v m = m @ [(k, v)]"
  by (induction m) auto

text \<open>Inserting the pairs of an ordered list one by one rebuilds the list.\<close>

lemma foldl_omap_put_sorted:
  "omap_ok (m @ xs) \<Longrightarrow> foldl (\<lambda>m (k, v). omap_put k v m) m xs = m @ xs"
proof (induction xs arbitrary: m)
  case Nil
  then show ?case by simp
next
  case (Cons x xs)
  obtain k v where x: "x = (k, v)" by fastforce
  have "\<forall>e \<in> set m. fst e < k"
    using Cons.prems by (auto simp: omap_ok_def sorted_wrt_append x)
  then have "omap_put k v m = m @ [(k, v)]" by (rule omap_put_last)
  then show ?case using Cons x by simp
qed

subsection \<open>std::unordered_map\<close>

text \<open>
  The iteration order of \<open>std::unordered_map\<close> is unspecified.  The model keeps one
  order, the position of a key being fixed when it is inserted; the theorems quantify over
  every list with distinct keys, so over every order.
\<close>

fun umap_put :: "'k \<Rightarrow> 'v \<Rightarrow> ('k \<times> 'v) list \<Rightarrow> ('k \<times> 'v) list" where
  "umap_put k v [] = [(k, v)]"
| "umap_put k v (e # es) = (if fst e = k then (k, v) # es else e # umap_put k v es)"

definition umap_erase :: "'k \<Rightarrow> ('k \<times> 'v) list \<Rightarrow> ('k \<times> 'v) list" where
  "umap_erase k m = filter (\<lambda>e. fst e \<noteq> k) m"

definition umap_ok :: "('k \<times> 'v) list \<Rightarrow> bool" where
  "umap_ok m \<longleftrightarrow> distinct (map fst m)"

lemma fst_umap_put: "fst ` set (umap_put k v m) = insert k (fst ` set m)"
  by (induction m) auto

lemma umap_ok_put: "umap_ok m \<Longrightarrow> umap_ok (umap_put k v m)"
proof (induction m)
  case Nil
  then show ?case by (simp add: umap_ok_def)
next
  case (Cons e es)
  then show ?case using fst_umap_put [of k v es] by (auto simp: umap_ok_def)
qed

lemma umap_ok_erase: "umap_ok m \<Longrightarrow> umap_ok (umap_erase k m)"
  by (simp add: umap_ok_def umap_erase_def distinct_map_filter)

lemma map_of_umap_put: "map_of (umap_put k v m) j = (if j = k then Some v else map_of m j)"
  by (induction m) auto

lemma map_of_umap_erase: "map_of (umap_erase k m) j = (if j = k then None else map_of m j)"
  by (induction m) (auto simp: umap_erase_def)

interpretation umap: kv_store "\<lambda>m. m" map_of umap_put umap_erase umap_ok
  by unfold_locales
    (auto simp: umap_ok_put umap_ok_erase map_of_umap_put map_of_umap_erase,
     simp add: umap_ok_def)

lemma umap_ok_Nil [simp]: "umap_ok []"
  by (simp add: umap_ok_def)

section \<open>Lists\<close>

lemma takeWhile_append_stop:
  "\<forall>x \<in> set xs. P x \<Longrightarrow> ys = [] \<or> \<not> P (hd ys) \<Longrightarrow> takeWhile P (xs @ ys) = xs"
  by (cases ys) (auto simp: takeWhile_append2)

lemma dropWhile_append_stop:
  "\<forall>x \<in> set xs. P x \<Longrightarrow> ys = [] \<or> \<not> P (hd ys) \<Longrightarrow> dropWhile P (xs @ ys) = ys"
  by (cases ys) (auto simp: dropWhile_append2)

lemma length_dropWhile_less: "length xs < n \<Longrightarrow> length (dropWhile P xs) < n"
  using length_dropWhile_le [of P xs] by linarith

end
