(* ===== verification/Cxx_Numbers.thy ===== *)
theory Cxx_Numbers
  imports Prelude
begin

text \<open>
  The number conversions of the C++ standard library the sources use: \<open>std::to_string\<close>,
  \<open>std::stoll\<close>, \<open>std::stoi\<close>, stream extraction of an integer, and for
  \<open>double\<close> the pair \<open>std::stod\<close> / \<open>snprintf("%g")\<close> on exact binary64 values.
\<close>

section \<open>Characters and decimal digits\<close>

definition is_digit :: "char \<Rightarrow> bool" where
  "is_digit c \<longleftrightarrow> c \<in> set ''0123456789''"

definition is_space :: "char \<Rightarrow> bool" where
  "is_space c \<longleftrightarrow> (let n = (of_char c :: nat) in n = 32 \<or> 9 \<le> n \<and> n \<le> 13)"

definition digit_char :: "nat \<Rightarrow> char" where
  "digit_char d = char_of (48 + d)"

definition digit_val :: "char \<Rightarrow> nat" where
  "digit_val c = (of_char c :: nat) - 48"

definition digits_val :: "string \<Rightarrow> nat" where
  "digits_val ds = foldl (\<lambda>n c. 10 * n + digit_val c) 0 ds"

fun show_nat :: "nat \<Rightarrow> string" where
  "show_nat n = (if n < 10 then [digit_char n] else show_nat (n div 10) @ [digit_char (n mod 10)])"

declare show_nat.simps [simp del]

text \<open>\<open>std::to_string\<close> of an integer.\<close>

definition show_int :: "int \<Rightarrow> string" where
  "show_int i = (if i < 0 then CHR ''-'' # show_nat (nat (- i)) else show_nat (nat i))"

lemma digit_char_cases:
  "d < 10 \<Longrightarrow> digit_char d = ''0123456789'' ! d"
proof -
  assume "d < 10"
  then have "d \<in> {0, 1, 2, 3, 4, 5, 6, 7, 8, 9}" by auto
  then show ?thesis by (auto simp: digit_char_def char_of_def bit_0)
qed

lemma is_digit_digit_char [simp]: "d < 10 \<Longrightarrow> is_digit (digit_char d)"
  unfolding is_digit_def digit_char_cases by (rule nth_mem) simp

lemma digit_val_digit_char [simp]: "d < 10 \<Longrightarrow> digit_val (digit_char d) = d"
  by (simp add: digit_val_def digit_char_def of_char_of)

lemma digits_val_Nil [simp]: "digits_val [] = 0"
  by (simp add: digits_val_def)

lemma digits_val_snoc [simp]: "digits_val (ds @ [c]) = 10 * digits_val ds + digit_val c"
  by (simp add: digits_val_def)

lemma show_nat_digits: "\<forall>c \<in> set (show_nat n). is_digit c"
proof (induction n rule: show_nat.induct)
  case (1 n)
  then show ?case by (subst show_nat.simps) auto
qed

lemma show_nat_nonempty [simp]: "show_nat n \<noteq> []"
  by (subst show_nat.simps) simp

lemma digits_val_show_nat [simp]: "digits_val (show_nat n) = n"
proof (induction n rule: show_nat.induct)
  case (1 n)
  show ?case
  proof (cases "n < 10")
    case True
    then show ?thesis using digits_val_snoc [of "[]"] by (subst show_nat.simps) simp
  next
    case False
    with 1 show ?thesis by (subst show_nat.simps) simp
  qed
qed

lemma is_digit_not [simp]:
  "\<not> is_digit (CHR ''-'')" "\<not> is_digit (CHR ''+'')" "\<not> is_digit (CHR ''.'')"
  "\<not> is_digit (CHR ''e'')" "\<not> is_digit (CHR ''E'')" "\<not> is_digit (CHR '' '')"
  "\<not> is_digit (CHR '','')" "\<not> is_digit (CHR '']'')" "\<not> is_digit (CHR ''}'')"
  "\<not> is_digit (CHR ''\<newline>'')" "\<not> is_digit (CHR 0x22)" "\<not> is_digit (CHR 0x09)"
  "\<not> is_digit (CHR 0x0D)" "\<not> is_digit (CHR '':'')"
  by (simp_all add: is_digit_def)

lemma digit_not_space: "is_digit c \<Longrightarrow> \<not> is_space c"
  by (auto simp: is_digit_def is_space_def)

section \<open>Reading an integer\<close>

text \<open>
  The common core of \<open>strtoll\<close>, \<open>strtol\<close> and \<open>istream >> int64_t\<close>: skip white
  space, take an optional sign and the longest run of digits; \<open>None\<close> when there is no
  digit, else the value and the rest of the text.
\<close>

definition read_sign :: "string \<Rightarrow> bool \<times> string" where
  "read_sign s = (case s of [] \<Rightarrow> (False, [])
     | c # cs \<Rightarrow> if c = CHR ''-'' then (True, cs) else if c = CHR ''+'' then (False, cs)
                else (False, s))"

definition strto_int :: "string \<Rightarrow> (int \<times> string) option" where
  "strto_int s =
     (let (neg, t) = read_sign (dropWhile is_space s);
          ds = takeWhile is_digit t
      in if ds = [] then None
         else Some (if neg then - int (digits_val ds) else int (digits_val ds),
                    dropWhile is_digit t))"

definition stoll :: "string \<Rightarrow> i64 res" where
  "stoll s = (case strto_int s of
       None \<Rightarrow> Inl (Invalid_argument ''stoll'')
     | Some (i, _) \<Rightarrow> if fits64 i then Inr (word_of_int i) else Inl (Out_of_range ''stoll''))"

definition stoi :: "string \<Rightarrow> i32 res" where
  "stoi s = (case strto_int s of
       None \<Rightarrow> Inl (Invalid_argument ''stoi'')
     | Some (i, _) \<Rightarrow> if fits32 i then Inr (word_of_int i) else Inl (Out_of_range ''stoi''))"

text \<open>\<open>f >> out\<close> for an \<open>int64_t\<close>: \<open>None\<close> stands for the fail bit.\<close>

definition extract_i64 :: "string \<Rightarrow> i64 option" where
  "extract_i64 s = (case strto_int s of
       None \<Rightarrow> None
     | Some (i, _) \<Rightarrow> if fits64 i then Some (word_of_int i) else None)"

definition no_digit_head :: "string \<Rightarrow> bool" where
  "no_digit_head s \<longleftrightarrow> s = [] \<or> \<not> is_digit (hd s)"

lemma show_nat_head: "\<exists>c cs. show_nat n = c # cs \<and> is_digit c"
  using show_nat_digits [of n] show_nat_nonempty [of n] by (cases "show_nat n") auto

lemma strto_int_show_int:
  assumes "no_digit_head rest"
  shows "strto_int (show_int i @ rest) = Some (i, rest)"
proof -
  have scan: "takeWhile is_digit (show_nat n @ rest) = show_nat n"
    "dropWhile is_digit (show_nat n @ rest) = rest" for n
    using assms show_nat_digits [of n] unfolding no_digit_head_def
    by (blast intro: takeWhile_append_stop dropWhile_append_stop)+
  have start: "read_sign (dropWhile is_space (show_nat n @ rest)) = (False, show_nat n @ rest)" for n
  proof -
    obtain c cs where c: "show_nat n = c # cs" "is_digit c" using show_nat_head by blast
    then have "\<not> is_space c" "c \<noteq> CHR ''-''" "c \<noteq> CHR ''+''" using digit_not_space by auto
    then show ?thesis by (simp add: c read_sign_def)
  qed
  show ?thesis
  proof (cases "i < 0")
    case True
    have "read_sign (dropWhile is_space (show_int i @ rest)) = (True, show_nat (nat (- i)) @ rest)"
      using True by (simp add: show_int_def read_sign_def is_space_def)
    then show ?thesis using True by (simp add: strto_int_def scan)
  next
    case False
    then show ?thesis by (simp add: strto_int_def scan start show_int_def)
  qed
qed

lemma stoll_show_int [simp]: "stoll (show_int (sint w)) = Inr w"
  using strto_int_show_int [of "[]" "sint w"] by (simp add: stoll_def no_digit_head_def)

lemma stoi_show_int [simp]: "stoi (show_int (sint w)) = Inr w"
  using strto_int_show_int [of "[]" "sint w"] by (simp add: stoi_def no_digit_head_def)

lemma set_show_int: "c \<in> set (show_int i) \<Longrightarrow> is_digit c \<or> c = CHR ''-''"
  using show_nat_digits by (auto simp: show_int_def split: if_splits)

lemma show_int_no_newline [framing]: "CHR ''\<newline>'' \<notin> set (show_int i)"
  using set_show_int [of "CHR ''\<newline>''" i] by auto

end
