(* ===== verification/Cxx_Double.thy ===== *)
theory Cxx_Double
  imports Cxx_Numbers
begin

text \<open>
  \<open>double\<close> as an exact binary64 value: a sign, a magnitude \<open>dman * 2 ^ dexp\<close>.
  \<open>stod\<close> is \<open>std::stod\<close> on decimal text (round to nearest, ties to even; the JSON
  scanner never hands it a hexadecimal, infinite or NaN text), \<open>fmt_g\<close> is
  \<open>snprintf("%g")\<close>, \<open>dbl_to_i64\<close> the cast \<open>(int64_t)d\<close>.
\<close>

datatype dbl = Dbl (dneg: bool) (dman: nat) (dexp: int)

section \<open>Rounding\<close>

fun nbits :: "nat \<Rightarrow> nat" where
  "nbits n = (if n = 0 then 0 else Suc (nbits (n div 2)))"

declare nbits.simps [simp del]

text \<open>Division rounding to nearest, ties to the even quotient.\<close>

definition round_div :: "nat \<Rightarrow> nat \<Rightarrow> nat" where
  "round_div a b = (let q = a div b; r = a mod b in
     if 2 * r < b \<or> 2 * r = b \<and> even q then q else q + 1)"

text \<open>The fraction \<open>a / b\<close> divided by \<open>2 ^ e\<close>, as a fraction.\<close>

definition scale2 :: "nat \<Rightarrow> nat \<Rightarrow> int \<Rightarrow> nat \<times> nat" where
  "scale2 a b e = (if 0 \<le> e then (a, b * 2 ^ nat e) else (a * 2 ^ nat (- e), b))"

text \<open>The exponent that leaves a quotient of 53 bits.\<close>

definition bin_exp :: "nat \<Rightarrow> nat \<Rightarrow> int" where
  "bin_exp a b = (let e = int (nbits a) - int (nbits b) - 53; (c, d) = scale2 a b e in
     if d * 2 ^ 53 \<le> c then e + 1 else e)"

definition to_binary64 :: "bool \<Rightarrow> nat \<Rightarrow> nat \<Rightarrow> dbl res" where
  "to_binary64 neg a b =
     (if a = 0 then Inr (Dbl neg 0 0)
      else let e = bin_exp a b; (c, d) = scale2 a b e; q = round_div c d;
               (m, x) = (if q = 2 ^ 53 then (2 ^ 52, e + 1) else (q, e))
           in if 971 < x then Inl (Out_of_range ''stod'')
              else if x < - 1074 then
                (let (c', d') = scale2 a b (- 1074) in
                 if d' dvd c' then Inr (Dbl neg (c' div d') (- 1074))
                 else Inl (Out_of_range ''stod''))
              else Inr (Dbl neg m x))"

section \<open>std::stod\<close>

definition starts_with_in :: "string \<Rightarrow> string \<Rightarrow> bool" where
  "starts_with_in cs s \<longleftrightarrow> s \<noteq> [] \<and> hd s \<in> set cs"

text \<open>The optional fraction and exponent parts of the text after the integer digits.\<close>

definition frac_part :: "string \<Rightarrow> string \<times> string" where
  "frac_part s = (if starts_with_in ''.'' s
     then (takeWhile is_digit (tl s), dropWhile is_digit (tl s)) else ([], s))"

definition exp_part :: "string \<Rightarrow> int" where
  "exp_part s = (if starts_with_in ''eE'' s
     then (let (neg, t) = read_sign (tl s); ds = takeWhile is_digit t
           in if neg then - int (digits_val ds) else int (digits_val ds))
     else 0)"

text \<open>The binary64 value nearest to \<open>n * 10 ^ e\<close>.\<close>

definition decimal :: "bool \<Rightarrow> nat \<Rightarrow> int \<Rightarrow> dbl res" where
  "decimal neg n e = (if 0 \<le> e then to_binary64 neg (n * 10 ^ nat e) 1
     else to_binary64 neg n (10 ^ nat (- e)))"

definition stod :: "string \<Rightarrow> dbl res" where
  "stod s =
     (let (neg, t) = read_sign (dropWhile is_space s);
          ip = takeWhile is_digit t;
          (fp, t2) = frac_part (dropWhile is_digit t)
      in if ip = [] \<and> fp = [] then Inl (Invalid_argument ''stod'')
         else decimal neg (digits_val (ip @ fp)) (exp_part t2 - int (length fp)))"

section \<open>The cast to a 64-bit integer\<close>

text \<open>
  The cast truncates toward zero.  Out of range it is undefined in C++; the model has the
  result of the x86-64 instruction the compilers use, the most negative integer.
\<close>

definition dbl_trunc :: "dbl \<Rightarrow> int" where
  "dbl_trunc d = (let m = (if 0 \<le> dexp d then dman d * 2 ^ nat (dexp d)
                           else dman d div 2 ^ nat (- dexp d))
     in if dneg d then - int m else int m)"

definition dbl_to_i64 :: "dbl \<Rightarrow> i64" where
  "dbl_to_i64 d = (if fits64 (dbl_trunc d) then word_of_int (dbl_trunc d)
     else word_of_int (- (2 ^ 63)))"

section \<open>snprintf with the format g\<close>

text \<open>The fraction \<open>a / b\<close> divided by \<open>10 ^ x\<close>.\<close>

definition scale10 :: "nat \<Rightarrow> nat \<Rightarrow> int \<Rightarrow> nat \<times> nat" where
  "scale10 a b x = (if 0 \<le> x then (a, b * 10 ^ nat x) else (a * 10 ^ nat (- x), b))"

text \<open>The decimal exponent: \<open>10 ^ x \<le> a / b < 10 ^ (x + 1)\<close>.\<close>

fun neg_dec_exp :: "nat \<Rightarrow> nat \<Rightarrow> nat \<Rightarrow> int" where
  "neg_dec_exp 0 a b = 0"
| "neg_dec_exp (Suc k) a b = (if b \<le> a then 0 else neg_dec_exp k (10 * a) b - 1)"

definition dec_exp :: "nat \<Rightarrow> nat \<Rightarrow> int" where
  "dec_exp a b = (if b \<le> a then int (length (show_nat (a div b))) - 1
     else neg_dec_exp (length (show_nat b)) a b)"

definition strip_zeros :: "string \<Rightarrow> string" where
  "strip_zeros s = rev (dropWhile (\<lambda>c. c = CHR ''0'') (rev s))"

definition with_frac :: "string \<Rightarrow> string \<Rightarrow> string" where
  "with_frac ip fp = (let f = strip_zeros fp in if f = [] then ip else ip @ ''.'' @ f)"

definition exp_text :: "int \<Rightarrow> string" where
  "exp_text x = (let ds = show_nat (nat \<bar>x\<bar>) in
     (if x < 0 then ''e-'' else ''e+'') @ (if length ds < 2 then ''0'' @ ds else ds))"

text \<open>Six significant digits \<open>ds\<close>, the first of weight \<open>10 ^ x\<close>.\<close>

definition layout_g :: "string \<Rightarrow> int \<Rightarrow> string" where
  "layout_g ds x =
     (if x < - 4 \<or> 6 \<le> x then with_frac (take 1 ds) (drop 1 ds) @ exp_text x
      else if 0 \<le> x then with_frac (take (nat x + 1) ds) (drop (nat x + 1) ds)
      else with_frac ''0'' (replicate (nat (- x) - 1) (CHR ''0'') @ ds))"

definition fmt_g_pos :: "nat \<Rightarrow> nat \<Rightarrow> string" where
  "fmt_g_pos a b =
     (if a = 0 then ''0''
      else let x = dec_exp a b; (c, d) = scale10 a b (x - 5); m = round_div c d
           in if m = 10 ^ 6 then layout_g ''100000'' (x + 1) else layout_g (show_nat m) x)"

definition fmt_g :: "dbl \<Rightarrow> string" where
  "fmt_g d = (if dneg d then ''-'' else []) @
     (if 0 \<le> dexp d then fmt_g_pos (dman d * 2 ^ nat (dexp d)) 1
      else fmt_g_pos (dman d) (2 ^ nat (- dexp d)))"

section \<open>Lemmas\<close>

lemma show_nat_bound: "n < 10 ^ length (show_nat n)"
proof (induction n rule: show_nat.induct)
  case (1 n)
  then show ?case by (subst show_nat.simps) auto
qed

text \<open>
  The search for the decimal exponent of a magnitude below one takes as many steps as the
  denominator has digits, and that is enough.
\<close>

lemma neg_dec_exp_correct:
  assumes "b \<le> a * 10 ^ k"
  shows "neg_dec_exp k a b \<le> 0 \<and> b \<le> a * 10 ^ nat (- neg_dec_exp k a b) \<and>
    (neg_dec_exp k a b < 0 \<longrightarrow> a * 10 ^ nat (- neg_dec_exp k a b - 1) < b)"
  using assms
proof (induction k a b rule: neg_dec_exp.induct)
  case (1 a b)
  then show ?case by simp
next
  case (2 k a b)
  show ?case
  proof (cases "b \<le> a")
    case True
    then show ?thesis by simp
  next
    case False
    define x where "x = neg_dec_exp k (10 * a) b"
    have IH: "x \<le> 0" "b \<le> 10 * a * 10 ^ nat (- x)"
      "x < 0 \<Longrightarrow> 10 * a * 10 ^ nat (- x - 1) < b"
      using "2.IH" [OF False] "2.prems" by (simp_all add: x_def mult_ac)
    have step: "neg_dec_exp (Suc k) a b = x - 1" using False by (simp add: x_def)
    have s: "nat (1 - x) = Suc (nat (- x))" using IH(1) by simp
    have t: "x < 0 \<Longrightarrow> nat (- x) = Suc (nat (- x - 1))" by simp
    show ?thesis
      using False IH unfolding step by (cases "x < 0") (auto simp: s t mult_ac)
  qed
qed

lemma dec_exp_below_one:
  assumes "0 < a" "a < b"
  shows "dec_exp a b \<le> 0 \<and> b \<le> a * 10 ^ nat (- dec_exp a b) \<and>
    (dec_exp a b < 0 \<longrightarrow> a * 10 ^ nat (- dec_exp a b - 1) < b)"
proof -
  have "b \<le> a * 10 ^ length (show_nat b)"
    using assms show_nat_bound [of b] mult_le_mono [of 1 a "b" "10 ^ length (show_nat b)"] by simp
  from neg_dec_exp_correct [OF this] show ?thesis using assms by (simp add: dec_exp_def)
qed

definition num_char :: "char \<Rightarrow> bool" where
  "num_char c \<longleftrightarrow> is_digit c \<or> c \<in> set ''+-.e''"

lemma num_char_digits: "\<forall>c \<in> set s. is_digit c \<Longrightarrow> \<forall>c \<in> set s. num_char c"
  by (auto simp: num_char_def)

lemma strip_zeros_subset: "set (strip_zeros s) \<subseteq> set s"
  by (auto simp: strip_zeros_def dest: set_dropWhileD)

lemma with_frac_chars:
  "\<forall>c \<in> set ip. num_char c \<Longrightarrow> \<forall>c \<in> set fp. num_char c \<Longrightarrow> \<forall>c \<in> set (with_frac ip fp). num_char c"
  using strip_zeros_subset [of fp] by (auto simp: with_frac_def Let_def num_char_def)

lemma exp_text_chars: "\<forall>c \<in> set (exp_text x). num_char c"
proof -
  have d: "\<forall>c \<in> set (show_nat n). num_char c" for n
    by (rule num_char_digits [OF show_nat_digits])
  have z: "num_char (CHR ''0'')" "num_char (CHR ''e'')" "num_char (CHR ''+'')"
    "num_char (CHR ''-'')"
    by (simp_all add: num_char_def is_digit_def)
  show ?thesis using d [of "nat \<bar>x\<bar>"] z by (simp add: exp_text_def Let_def)
qed

lemma layout_g_chars:
  assumes "\<forall>c \<in> set ds. num_char c"
  shows "\<forall>c \<in> set (layout_g ds x). num_char c"
proof -
  have z: "num_char (CHR ''0'')" by (simp add: num_char_def is_digit_def)
  have t: "\<forall>c \<in> set (take n ds). num_char c" "\<forall>c \<in> set (drop n ds). num_char c" for n
    using assms by (auto dest: in_set_takeD in_set_dropD)
  have r: "\<forall>c \<in> set (replicate n (CHR ''0'') @ ds). num_char c" for n
    using assms z by auto
  show ?thesis
    unfolding layout_g_def
    using with_frac_chars [OF t(1) t(2)] with_frac_chars [of "''0''", OF _ r] exp_text_chars z
    by auto
qed

lemma fmt_g_pos_chars: "\<forall>c \<in> set (fmt_g_pos a b). num_char c"
proof -
  have z: "num_char (CHR ''0'')" "num_char (CHR ''1'')"
    by (simp_all add: num_char_def is_digit_def)
  have d: "\<forall>c \<in> set (layout_g (show_nat m) x). num_char c" for m x
    by (rule layout_g_chars [OF num_char_digits [OF show_nat_digits]])
  have e: "\<forall>c \<in> set (layout_g ''100000'' x). num_char c" for x
    by (rule layout_g_chars) (simp add: z)
  obtain p q where "scale10 a b (dec_exp a b - 5) = (p, q)" by fastforce
  then show ?thesis
    using d e z by (simp add: fmt_g_pos_def Let_def)
qed

lemma fmt_g_chars: "\<forall>c \<in> set (fmt_g d). num_char c"
  using fmt_g_pos_chars by (auto simp: fmt_g_def num_char_def)

lemma fmt_g_no_newline [framing]: "CHR ''\<newline>'' \<notin> set (fmt_g d)"
  using fmt_g_chars [of d] by (auto simp: num_char_def)

text \<open>An integer of at most 53 bits is represented exactly.\<close>

lemma nbits_1 [simp]: "nbits (Suc 0) = Suc 0"
  by (simp add: nbits.simps [of 1, simplified] nbits.simps [of 0])

lemma nbits_bounds: "0 < n \<Longrightarrow> 2 ^ (nbits n - 1) \<le> n \<and> n < 2 ^ nbits n \<and> 0 < nbits n"
proof (induction n rule: nbits.induct)
  case (1 n)
  show ?case
  proof (cases "n = 1")
    case True
    then show ?thesis by simp
  next
    case False
    with 1 have "2 ^ (nbits (n div 2) - 1) \<le> n div 2 \<and> n div 2 < 2 ^ nbits (n div 2)
        \<and> 0 < nbits (n div 2)"
      by simp
    then obtain k where k: "nbits (n div 2) = Suc k" "2 ^ k \<le> n div 2" "n div 2 < 2 ^ Suc k"
      by (cases "nbits (n div 2)") auto
    then have "2 * 2 ^ k \<le> n" "n < 2 * 2 ^ Suc k" by linarith+
    then show ?thesis using "1.prems" k(1) by (simp add: nbits.simps [of n])
  qed
qed

lemma nbits_le: "0 < n \<Longrightarrow> n < 2 ^ k \<Longrightarrow> nbits n \<le> k"
  using nbits_bounds [of n] power_less_imp_less_exp [of "2::nat" "nbits n - 1" k] by linarith

lemma to_binary64_int:
  assumes "0 < n" "n < 2 ^ 53"
  shows "\<exists>m x. to_binary64 neg n 1 = Inr (Dbl neg m x) \<and> dbl_trunc (Dbl neg m x) =
    (if neg then - int n else int n)"
proof -
  define k where "k = nbits n"
  have k: "0 < k" "k \<le> 53" "2 ^ (k - 1) \<le> n" "n < 2 ^ k"
    using nbits_bounds [of n] nbits_le [of n 53] assms by (auto simp: k_def)
  have "(2::nat) ^ 53 = 2 ^ (k - 1) * 2 ^ (54 - k)"
    using k by (simp flip: power_add)
  also have "\<dots> \<le> n * 2 ^ (54 - k)" using k by simp
  finally have big: "2 ^ 53 \<le> n * 2 ^ (54 - k)" .
  have "n * 2 ^ (53 - k) < 2 ^ k * 2 ^ (53 - k)" using k by simp
  also have "\<dots> = (2::nat) ^ 53" using k by (simp flip: power_add)
  finally have small: "n * 2 ^ (53 - k) < 2 ^ 53" .
  have e: "bin_exp n 1 = int k - 53"
    using big k by (simp add: bin_exp_def scale2_def k_def nat_diff_distrib' Let_def)
  have s: "scale2 n 1 (int k - 53) = (n * 2 ^ (53 - k), 1)"
    using k by (auto simp: scale2_def nat_diff_distrib')
  have "to_binary64 neg n 1 = Inr (Dbl neg (n * 2 ^ (53 - k)) (int k - 53))"
    using assms small k by (simp add: to_binary64_def e s round_div_def Let_def del: One_nat_def)
  moreover have "dbl_trunc (Dbl neg (n * 2 ^ (53 - k)) (int k - 53)) = (if neg then - int n else int n)"
    using k by (auto simp: dbl_trunc_def nat_diff_distrib')
  ultimately show ?thesis by blast
qed

end
