(* ===== verification/Json.thy ===== *)
theory Json
  imports Cxx_Double
begin

text \<open>
  \<open>src/shared/json.hpp\<close>: the value type, its accessors, the recursive-descent parser and
  the two printers.  The parser's pair of pointers \<open>p\<close>, \<open>end\<close> is the list of
  characters still to be read; a \<open>p\<close> moved past \<open>end\<close> (the parser skips four or
  five characters after \<open>t\<close>, \<open>f\<close>, \<open>n\<close> without looking at them) behaves as
  the empty list, since every later test is \<open>p < end\<close> or \<open>p >= end\<close>.
\<close>

section \<open>Values\<close>

text \<open>
  The alternatives of the variant, in its order.  An object is the entry list of a
  \<open>std::map\<close>, in iteration order.
\<close>

datatype json =
    JNull
  | JBool bool
  | JInt i64
  | JDouble dbl
  | JString string
  | JArray "json list"
  | JObject "(string \<times> json) list"

fun is_object :: "json \<Rightarrow> bool" where
  "is_object (JObject _) = True"
| "is_object _ = False"

fun get_bool :: "json \<Rightarrow> bool \<Rightarrow> bool" where
  "get_bool (JBool b) def = b"
| "get_bool _ def = def"

fun get_int :: "json \<Rightarrow> i64 \<Rightarrow> i64" where
  "get_int (JInt n) def = n"
| "get_int (JDouble d) def = dbl_to_i64 d"
| "get_int _ def = def"

fun get_string :: "json \<Rightarrow> string" where
  "get_string (JString s) = s"
| "get_string _ = []"

fun get_array :: "json \<Rightarrow> json list" where
  "get_array (JArray a) = a"
| "get_array _ = []"

fun get_object :: "json \<Rightarrow> (string \<times> json) list" where
  "get_object (JObject m) = m"
| "get_object _ = []"

fun has :: "json \<Rightarrow> string \<Rightarrow> bool" where
  "has (JObject m) key = (map_of m key \<noteq> None)"
| "has _ key = False"

text \<open>The two index operators: reading, and reading for assignment.\<close>

fun index :: "json \<Rightarrow> string \<Rightarrow> json" where
  "index (JObject m) key = (case map_of m key of Some v \<Rightarrow> v | None \<Rightarrow> JNull)"
| "index _ key = JNull"

definition assign :: "json \<Rightarrow> string \<Rightarrow> json \<Rightarrow> json" where
  "assign v key x = JObject (omap_put key x (if is_object v then get_object v else []))"

definition str :: "json \<Rightarrow> string \<Rightarrow> string \<Rightarrow> string" where
  "str v key def = (if \<not> has v key then def else get_string (index v key))"

definition num :: "json \<Rightarrow> string \<Rightarrow> i64 \<Rightarrow> i64" where
  "num v key def = (if \<not> has v key then def else get_int (index v key) def)"

definition flag :: "json \<Rightarrow> string \<Rightarrow> bool \<Rightarrow> bool" where
  "flag v key def = (if \<not> has v key then def else get_bool (index v key) def)"

definition push :: "json \<Rightarrow> json \<Rightarrow> json" where
  "push v x = JArray (get_array v @ [x])"

section \<open>Parser\<close>

definition json_ws :: "char \<Rightarrow> bool" where
  "json_ws c \<longleftrightarrow> c = CHR '' '' \<or> c = CHR 0x09 \<or> c = CHR 0x0D \<or> c = CHR ''\<newline>''"

definition skip_ws :: "string \<Rightarrow> string" where
  "skip_ws s = dropWhile json_ws s"

text \<open>\<open>peek() == c\<close> for a character \<open>c\<close> other than the end mark \<open>'\0'\<close>.\<close>

definition peek_is :: "char \<Rightarrow> string \<Rightarrow> bool" where
  "peek_is c s \<longleftrightarrow> s \<noteq> [] \<and> hd s = c"

definition unescape :: "char \<Rightarrow> char" where
  "unescape c = (if c = CHR ''n'' then CHR ''\<newline>'' else if c = CHR ''r'' then CHR 0x0D
     else if c = CHR ''t'' then CHR 0x09 else c)"

text \<open>The loop of \<open>parse_string\<close>: the characters collected, and the text at its exit.\<close>

fun string_loop :: "string \<Rightarrow> string \<Rightarrow> string \<times> string" where
  "string_loop acc [] = (acc, [])"
| "string_loop acc (c # cs) =
     (if c = CHR 0x22 then (acc, c # cs)
      else if c = CHR 0x5C then
        (case cs of [] \<Rightarrow> (acc, []) | e # es \<Rightarrow> string_loop (acc @ [unescape e]) es)
      else string_loop (acc @ [c]) cs)"

definition parse_string :: "string \<Rightarrow> (string \<times> string) res" where
  "parse_string s =
     (if \<not> peek_is (CHR 0x22) s then Inl (Runtime_error (''json: expected '' @ [CHR 0x27, CHR 0x22, CHR 0x27]))
      else let (t, r) = string_loop [] (tl s)
           in if \<not> peek_is (CHR 0x22) r then Inl (Runtime_error ''json: unterminated string'')
              else Inr (t, tl r))"

text \<open>
  \<open>scan_number\<close> is the scanning part of \<open>parse_number\<close>: the number's text, whether it
  is a floating-point text, and the rest.
\<close>

definition scan_exp :: "string \<Rightarrow> string \<times> string" where
  "scan_exp s =
     (if starts_with_in ''eE'' s then
        let t = tl s;
            (sg, u) = (if starts_with_in ''+-'' t then ([hd t], tl t) else ([], t))
        in (hd s # sg @ takeWhile is_digit u, dropWhile is_digit u)
      else ([], s))"

definition scan_frac :: "string \<Rightarrow> string \<times> string" where
  "scan_frac s =
     (if starts_with_in ''.'' s then (hd s # takeWhile is_digit (tl s), dropWhile is_digit (tl s))
      else ([], s))"

definition scan_number :: "string \<Rightarrow> string \<times> bool \<times> string" where
  "scan_number s =
     (let (sg, t) = (if peek_is (CHR ''-'') s then ([CHR ''-''], tl s) else ([], s));
          ip = takeWhile is_digit t;
          (fp, u) = scan_frac (dropWhile is_digit t);
          (ep, r) = scan_exp u
      in (sg @ ip @ fp @ ep, fp \<noteq> [] \<or> ep \<noteq> [], r))"

definition parse_number :: "string \<Rightarrow> (json \<times> string) res" where
  "parse_number s =
     (let (t, is_float, r) = scan_number s
      in if is_float then (case stod t of Inl e \<Rightarrow> Inl e | Inr d \<Rightarrow> Inr (JDouble d, r))
         else (case stoll t of Inl e \<Rightarrow> Inl e | Inr n \<Rightarrow> Inr (JInt n, r)))"

function parse_value :: "string \<Rightarrow> (json \<times> string) res"
  and object_loop :: "(string \<times> json) list \<Rightarrow> string \<Rightarrow> (json \<times> string) res"
  and array_loop :: "json list \<Rightarrow> string \<Rightarrow> (json \<times> string) res" where
  "parse_value s =
     (case skip_ws s of
        [] \<Rightarrow> Inl (Runtime_error ''json: unexpected end'')
      | c # cs \<Rightarrow>
          if c = CHR 0x22 then
            (case parse_string (c # cs) of Inl e \<Rightarrow> Inl e | Inr (t, r) \<Rightarrow> Inr (JString t, r))
          else if c = CHR ''{'' then
            (if peek_is (CHR ''}'') (skip_ws cs) then Inr (JObject [], tl (skip_ws cs))
             else object_loop [] cs)
          else if c = CHR ''['' then
            (if peek_is (CHR '']'') (skip_ws cs) then Inr (JArray [], tl (skip_ws cs))
             else array_loop [] cs)
          else if c = CHR ''t'' then Inr (JBool True, drop 4 (c # cs))
          else if c = CHR ''f'' then Inr (JBool False, drop 5 (c # cs))
          else if c = CHR ''n'' then Inr (JNull, drop 4 (c # cs))
          else if c = CHR ''-'' \<or> is_digit c then parse_number (c # cs)
          else Inl (Runtime_error (''json: unexpected char: '' @ [c])))"
| "object_loop obj s =
     (case parse_string (skip_ws s) of
        Inl e \<Rightarrow> Inl e
      | Inr (key, r) \<Rightarrow>
          if \<not> peek_is (CHR '':'') (skip_ws r) then
            Inl (Runtime_error (''json: expected '' @ [CHR 0x27, CHR '':'', CHR 0x27]))
          else
            (case parse_value (tl (skip_ws r)) of
               Inl e \<Rightarrow> Inl e
             | Inr (v, r2) \<Rightarrow>
                 if peek_is (CHR ''}'') (skip_ws r2) then
                   Inr (JObject (omap_put key v obj), tl (skip_ws r2))
                 else if \<not> peek_is (CHR '','') (skip_ws r2) then
                   Inl (Runtime_error (''json: expected '' @ [CHR 0x27, CHR '','', CHR 0x27] @ '' or '' @
                     [CHR 0x27, CHR ''}'', CHR 0x27]))
                 else object_loop (omap_put key v obj) (tl (skip_ws r2))))"
| "array_loop arr s =
     (case parse_value s of
        Inl e \<Rightarrow> Inl e
      | Inr (v, r) \<Rightarrow>
          if peek_is (CHR '']'') (skip_ws r) then Inr (JArray (arr @ [v]), tl (skip_ws r))
          else if \<not> peek_is (CHR '','') (skip_ws r) then
            Inl (Runtime_error (''json: expected '' @ [CHR 0x27, CHR '','', CHR 0x27] @ '' or '' @
              [CHR 0x27, CHR '']'', CHR 0x27]))
          else array_loop (arr @ [v]) (tl (skip_ws r)))"
  by pat_completeness auto

subsection \<open>Every successful read shortens the text\<close>

lemma skip_ws_length: "length (skip_ws s) \<le> length s"
  by (simp add: skip_ws_def length_dropWhile_le)

lemma string_loop_length: "length (snd (string_loop acc s)) \<le> length s"
proof (induction acc s rule: string_loop.induct)
  case (1 acc)
  then show ?case by simp
next
  case (2 acc c cs)
  then show ?case by (cases cs) (auto simp del: string_loop.simps(2) simp: string_loop.simps(2) [of acc c])
qed

lemma parse_string_length: "parse_string s = Inr (t, r) \<Longrightarrow> length r < length s"
  using string_loop_length [of "[]" "tl s"]
  by (cases s) (auto simp: parse_string_def peek_is_def split: if_splits prod.splits)

lemma scan_frac_length: "length (snd (scan_frac s)) \<le> length s"
  using length_dropWhile_le [of is_digit "tl s"] by (auto simp: scan_frac_def)

lemma scan_exp_length: "length (snd (scan_exp s)) \<le> length s"
  using length_dropWhile_le [of is_digit "tl s"] length_dropWhile_le [of is_digit "tl (tl s)"]
  by (auto simp: scan_exp_def Let_def)

lemma scan_number_length:
  assumes "c = CHR ''-'' \<or> is_digit c" "scan_number (c # cs) = (t, f, r)"
  shows "length r \<le> length cs"
proof -
  define u where "u = dropWhile is_digit (if c = CHR ''-'' then cs else c # cs)"
  have u: "length u \<le> length cs"
    using assms(1) length_dropWhile_le [of is_digit cs] by (auto simp: u_def)
  obtain fp v where v: "scan_frac u = (fp, v)" by fastforce
  obtain ep w where w: "scan_exp v = (ep, w)" by fastforce
  have "r = w" using assms v w by (auto simp: scan_number_def u_def peek_is_def Let_def split: if_splits)
  then show ?thesis using u scan_frac_length [of u] scan_exp_length [of v] v w by simp
qed

lemma parse_number_length:
  assumes "c = CHR ''-'' \<or> is_digit c" "parse_number (c # cs) = Inr (v, r)"
  shows "length r \<le> length cs"
  using assms scan_number_length [OF assms(1)]
  by (auto simp: parse_number_def split: prod.splits sum.splits if_splits)

lemma peek_tl_length: "peek_is c (skip_ws r) \<Longrightarrow> length (tl (skip_ws r)) < length r"
  using skip_ws_length [of r] by (cases "skip_ws r") (auto simp: peek_is_def)

lemma parse_value_shortens_dom:
  shows "parse_value_object_loop_array_loop_dom (Inl s) \<Longrightarrow>
      parse_value s = Inr (v, r) \<Longrightarrow> length r < length s"
    and "parse_value_object_loop_array_loop_dom (Inr (Inl (obj, s))) \<Longrightarrow>
      object_loop obj s = Inr (v, r) \<Longrightarrow> length r < length s"
    and "parse_value_object_loop_array_loop_dom (Inr (Inr (arr, s))) \<Longrightarrow>
      array_loop arr s = Inr (v, r) \<Longrightarrow> length r < length s"
proof (induction s and obj s and arr s arbitrary: v r and v r and v r
    rule: parse_value_object_loop_array_loop.pinduct)
  case (1 s)
  show ?case
  proof (cases "skip_ws s")
    case Nil
    then show ?thesis using "1.prems" by (simp add: parse_value.psimps [OF "1.hyps"])
  next
    case (Cons c cs)
    have le: "length cs < length s" using skip_ws_length [of s] Cons by simp
    note eq = "1.prems" [unfolded parse_value.psimps [OF "1.hyps"] Cons list.case]
    consider "c = CHR 0x22" | "c = CHR ''{''" | "c = CHR ''[''" | "c = CHR ''t''"
      | "c = CHR ''f''" | "c = CHR ''n''"
      | "c \<noteq> CHR 0x22" "c \<noteq> CHR ''{''" "c \<noteq> CHR ''[''" "c \<noteq> CHR ''t''"
        "c \<noteq> CHR ''f''" "c \<noteq> CHR ''n''"
      by blast
    then show ?thesis
    proof cases
      case 1
      then obtain t where "parse_string (c # cs) = Inr (t, r)"
        using eq by (auto split: sum.splits)
      from parse_string_length [OF this] show ?thesis using le by simp
    next
      case 2
      show ?thesis
      proof (cases "peek_is (CHR ''}'') (skip_ws cs)")
        case True
        then show ?thesis using eq 2 le peek_tl_length [OF True] by simp
      next
        case False
        then have "object_loop [] cs = Inr (v, r)" using eq 2 by simp
        with "1.IH"(1) [OF Cons] 2 False le show ?thesis by simp
      qed
    next
      case 3
      show ?thesis
      proof (cases "peek_is (CHR '']'') (skip_ws cs)")
        case True
        then show ?thesis using eq 3 le peek_tl_length [OF True] by simp
      next
        case False
        then have "array_loop [] cs = Inr (v, r)" using eq 3 by simp
        with "1.IH"(2) [OF Cons] 3 False le show ?thesis by simp
      qed
    next
      case 7
      then have "c = CHR ''-'' \<or> is_digit c" "parse_number (c # cs) = Inr (v, r)"
        using eq by (simp_all split: if_splits)
      from parse_number_length [OF this] show ?thesis using le by simp
    qed (use eq le in auto)
  qed
next
  case (2 obj s)
  obtain key r1 where k: "parse_string (skip_ws s) = Inr (key, r1)"
    using "2.prems" by (auto simp: object_loop.psimps [OF "2.hyps"] split: sum.splits)
  then have colon: "peek_is (CHR '':'') (skip_ws r1)"
    using "2.prems" by (auto simp: object_loop.psimps [OF "2.hyps"] split: if_splits)
  then obtain w r2 where w: "parse_value (tl (skip_ws r1)) = Inr (w, r2)"
    using "2.prems" k by (auto simp: object_loop.psimps [OF "2.hyps"] split: sum.splits)
  have len: "length r2 < length s"
    using "2.IH"(1) [OF k _ _ w] peek_tl_length [OF colon] parse_string_length [OF k]
      skip_ws_length [of s] colon by fastforce
  note eq = "2.prems" [unfolded object_loop.psimps [OF "2.hyps"] k w sum.case prod.case]
  show ?case
  proof (cases "peek_is (CHR ''}'') (skip_ws r2)")
    case True
    then show ?thesis using eq colon len peek_tl_length [OF True] by simp
  next
    case False
    then have comma: "peek_is (CHR '','') (skip_ws r2)" using eq colon by (simp split: if_splits)
    then show ?thesis
      using eq colon False len peek_tl_length [OF comma] "2.IH"(2) [OF k _ _ w] by fastforce
  qed
next
  case (3 arr s)
  obtain w r2 where w: "parse_value s = Inr (w, r2)"
    using "3.prems" by (auto simp: array_loop.psimps [OF "3.hyps"] split: sum.splits)
  have len: "length r2 < length s" using "3.IH"(1) [OF w] .
  note eq = "3.prems" [unfolded array_loop.psimps [OF "3.hyps"] w sum.case prod.case]
  show ?case
  proof (cases "peek_is (CHR '']'') (skip_ws r2)")
    case True
    then show ?thesis using eq len peek_tl_length [OF True] by simp
  next
    case False
    then have comma: "peek_is (CHR '','') (skip_ws r2)" using eq by (simp split: if_splits)
    then show ?thesis
      using eq False len peek_tl_length [OF comma] "3.IH"(2) [OF w] by fastforce
  qed
qed

lemma skip_ws_Cons_length: "skip_ws s = c # cs \<Longrightarrow> length cs < length s"
  using skip_ws_length [of s] by simp

lemma parse_string_ws_length: "parse_string (skip_ws s) = Inr (t, r) \<Longrightarrow> length r < length s"
  using parse_string_length [of "skip_ws s" t r] skip_ws_length [of s] by simp

lemma parser_terminates: "All parse_value_object_loop_array_loop_dom"
  by (rule "parse_value_object_loop_array_loop.termination" [of "measure (\<lambda>x. case x of
      Inl s \<Rightarrow> 2 * length s
    | Inr (Inl (obj, s)) \<Rightarrow> 2 * length s + 1 | Inr (Inr (arr, s)) \<Rightarrow> 2 * length s + 1)"])
    (auto dest!: parse_value_shortens_dom peek_tl_length parse_string_ws_length
      skip_ws_Cons_length)

termination parse_value
  by (rule parser_terminates)

lemmas parser_simps = parse_value.simps object_loop.simps array_loop.simps
declare parser_simps [simp del]

lemma parse_value_shortens: "parse_value s = Inr (v, r) \<Longrightarrow> length r < length s"
  using parse_value_shortens_dom(1) parser_terminates by simp

text \<open>\<open>json::parse\<close>: what follows the value is not looked at.\<close>

definition parse :: "string \<Rightarrow> json res" where
  "parse s = map_sum id fst (parse_value s)"

section \<open>Printers\<close>

definition escape_char :: "char \<Rightarrow> string" where
  "escape_char c =
     (if c = CHR 0x22 then [CHR 0x5C, CHR 0x22] else if c = CHR 0x5C then [CHR 0x5C, CHR 0x5C]
      else if c = CHR ''\<newline>'' then [CHR 0x5C, CHR ''n'']
      else if c = CHR 0x0D then [CHR 0x5C, CHR ''r'']
      else if c = CHR 0x09 then [CHR 0x5C, CHR ''t''] else [c])"

definition escape :: "string \<Rightarrow> string" where
  "escape s = CHR 0x22 # concat (map escape_char s) @ [CHR 0x22]"

fun dump :: "json \<Rightarrow> string"
  and dump_elems :: "bool \<Rightarrow> json list \<Rightarrow> string"
  and dump_members :: "bool \<Rightarrow> (string \<times> json) list \<Rightarrow> string" where
  "dump JNull = ''null''"
| "dump (JBool b) = (if b then ''true'' else ''false'')"
| "dump (JInt n) = show_int (sint n)"
| "dump (JDouble d) = fmt_g d"
| "dump (JString s) = escape s"
| "dump (JArray a) = ''['' @ dump_elems True a @ '']''"
| "dump (JObject m) = ''{'' @ dump_members True m @ ''}''"
| "dump_elems first [] = []"
| "dump_elems first (e # es) = (if \<not> first then '','' else []) @ dump e @ dump_elems False es"
| "dump_members first [] = []"
| "dump_members first ((k, e) # es) =
     (if \<not> first then '','' else []) @ escape k @ '':'' @ dump e @ dump_members False es"

definition pad :: "nat \<Rightarrow> nat \<Rightarrow> string" where
  "pad indent depth = replicate (depth * indent) (CHR '' '')"

text \<open>\<open>detail::dump_pretty\<close>, with the text appended to \<open>out\<close> as the result.\<close>

fun pretty :: "nat \<Rightarrow> nat \<Rightarrow> json \<Rightarrow> string"
  and pretty_elems :: "nat \<Rightarrow> nat \<Rightarrow> json list \<Rightarrow> string"
  and pretty_members :: "nat \<Rightarrow> nat \<Rightarrow> (string \<times> json) list \<Rightarrow> string" where
  "pretty indent depth (JArray a) =
     (if a = [] then ''[]''
      else ''['' @ ''\<newline>'' @ pretty_elems indent depth a @ pad indent depth @ '']'')"
| "pretty indent depth (JObject m) =
     (if m = [] then ''{}''
      else ''{'' @ ''\<newline>'' @ pretty_members indent depth m @ pad indent depth @ ''}'')"
| "pretty indent depth v = dump v"
| "pretty_elems indent depth [] = []"
| "pretty_elems indent depth (e # es) =
     pad indent (depth + 1) @ pretty indent (depth + 1) e @
     (if es \<noteq> [] then '','' else []) @ ''\<newline>'' @ pretty_elems indent depth es"
| "pretty_members indent depth [] = []"
| "pretty_members indent depth ((k, e) # es) =
     pad indent (depth + 1) @ escape k @ '': '' @ pretty indent (depth + 1) e @
     (if es \<noteq> [] then '','' else []) @ ''\<newline>'' @ pretty_members indent depth es"

definition dump_pretty :: "json \<Rightarrow> string" where
  "dump_pretty v = pretty 2 0 v @ ''\<newline>''"

section \<open>Well-formed values\<close>

text \<open>The invariant of the object representation: keys in strictly increasing order.\<close>

fun wf_json :: "json \<Rightarrow> bool" where
  "wf_json (JArray a) = (\<forall>v \<in> set a. wf_json v)"
| "wf_json (JObject m) = (omap_ok m \<and> (\<forall>e \<in> set m. wf_json (snd e)))"
| "wf_json v = True"

lemma wf_index: "wf_json v \<Longrightarrow> wf_json (index v k)"
  by (cases v) (fastforce split: option.splits dest: map_of_SomeD)+

lemma wf_put:
  assumes "omap_ok m" "\<forall>e \<in> set m. wf_json (snd e)" "wf_json x"
  shows "omap_ok (omap_put k x m) \<and> (\<forall>e \<in> set (omap_put k x m). wf_json (snd e))"
  using assms by (auto simp: omap.ok_put omap.set_entries_put)

lemma wf_assign: "wf_json v \<Longrightarrow> wf_json x \<Longrightarrow> wf_json (assign v k x)"
  unfolding assign_def wf_json.simps by (rule wf_put) (cases v; simp)+

lemma index_assign:
  assumes "wf_json v"
  shows "index (assign v k x) j = (if j = k then x else index v j)"
  using assms by (cases v) (auto simp: assign_def omap.find_put)

lemma has_assign:
  assumes "wf_json v"
  shows "has (assign v k x) j \<longleftrightarrow> j = k \<or> has v j"
  using assms by (cases v) (auto simp: assign_def omap.find_put)

lemma is_object_assign [simp]: "is_object (assign v k x)"
  by (simp add: assign_def)

lemmas object_access = has_assign index_assign wf_assign

lemma wf_parse_number: "parse_number s = Inr (v, r) \<Longrightarrow> wf_json v"
  by (auto simp: parse_number_def split: prod.splits sum.splits if_splits)

lemma parse_value_wf_aux:
  shows "parse_value s = Inr (v, r) \<Longrightarrow> wf_json v"
    and "object_loop obj s = Inr (v, r) \<Longrightarrow> wf_json (JObject obj) \<Longrightarrow> wf_json v"
    and "array_loop arr s = Inr (v, r) \<Longrightarrow> wf_json (JArray arr) \<Longrightarrow> wf_json v"
proof (induction s and obj s and arr s arbitrary: v r and v r and v r
    rule: parse_value_object_loop_array_loop.induct)
  case (1 s)
  show ?case
  proof (cases "skip_ws s")
    case Nil
    then show ?thesis using "1.prems" by (simp add: parse_value.simps [of s])
  next
    case (Cons c cs)
    note eq = "1.prems" [unfolded parse_value.simps [of s] Cons list.case]
    consider "c = CHR 0x22" | "c = CHR ''{''" | "c = CHR ''[''" | "c = CHR ''t''"
      | "c = CHR ''f''" | "c = CHR ''n''"
      | "c \<noteq> CHR 0x22" "c \<noteq> CHR ''{''" "c \<noteq> CHR ''[''" "c \<noteq> CHR ''t''"
        "c \<noteq> CHR ''f''" "c \<noteq> CHR ''n''"
      by blast
    then show ?thesis
    proof cases
      case 1
      then show ?thesis using eq by (auto split: sum.splits)
    next
      case 2
      then show ?thesis using eq "1.IH"(1) [OF Cons] by (auto split: if_splits)
    next
      case 3
      then show ?thesis using eq "1.IH"(2) [OF Cons] by (auto split: if_splits)
    next
      case 7
      then have "parse_number (c # cs) = Inr (v, r)" using eq by (simp split: if_splits)
      then show ?thesis by (rule wf_parse_number)
    qed (use eq in auto)
  qed
next
  case (2 obj s)
  obtain key r1 where k: "parse_string (skip_ws s) = Inr (key, r1)"
    using "2.prems" by (auto simp: object_loop.simps [of obj s] split: sum.splits)
  then have colon: "peek_is (CHR '':'') (skip_ws r1)"
    using "2.prems" by (auto simp: object_loop.simps [of obj s] split: if_splits)
  then obtain w r2 where w: "parse_value (tl (skip_ws r1)) = Inr (w, r2)"
    using "2.prems" k by (auto simp: object_loop.simps [of obj s] split: sum.splits)
  have "wf_json w" using "2.IH"(1) [OF k _ _ w] colon by simp
  then have obj: "wf_json (JObject (omap_put key w obj))"
    using wf_put [of obj w key] "2.prems" by simp
  show ?case
    using "2.prems"(1) k w colon obj "2.IH"(2) [OF k _ _ w]
    by (auto simp: object_loop.simps [of obj s] split: if_splits)
next
  case (3 arr s)
  obtain w r2 where w: "parse_value s = Inr (w, r2)"
    using "3.prems" by (auto simp: array_loop.simps [of arr s] split: sum.splits)
  have "wf_json w" using "3.IH"(1) [OF w] .
  then have arr: "wf_json (JArray (arr @ [w]))" using "3.prems" by auto
  show ?case
    using "3.prems"(1) w arr "3.IH"(2) [OF w]
    by (auto simp: array_loop.simps [of arr s] split: if_splits)
qed

lemma parse_wf: "parse s = Inr v \<Longrightarrow> wf_json v"
  using parse_value_wf_aux(1) [of s] by (cases "parse_value s") (auto simp: parse_def)

end
