(* ===== verification/Json_Grammar.thy ===== *)
theory Json_Grammar
  imports Json
begin

text \<open>
  The specification of the JSON component.  \<open>renders v t\<close> says that the text \<open>t\<close> is a
  rendering of the value \<open>v\<close>, with any white space between tokens and any escapes the
  component knows in strings; the parser reads every rendering back, and both printers write
  renderings.  The grammar's characters, escapes and digits are written out, apart from the
  parser's own; only the value of a floating-point text is that of \<open>stod\<close> (\<open>decimal\<close>), which
  \<open>Rounding\<close> specifies.
  The framing lemmas say that \<open>dump\<close> never writes a newline, which the line protocol
  rests on.
\<close>

section \<open>The grammar\<close>

text \<open>
  The text between the quotes: n, r and t after a backslash stand for a control character, every
  other character after it for itself.  This is not all of JSON: there b and f stand for control
  characters as well, and u starts four hexadecimal digits.
\<close>

inductive body_of :: "string \<Rightarrow> string \<Rightarrow> bool" where
  empty: "body_of [] []"
| plain: "c \<noteq> CHR 0x22 \<Longrightarrow> c \<noteq> CHR 0x5C \<Longrightarrow> body_of s b \<Longrightarrow> body_of (c # s) (c # b)"
| newline: "body_of s b \<Longrightarrow> body_of (CHR 0x0A # s) (CHR 0x5C # CHR ''n'' # b)"
| return: "body_of s b \<Longrightarrow> body_of (CHR 0x0D # s) (CHR 0x5C # CHR ''r'' # b)"
| tab: "body_of s b \<Longrightarrow> body_of (CHR 0x09 # s) (CHR 0x5C # CHR ''t'' # b)"
| itself: "e \<notin> set ''nrt'' \<Longrightarrow> body_of s b \<Longrightarrow> body_of (e # s) (CHR 0x5C # e # b)"

definition literal_of :: "string \<Rightarrow> string \<Rightarrow> bool" where
  "literal_of s t \<longleftrightarrow> (\<exists>b. body_of s b \<and> t = CHR 0x22 # b @ [CHR 0x22])"

definition white :: "string" where
  "white = [CHR 0x20, CHR 0x09, CHR 0x0D, CHR 0x0A]"

definition ws :: "string \<Rightarrow> bool" where
  "ws w \<longleftrightarrow> set w \<subseteq> set white"

text \<open>
  Numbers: an integer text has an optional minus sign and digits; a floating-point text has
  a fraction or an exponent as well, and stands for the nearest binary64 value.
\<close>

definition all_digits :: "string \<Rightarrow> bool" where
  "all_digits ds \<longleftrightarrow> set ds \<subseteq> set ''0123456789''"

definition digit10 :: "(char \<times> nat) list" where
  "digit10 = [(CHR ''0'', 0), (CHR ''1'', 1), (CHR ''2'', 2), (CHR ''3'', 3), (CHR ''4'', 4),
     (CHR ''5'', 5), (CHR ''6'', 6), (CHR ''7'', 7), (CHR ''8'', 8), (CHR ''9'', 9)]"

definition value10 :: "string \<Rightarrow> nat" where
  "value10 ds = foldl (\<lambda>n c. 10 * n + the (map_of digit10 c)) 0 ds"

inductive int_text :: "string \<Rightarrow> int \<Rightarrow> bool" where
  nonneg: "all_digits ds \<Longrightarrow> ds \<noteq> [] \<Longrightarrow> int_text ds (int (value10 ds))"
| neg: "all_digits ds \<Longrightarrow> ds \<noteq> [] \<Longrightarrow> int_text (CHR ''-'' # ds) (- int (value10 ds))"

inductive frac_text :: "string \<Rightarrow> string \<Rightarrow> bool" where
  none: "frac_text [] []"
| point: "all_digits fp \<Longrightarrow> frac_text (CHR ''.'' # fp) fp"

inductive expo_text :: "string \<Rightarrow> int \<Rightarrow> bool" where
  none: "expo_text [] 0"
| bare: "c \<in> set ''eE'' \<Longrightarrow> all_digits ds \<Longrightarrow> expo_text (c # ds) (int (value10 ds))"
| plus: "c \<in> set ''eE'' \<Longrightarrow> all_digits ds \<Longrightarrow> expo_text (c # CHR ''+'' # ds) (int (value10 ds))"
| minus: "c \<in> set ''eE'' \<Longrightarrow> all_digits ds \<Longrightarrow> expo_text (c # CHR ''-'' # ds) (- int (value10 ds))"

text \<open>A text for \<open>n * 10 ^ e\<close>; without a minus sign it has to start with a digit.\<close>

inductive real_text :: "string \<Rightarrow> bool \<Rightarrow> nat \<Rightarrow> int \<Rightarrow> bool" where
  real: "all_digits ip \<Longrightarrow> frac_text ft fp \<Longrightarrow> expo_text et x \<Longrightarrow> ft @ et \<noteq> [] \<Longrightarrow> ip @ fp \<noteq> [] \<Longrightarrow>
    (sg, neg) = ([], False) \<and> ip \<noteq> [] \<or> (sg, neg) = (''-'', True) \<Longrightarrow>
    real_text (sg @ ip @ ft @ et) neg (value10 (ip @ fp)) (x - int (length fp))"

inductive renders :: "json \<Rightarrow> string \<Rightarrow> bool"
  and renders_elems :: "json list \<Rightarrow> string \<Rightarrow> bool"
  and renders_members :: "(string \<times> json) list \<Rightarrow> string \<Rightarrow> bool" where
  r_null: "renders JNull ''null''"
| r_true: "renders (JBool True) ''true''"
| r_false: "renders (JBool False) ''false''"
| r_int: "int_text t i \<Longrightarrow> fits64 i \<Longrightarrow> renders (JInt (word_of_int i)) t"
| r_double: "real_text t neg n e \<Longrightarrow> decimal neg n e = Inr d \<Longrightarrow> renders (JDouble d) t"
| r_string: "literal_of s t \<Longrightarrow> renders (JString s) t"
| r_array0: "ws w \<Longrightarrow> renders (JArray []) (''['' @ w @ '']'')"
| r_array: "renders_elems a t \<Longrightarrow> renders (JArray a) (''['' @ t @ '']'')"
| r_object0: "ws w \<Longrightarrow> renders (JObject []) (''{'' @ w @ ''}'')"
| r_object: "renders_members m t \<Longrightarrow>
    renders (JObject (foldl (\<lambda>m (k, v). omap_put k v m) [] m)) (''{'' @ t @ ''}'')"
| r_elem: "ws w1 \<Longrightarrow> renders v t \<Longrightarrow> ws w2 \<Longrightarrow> renders_elems [v] (w1 @ t @ w2)"
| r_elems: "ws w1 \<Longrightarrow> renders v t \<Longrightarrow> ws w2 \<Longrightarrow> renders_elems vs u \<Longrightarrow>
    renders_elems (v # vs) (w1 @ t @ w2 @ '','' @ u)"
| r_member: "ws w1 \<Longrightarrow> literal_of k kt \<Longrightarrow> ws w2 \<Longrightarrow> ws w3 \<Longrightarrow> renders v t \<Longrightarrow> ws w4 \<Longrightarrow>
    renders_members [(k, v)] (w1 @ kt @ w2 @ '':'' @ w3 @ t @ w4)"
| r_members: "ws w1 \<Longrightarrow> literal_of k kt \<Longrightarrow> ws w2 \<Longrightarrow> ws w3 \<Longrightarrow> renders v t \<Longrightarrow> ws w4 \<Longrightarrow>
    renders_members ms u \<Longrightarrow>
    renders_members ((k, v) # ms) (w1 @ kt @ w2 @ '':'' @ w3 @ t @ w4 @ '','' @ u)"

section \<open>The parser reads every rendering\<close>

text \<open>The characters of the grammar are those the parser tests for.\<close>

lemma json_ws_white: "json_ws c \<longleftrightarrow> c \<in> set white"
  by (auto simp: json_ws_def white_def)

lemma ws_def': "ws w \<longleftrightarrow> (\<forall>c \<in> set w. json_ws c)"
  by (auto simp: ws_def json_ws_white)

lemma all_digits_def': "all_digits ds \<longleftrightarrow> (\<forall>c \<in> set ds. is_digit c)"
  unfolding all_digits_def is_digit_def by blast

lemma unescape_table:
  "unescape (CHR ''n'') = CHR 0x0A" "unescape (CHR ''r'') = CHR 0x0D" "unescape (CHR ''t'') = CHR 0x09"
  "e \<notin> set ''nrt'' \<Longrightarrow> unescape e = e"
  by (simp_all add: unescape_def)

lemma value10_digits: "all_digits ds \<Longrightarrow> value10 ds = digits_val ds"
proof (induction ds rule: rev_induct)
  case (snoc c ds)
  have "the (map_of digit10 c) = digit_val c" if "c \<in> set ''0123456789''"
    using that by (auto simp: digit_val_def digit10_def)
  then show ?case using snoc by (simp add: value10_def all_digits_def)
qed (simp add: value10_def)

lemma ws_Nil [simp]: "ws []" and ws_pad [simp]: "ws (pad i d)"
  and ws_newline [simp]: "ws ''\<newline>''" and ws_space [simp]: "ws '' ''"
  by (auto simp: ws_def' pad_def json_ws_def)

lemma ws_append [simp]: "ws (a @ b) \<longleftrightarrow> ws a \<and> ws b"
  by (auto simp: ws_def')

lemma skip_ws_append: "ws w \<Longrightarrow> skip_ws (w @ s) = skip_ws s"
  by (simp add: skip_ws_def ws_def' dropWhile_append2)

definition no_ws_head :: "string \<Rightarrow> bool" where
  "no_ws_head s \<longleftrightarrow> s \<noteq> [] \<and> \<not> json_ws (hd s)"

lemma skip_ws_no_ws: "no_ws_head s \<Longrightarrow> skip_ws (s @ r) = s @ r"
  by (cases s) (auto simp: no_ws_head_def skip_ws_def)

lemma skip_ws_value: "ws w \<Longrightarrow> no_ws_head t \<Longrightarrow> skip_ws (w @ t @ r) = t @ r"
  by (simp add: skip_ws_append skip_ws_no_ws)

text \<open>What may follow a value: nothing, white space, or a structural character.\<close>

definition stop :: "string \<Rightarrow> bool" where
  "stop r \<longleftrightarrow> r = [] \<or> hd r \<in> set white \<or> hd r \<in> set '',]}''"

lemma stop_def': "stop r \<longleftrightarrow> r = [] \<or> json_ws (hd r) \<or> hd r \<in> set '',]}''"
  by (simp add: stop_def json_ws_white)

lemma stop_ws: "ws w \<Longrightarrow> stop r \<Longrightarrow> stop (w @ r)"
  by (cases w) (auto simp: stop_def' ws_def')

lemma stop_structural [simp]: "stop (CHR '','' # r)" "stop (CHR '']'' # r)" "stop (CHR ''}'' # r)"
  by (simp_all add: stop_def')

lemma stop_Nil [simp]: "stop []"
  by (simp add: stop_def')

subsection \<open>Strings\<close>

lemma string_loop_body:
  "body_of s b \<Longrightarrow> string_loop acc (b @ CHR 0x22 # r) = (acc @ s, CHR 0x22 # r)"
proof (induction arbitrary: acc rule: body_of.induct)
  case empty
  then show ?case by simp
next
  case (plain c s b)
  then show ?case by simp
qed (simp_all add: unescape_table)

lemma parse_literal: "literal_of s t \<Longrightarrow> parse_string (t @ r) = Inr (s, r)"
  using string_loop_body [of s _ "[]" r]
  by (auto simp: literal_of_def parse_string_def peek_is_def)

lemma literal_head: "literal_of s t \<Longrightarrow> \<exists>u. t = CHR 0x22 # u"
  by (auto simp: literal_of_def)

lemma literal_no_ws: "literal_of s t \<Longrightarrow> no_ws_head t"
  by (auto simp: literal_of_def no_ws_head_def json_ws_def)

subsection \<open>Numbers\<close>

text \<open>The scanner takes all of \<open>t\<close>; the dispatch on the first character leads to it.\<close>

definition number_text :: "string \<Rightarrow> bool \<Rightarrow> bool" where
  "number_text t f \<longleftrightarrow> scan_number t = (t, f, []) \<and> t \<noteq> [] \<and>
     (hd t = CHR ''-'' \<or> is_digit (hd t))"

lemma scan_all_digits:
  assumes "all_digits ds" "r = [] \<or> \<not> is_digit (hd r)"
  shows "takeWhile is_digit (ds @ r) = ds" "dropWhile is_digit (ds @ r) = r"
  using assms unfolding all_digits_def'
  by (blast intro: takeWhile_append_stop dropWhile_append_stop)+

lemma digits_head: "all_digits ds \<Longrightarrow> ds \<noteq> [] \<Longrightarrow> is_digit (hd ds)"
  by (cases ds) (simp_all add: all_digits_def')

lemma no_digits [simp]: "takeWhile is_digit ds = ds" "dropWhile is_digit ds = []" if "all_digits ds"
  using scan_all_digits [OF that, of "[]"] by simp_all

lemma read_sign_digit: "is_digit (hd t) \<Longrightarrow> t \<noteq> [] \<Longrightarrow> read_sign (dropWhile is_space t) = (False, t)"
  using digit_not_space [of "hd t"] by (cases t) (auto simp: read_sign_def)

lemma read_sign_minus: "read_sign (dropWhile is_space (CHR ''-'' # t)) = (True, t)"
  by (simp add: read_sign_def is_space_def)

lemma int_text_scan: "int_text t i \<Longrightarrow> number_text t False \<and> strto_int t = Some (i, [])"
proof (induction rule: int_text.induct)
  case (nonneg ds)
  then have d: "is_digit (hd ds)" "\<not> peek_is (CHR ''-'') ds"
    using digits_head [of ds] by (auto simp: peek_is_def)
  have "scan_number ds = (ds, False, [])"
    unfolding scan_number_def using nonneg d(2) by (simp add: scan_frac_def scan_exp_def starts_with_in_def all_digits_def')
  moreover have "strto_int ds = Some (int (value10 ds), [])"
    unfolding strto_int_def read_sign_digit [OF d(1) nonneg(2)] using nonneg by (simp add: value10_digits)
  ultimately show ?case using d(1) nonneg(2) by (simp add: number_text_def)
next
  case (neg ds)
  have "scan_number (CHR ''-'' # ds) = (CHR ''-'' # ds, False, [])"
    unfolding scan_number_def using neg
    by (simp add: peek_is_def scan_frac_def scan_exp_def starts_with_in_def all_digits_def')
  moreover have "strto_int (CHR ''-'' # ds) = Some (- int (value10 ds), [])"
    unfolding strto_int_def read_sign_minus using neg by (simp add: value10_digits)
  ultimately show ?case by (simp add: number_text_def)
qed

lemma int_text_stoll: "int_text t i \<Longrightarrow> fits64 i \<Longrightarrow> stoll t = Inr (word_of_int i)"
  by (simp add: int_text_scan stoll_def)

lemma expo_text_scan:
  "expo_text et x \<Longrightarrow> scan_exp et = (et, []) \<and> exp_part et = x \<and> (et = [] \<or> \<not> is_digit (hd et)) \<and>
    \<not> starts_with_in ''.'' et"
proof (induction rule: expo_text.induct)
  case (bare c ds)
  have "read_sign ds = (False, ds)" "\<not> starts_with_in ''+-'' ds"
    using digits_head [OF bare(2)]
    by (cases ds; auto simp: read_sign_def starts_with_in_def)+
  with bare show ?case by (auto simp: scan_exp_def exp_part_def starts_with_in_def value10_digits)
qed (auto simp: scan_exp_def exp_part_def starts_with_in_def read_sign_def value10_digits)

lemma frac_text_scan:
  assumes "frac_text ft fp" "expo_text et x"
  shows "scan_frac (ft @ et) = (ft, et)" "frac_part (ft @ et) = (fp, et)"
    "ft @ et = [] \<or> \<not> is_digit (hd (ft @ et))"
proof -
  from expo_text_scan [OF assms(2)]
  have e: "et = [] \<or> \<not> is_digit (hd et)" "\<not> starts_with_in ''.'' et" by simp_all
  have "scan_frac (ft @ et) = (ft, et) \<and> frac_part (ft @ et) = (fp, et) \<and>
    (ft @ et = [] \<or> \<not> is_digit (hd (ft @ et)))"
    using assms(1)
  proof (induction rule: frac_text.induct)
    case none
    then show ?case using e by (simp add: scan_frac_def frac_part_def)
  next
    case (point fp)
    then show ?case
      using scan_all_digits [OF point e(1)] by (simp add: scan_frac_def frac_part_def starts_with_in_def)
  qed
  then show "scan_frac (ft @ et) = (ft, et)" "frac_part (ft @ et) = (fp, et)"
    "ft @ et = [] \<or> \<not> is_digit (hd (ft @ et))" by blast+
qed

lemma real_text_scan: "real_text t neg n e \<Longrightarrow> number_text t True \<and> stod t = decimal neg n e"
proof (induction rule: real_text.induct)
  case (real ip ft fp et x sg neg)
  note f = frac_text_scan [OF real(2,3)] and ex = expo_text_scan [OF real(3)]
  note ds = scan_all_digits [OF real(1) f(3)]
  have dot: "ft \<noteq> [] \<or> et \<noteq> []" using real(4) by simp
  have "all_digits (ip @ fp)" using real(1,2) by (auto simp: all_digits_def' elim: frac_text.cases)
  then have v: "value10 (ip @ fp) = digits_val (ip @ fp)" by (rule value10_digits)
  from real(6) show ?case
  proof
    assume s: "(sg, neg) = ([], False) \<and> ip \<noteq> []"
    then obtain c cs where c: "ip = c # cs" "is_digit c"
      using digits_head [OF real(1)] by (cases ip) auto
    have "\<not> peek_is (CHR ''-'') (ip @ ft @ et)" using c by (auto simp: peek_is_def)
    moreover have "read_sign (dropWhile is_space (ip @ ft @ et)) = (False, ip @ ft @ et)"
      using c by (intro read_sign_digit) auto
    ultimately show ?thesis
      using s c ds f ex dot v by (simp add: number_text_def scan_number_def stod_def)
  next
    assume s: "(sg, neg) = (''-'', True)"
    then show ?thesis
      using real(5) ds f ex dot v read_sign_minus [of "ip @ ft @ et"]
      by (auto simp: number_text_def scan_number_def stod_def peek_is_def)
  qed
qed

lemma stop_no_digit: "stop r \<Longrightarrow> r = [] \<or> \<not> is_digit (hd r)"
  by (auto simp: stop_def' json_ws_def is_digit_def)

lemma scan_digits_append:
  assumes "r = [] \<or> \<not> is_digit (hd r)"
  shows "takeWhile is_digit (s @ r) = takeWhile is_digit s"
    and "dropWhile is_digit (s @ r) = dropWhile is_digit s @ r"
proof -
  have z: "takeWhile is_digit r = []" "dropWhile is_digit r = r" using assms by (cases r; simp)+
  show "takeWhile is_digit (s @ r) = takeWhile is_digit s"
    using z by (induction s) auto
  show "dropWhile is_digit (s @ r) = dropWhile is_digit s @ r"
    using z by (induction s) auto
qed

lemma stop_not_in:
  assumes "stop r" "set cs \<subseteq> set ''.eE+-''"
  shows "starts_with_in cs (s @ r) = starts_with_in cs s"
proof (cases s)
  case Nil
  then show ?thesis using assms by (cases r) (auto simp: starts_with_in_def stop_def' json_ws_def)
qed (simp add: starts_with_in_def)

lemma starts_nonempty: "starts_with_in cs s \<Longrightarrow> s \<noteq> []"
  by (simp add: starts_with_in_def)

lemma scan_frac_append: "stop r \<Longrightarrow> scan_frac (s @ r) = (fst (scan_frac s), snd (scan_frac s) @ r)"
  using stop_not_in [of r "''.''" s] starts_nonempty [of "''.''" s]
  by (simp add: scan_frac_def scan_digits_append stop_no_digit)

lemma scan_exp_append: "stop r \<Longrightarrow> scan_exp (s @ r) = (fst (scan_exp s), snd (scan_exp s) @ r)"
  using stop_not_in [of r "''eE''" s] stop_not_in [of r "''+-''" "tl s"]
    starts_nonempty [of "''eE''" s] starts_nonempty [of "''+-''" "tl s"]
  by (simp add: scan_exp_def scan_digits_append stop_no_digit Let_def)

lemma scan_number_append:
  assumes "stop r" "s \<noteq> []"
  shows "scan_number (s @ r) = (case scan_number s of (t, f, u) \<Rightarrow> (t, f, u @ r))"
  using assms
  by (simp add: scan_number_def peek_is_def scan_digits_append stop_no_digit scan_frac_append
      scan_exp_append Let_def split: prod.splits)

lemma parse_number_text:
  assumes "number_text t f" "stop r"
  shows "parse_number (t @ r) =
    (if f then (case stod t of Inl e \<Rightarrow> Inl e | Inr d \<Rightarrow> Inr (JDouble d, r))
     else (case stoll t of Inl e \<Rightarrow> Inl e | Inr n \<Rightarrow> Inr (JInt n, r)))"
  using assms by (simp add: number_text_def parse_number_def scan_number_append)

lemma digit_head:
  "is_digit c \<Longrightarrow> c \<noteq> CHR 0x22 \<and> c \<noteq> CHR ''{'' \<and> c \<noteq> CHR ''['' \<and> c \<noteq> CHR ''t'' \<and>
    c \<noteq> CHR ''f'' \<and> c \<noteq> CHR ''n'' \<and> \<not> json_ws c \<and> c \<noteq> CHR '']'' \<and> c \<noteq> CHR ''}''"
  by (auto simp: is_digit_def json_ws_def)

lemma parse_value_number:
  assumes "number_text t f" "stop r" "ws w"
  shows "parse_value (w @ t @ r) = parse_number (t @ r)"
proof -
  obtain c cs where t: "t = c # cs" "c = CHR ''-'' \<or> is_digit c"
    using assms(1) by (cases t) (auto simp: number_text_def)
  have skip: "skip_ws (w @ t @ r) = c # cs @ r"
  proof -
    have "\<not> json_ws c" using t(2)
    proof
      assume "c = CHR ''-''" then show ?thesis by (simp add: json_ws_def)
    next
      assume "is_digit c" then show ?thesis using digit_head [of c] by blast
    qed
    then have "no_ws_head t" by (simp add: no_ws_head_def t(1))
    from skip_ws_value [OF assms(3) this] show ?thesis by (simp add: t(1))
  qed
  have "parse_value (w @ t @ r) = parse_number (c # cs @ r)"
    using t(2)
  proof
    assume "c = CHR ''-''"
    then show ?thesis unfolding parse_value.simps [of "w @ t @ r"] skip by simp
  next
    assume "is_digit c"
    then show ?thesis
      unfolding parse_value.simps [of "w @ t @ r"] skip using digit_head [of c] by simp
  qed
  then show ?thesis by (simp add: t(1))
qed

subsection \<open>Values\<close>

text \<open>The first character of a value ends no array and no object.\<close>

definition value_head :: "string \<Rightarrow> bool" where
  "value_head t \<longleftrightarrow> no_ws_head t \<and> hd t \<noteq> CHR '']'' \<and> hd t \<noteq> CHR ''}''"

lemma skip_ws_char: "ws w \<Longrightarrow> \<not> json_ws c \<Longrightarrow> skip_ws (w @ c # r) = c # r"
  using skip_ws_value [of w "[c]" r] by (simp add: no_ws_head_def)

lemma not_json_ws [simp]:
  "\<not> json_ws (CHR '','')" "\<not> json_ws (CHR '':'')" "\<not> json_ws (CHR '']'')"
  "\<not> json_ws (CHR ''}'')" "\<not> json_ws (CHR ''['')" "\<not> json_ws (CHR ''{'')"
  "\<not> json_ws (CHR 0x22)" "\<not> json_ws (CHR ''n'')" "\<not> json_ws (CHR ''t'')"
  "\<not> json_ws (CHR ''f'')" "\<not> json_ws (CHR ''-'')"
  by (simp_all add: json_ws_def)

lemma number_value_head: "number_text t f \<Longrightarrow> value_head t"
  using digit_head [of "hd t"] by (auto simp: number_text_def value_head_def no_ws_head_def)

lemma parse_literal_value:
  assumes "literal_of s t" "ws w"
  shows "parse_value (w @ t @ r) = Inr (JString s, r)"
proof -
  obtain u where u: "t = CHR 0x22 # u" using literal_head [OF assms(1)] by blast
  show ?thesis
    using skip_ws_value [OF assms(2) literal_no_ws [OF assms(1)], of r] parse_literal [OF assms(1), of r]
    by (subst parse_value.simps) (simp add: u)
qed

lemma elem_step:
  assumes "\<forall>w r. ws w \<longrightarrow> stop r \<longrightarrow> parse_value (w @ t @ r) = Inr (v, r)"
    and "ws w1" "ws w2"
  shows "array_loop acc (w1 @ t @ w2 @ CHR '']'' # r) = Inr (JArray (acc @ [v]), r)"
    and "array_loop acc (w1 @ t @ w2 @ CHR '','' # r) = array_loop (acc @ [v]) r"
  using assms by (simp_all add: array_loop.simps [of acc "w1 @ _"] stop_ws skip_ws_char peek_is_def)

lemma member_step:
  assumes "\<forall>w r. ws w \<longrightarrow> stop r \<longrightarrow> parse_value (w @ t @ r) = Inr (v, r)"
    and "literal_of k kt" "ws w1" "ws w2" "ws w3" "ws w4"
  shows "object_loop obj (w1 @ kt @ w2 @ CHR '':'' # w3 @ t @ w4 @ CHR ''}'' # r) =
      Inr (JObject (omap_put k v obj), r)"
    and "object_loop obj (w1 @ kt @ w2 @ CHR '':'' # w3 @ t @ w4 @ CHR '','' # r) =
      object_loop (omap_put k v obj) r"
  using assms
  by (simp_all add: object_loop.simps [of obj "w1 @ _"] skip_ws_value literal_no_ws parse_literal
      stop_ws skip_ws_char peek_is_def)

lemma value_head_not_close:
  assumes "ws w" "value_head t"
  shows "\<not> peek_is (CHR '']'') (skip_ws (w @ t @ r))" "\<not> peek_is (CHR ''}'') (skip_ws (w @ t @ r))"
  using assms by (auto simp: value_head_def skip_ws_value peek_is_def no_ws_head_def hd_append)

lemma literal_value_head: "literal_of s t \<Longrightarrow> value_head t"
  by (auto simp: literal_of_def value_head_def no_ws_head_def)

text \<open>An array or an object starts with its bracket; an empty one is read at once.\<close>

lemma parse_bracket:
  assumes "ws w"
  shows "ws u \<Longrightarrow> parse_value (w @ CHR ''['' # u @ CHR '']'' # r) = Inr (JArray [], r)"
    and "ws u \<Longrightarrow> parse_value (w @ CHR ''{'' # u @ CHR ''}'' # r) = Inr (JObject [], r)"
    and "\<not> peek_is (CHR '']'') (skip_ws r) \<Longrightarrow> parse_value (w @ CHR ''['' # r) = array_loop [] r"
    and "\<not> peek_is (CHR ''}'') (skip_ws r) \<Longrightarrow> parse_value (w @ CHR ''{'' # r) = object_loop [] r"
  using assms by (auto simp: parse_value.simps [of "w @ _"] skip_ws_char peek_is_def)

lemma renders_parse:
  shows "renders v t \<Longrightarrow> value_head t \<and>
      (\<forall>w r. ws w \<longrightarrow> stop r \<longrightarrow> parse_value (w @ t @ r) = Inr (v, r))"
    and "renders_elems a t \<Longrightarrow> (\<forall>r. \<not> peek_is (CHR '']'') (skip_ws (t @ r))) \<and>
      (\<forall>acc r. array_loop acc (t @ CHR '']'' # r) = Inr (JArray (acc @ a), r))"
    and "renders_members m t \<Longrightarrow> (\<forall>r. \<not> peek_is (CHR ''}'') (skip_ws (t @ r))) \<and>
      (\<forall>obj r. object_loop obj (t @ CHR ''}'' # r) =
        Inr (JObject (foldl (\<lambda>m (k, v). omap_put k v m) obj m), r))"
proof (induction rule: renders_renders_elems_renders_members.inducts)
  case r_null
  then show ?case
    by (auto simp: value_head_def no_ws_head_def parse_value.simps [of "_ @ _"] skip_ws_char)
next
  case r_true
  then show ?case
    by (auto simp: value_head_def no_ws_head_def parse_value.simps [of "_ @ _"] skip_ws_char)
next
  case r_false
  then show ?case
    by (auto simp: value_head_def no_ws_head_def parse_value.simps [of "_ @ _"] skip_ws_char)
next
  case (r_int t i)
  then have "number_text t False" "stoll t = Inr (word_of_int i)"
    using int_text_scan int_text_stoll by blast+
  then show ?case by (simp add: number_value_head parse_value_number parse_number_text)
next
  case (r_double t neg n e d)
  then have "number_text t True" "stod t = Inr d" using real_text_scan by auto
  then show ?case by (simp add: number_value_head parse_value_number parse_number_text)
next
  case (r_string s t)
  then show ?case by (simp add: literal_value_head parse_literal_value)
next
  case (r_array0 w)
  then show ?case by (simp add: value_head_def no_ws_head_def parse_bracket(1))
next
  case (r_array a t)
  then show ?case by (simp add: value_head_def no_ws_head_def parse_bracket(3))
next
  case (r_object0 w)
  then show ?case by (simp add: value_head_def no_ws_head_def parse_bracket(2))
next
  case (r_object m t)
  then show ?case by (simp add: value_head_def no_ws_head_def parse_bracket(4))
next
  case (r_elem w1 v t w2)
  then show ?case
    using value_head_not_close(1) [of w1 t "w2 @ _"] elem_step(1) [of t v w1 w2] by simp
next
  case (r_elems w1 v t w2 vs u)
  then show ?case
    using value_head_not_close(1) [of w1 t "w2 @ _"] elem_step(2) [of t v w1 w2] by simp
next
  case (r_member w1 k kt w2 w3 v t w4)
  then show ?case
    using value_head_not_close(2) [OF _ literal_value_head, of w1 k kt "w2 @ _"]
      member_step(1) [of t v k kt w1 w2 w3 w4] by simp
next
  case (r_members w1 k kt w2 w3 v t w4 ms u)
  then show ?case
    using value_head_not_close(2) [OF _ literal_value_head, of w1 k kt "w2 @ _"]
      member_step(2) [of t v k kt w1 w2 w3 w4] by simp
qed

section \<open>The printers write renderings\<close>

lemma body_of_append: "body_of s b \<Longrightarrow> body_of s' b' \<Longrightarrow> body_of (s @ s') (b @ b')"
  by (induction rule: body_of.induct) (auto intro: body_of.intros)

lemma body_of_escape_char: "body_of [c] (escape_char c)"
proof -
  have q: "body_of [x] [CHR 0x5C, x]" if "x \<notin> set ''nrt''" for x
    using body_of.itself [OF that body_of.empty] .
  have p: "c \<noteq> CHR 0x22 \<Longrightarrow> c \<noteq> CHR 0x5C \<Longrightarrow> body_of [c] [c]"
    by (intro body_of.plain body_of.empty)
  show ?thesis
    using q [of "CHR 0x22"] q [of "CHR 0x5C"] p body_of.newline [OF body_of.empty] body_of.return [OF body_of.empty]
      body_of.tab [OF body_of.empty]
    by (simp add: escape_char_def)
qed

lemma literal_escape [simp]: "literal_of s (escape s)"
proof -
  have "body_of s (concat (map escape_char s))"
  proof (induction s)
    case Nil
    then show ?case by (simp add: body_of.empty)
  next
    case (Cons c s)
    then show ?case using body_of_append [OF body_of_escape_char] by fastforce
  qed
  then show ?thesis by (auto simp: literal_of_def escape_def)
qed

lemma int_text_show_int: "int_text (show_int i) i"
  using int_text.nonneg [of "show_nat (nat i)"] int_text.neg [of "show_nat (nat (- i))"]
  by (auto simp: show_int_def value10_digits all_digits_def' show_nat_digits)

fun no_double :: "json \<Rightarrow> bool" where
  "no_double (JDouble d) = False"
| "no_double (JArray a) = (\<forall>v \<in> set a. no_double v)"
| "no_double (JObject m) = (\<forall>e \<in> set m. no_double (snd e))"
| "no_double v = True"

text \<open>Shapes in which the printers emit the parts of a container.\<close>

lemma renders_members_sorted:
  assumes "omap_ok m" "renders_members m t"
  shows "renders (JObject m) (''{'' @ t @ ''}'')"
  using r_object [OF assms(2)] foldl_omap_put_sorted [of "[]" m] assms(1) by simp

lemma renders_elems_compact:
  assumes "renders v t" "vs \<noteq> [] \<Longrightarrow> renders_elems vs u"
  shows "renders_elems (v # vs) (t @ (if vs \<noteq> [] then '','' @ u else []))"
  using assms r_elem [of "[]" v t "[]"] r_elems [of "[]" v t "[]" vs u] by (cases "vs = []") simp_all

lemma renders_members_compact:
  assumes "renders v t" "ms \<noteq> [] \<Longrightarrow> renders_members ms u"
  shows "renders_members ((k, v) # ms) (escape k @ '':'' @ t @ (if ms \<noteq> [] then '','' @ u else []))"
  using assms r_member [of "[]" k "escape k" "[]" "[]" v t "[]"]
    r_members [of "[]" k "escape k" "[]" "[]" v t "[]" ms u]
  by (cases "ms = []") simp_all

lemma dump_elems_False: "dump_elems False a = (if a \<noteq> [] then '','' @ dump_elems True a else [])"
  by (cases a) simp_all

lemma dump_members_False:
  "dump_members False m = (if m \<noteq> [] then '','' @ dump_members True m else [])"
  by (cases m) auto

lemma renders_dump_aux:
  shows "wf_json v \<Longrightarrow> no_double v \<Longrightarrow> renders v (dump v)"
    and "\<forall>v \<in> set a. wf_json v \<and> no_double v \<Longrightarrow> a \<noteq> [] \<Longrightarrow> renders_elems a (dump_elems True a)"
    and "\<forall>e \<in> set m. wf_json (snd e) \<and> no_double (snd e) \<Longrightarrow> m \<noteq> [] \<Longrightarrow>
      renders_members m (dump_members True m)"
proof (induction v and "b::bool" a and "b'::bool" m rule: dump_dump_elems_dump_members.induct)
  case 1
  then show ?case by (simp add: r_null [simplified])
next
  case (2 b)
  then show ?case by (simp add: r_true [simplified] r_false [simplified])
next
  case (3 n)
  then show ?case using r_int [OF int_text_show_int, of "sint n"] by simp
next
  case (5 s)
  then show ?case by (simp add: r_string)
next
  case (6 a)
  then show ?case using r_array0 [of "[]"] r_array [of a "dump_elems True a"] by (cases "a = []") simp_all
next
  case (7 m)
  then show ?case
    using r_object0 [of "[]"] renders_members_sorted [of m "dump_members True m"] by (cases "m = []") simp_all
next
  case (9 b e es)
  then show ?case using renders_elems_compact [of e "dump e" es "dump_elems True es"]
    by (simp add: dump_elems_False)
next
  case (11 b k e es)
  then show ?case using renders_members_compact [of e "dump e" es "dump_members True es" k]
    by (simp add: dump_members_False)
qed simp_all

lemma renders_dump: "wf_json v \<Longrightarrow> no_double v \<Longrightarrow> renders v (dump v)"
  by (rule renders_dump_aux(1))

text \<open>
  In the indented layout the newline in front of an element belongs to the white space
  before it.
\<close>

lemma renders_elems_pretty:
  assumes "renders v t" "vs \<noteq> [] \<Longrightarrow> renders_elems vs (''\<newline>'' @ u)"
    and "vs = [] \<Longrightarrow> ws u" "ws w"
  shows "renders_elems (v # vs) (''\<newline>'' @ w @ t @ (if vs \<noteq> [] then '','' else []) @ ''\<newline>'' @ u)"
  using assms r_elem [of "''\<newline>'' @ w" v t "''\<newline>'' @ u"]
    r_elems [of "''\<newline>'' @ w" v t "[]" vs "''\<newline>'' @ u"]
  by (cases "vs = []") (simp_all add: ws_def' json_ws_def)

lemma renders_members_pretty:
  assumes "renders v t" "ms \<noteq> [] \<Longrightarrow> renders_members ms (''\<newline>'' @ u)"
    and "ms = [] \<Longrightarrow> ws u" "ws w"
  shows "renders_members ((k, v) # ms)
    (''\<newline>'' @ w @ escape k @ '': '' @ t @ (if ms \<noteq> [] then '','' else []) @ ''\<newline>'' @ u)"
  using assms r_member [of "''\<newline>'' @ w" k "escape k" "[]" "'' ''" v t "''\<newline>'' @ u"]
    r_members [of "''\<newline>'' @ w" k "escape k" "[]" "'' ''" v t "[]" ms "''\<newline>'' @ u"]
  by (cases "ms = []") (simp_all add: ws_def' json_ws_def)

lemma renders_pretty_aux:
  shows "wf_json v \<Longrightarrow> no_double v \<Longrightarrow> renders v (pretty i d v)"
    and "\<forall>v \<in> set a. wf_json v \<and> no_double v \<Longrightarrow> a \<noteq> [] \<Longrightarrow>
      renders_elems a (''\<newline>'' @ pretty_elems i d a @ pad i d)"
    and "\<forall>e \<in> set m. wf_json (snd e) \<and> no_double (snd e) \<Longrightarrow> m \<noteq> [] \<Longrightarrow>
      renders_members m (''\<newline>'' @ pretty_members i d m @ pad i d)"
proof (induction i d v and i d a and i d m rule: pretty_pretty_elems_pretty_members.induct)
  case (1 i d a)
  then show ?case
    using r_array0 [of "[]"] r_array [of a "''\<newline>'' @ pretty_elems i d a @ pad i d"]
    by (cases "a = []") simp_all
next
  case (2 i d m)
  then show ?case
    using r_object0 [of "[]"]
      renders_members_sorted [of m "''\<newline>'' @ pretty_members i d m @ pad i d"]
    by (cases "m = []") simp_all
next
  case (5 i d e es)
  then show ?case
    using renders_elems_pretty [of e "pretty i (d + 1) e" es "pretty_elems i d es @ pad i d" "pad i (d + 1)"]
    by simp
next
  case (7 i d k e es)
  then show ?case
    using renders_members_pretty [of e "pretty i (d + 1) e" es "pretty_members i d es @ pad i d" "pad i (d + 1)" k]
    by simp
qed (simp_all add: renders_dump del: dump.simps)

lemma renders_pretty: "wf_json v \<Longrightarrow> no_double v \<Longrightarrow> renders v (pretty i d v)"
  by (rule renders_pretty_aux(1))

section \<open>Reading back\<close>

lemma renders_parse_value:
  assumes "renders v t" "ws w" "stop r"
  shows "parse_value (w @ t @ r) = Inr (v, r)"
  using renders_parse(1) [OF assms(1)] assms(2,3) by blast

lemma parse_renders:
  assumes "renders v t" "ws w" "stop r"
  shows "parse (w @ t @ r) = Inr v"
  by (simp add: parse_def renders_parse_value [OF assms])

lemma parse_dump: "wf_json v \<Longrightarrow> no_double v \<Longrightarrow> parse (dump v) = Inr v"
  using parse_renders [OF renders_dump, of v "[]" "[]"] by simp

lemma parse_dump_pretty: "wf_json v \<Longrightarrow> no_double v \<Longrightarrow> parse (dump_pretty v) = Inr v"
  using parse_renders [OF renders_pretty, of v "[]" "''\<newline>''" 2 0]
  by (simp add: dump_pretty_def stop_def' json_ws_def)

section \<open>No newline in a dumped value\<close>

lemma escape_no_newline [framing]: "CHR ''\<newline>'' \<notin> set (escape s)"
  by (auto simp: escape_def escape_char_def split: if_splits)

lemma dump_no_newline_aux:
  shows "CHR ''\<newline>'' \<notin> set (dump v)"
    and "CHR ''\<newline>'' \<notin> set (dump_elems b a)"
    and "CHR ''\<newline>'' \<notin> set (dump_members b' m)"
  by (induction v and b a and b' m rule: dump_dump_elems_dump_members.induct)
    (simp_all add: framing)

lemma dump_no_newline [framing]: "CHR ''\<newline>'' \<notin> set (dump v)"
  by (rule dump_no_newline_aux(1))

section \<open>Objects built by assignment\<close>

lemma no_double_assign: "no_double v \<Longrightarrow> no_double x \<Longrightarrow> wf_json v \<Longrightarrow> no_double (assign v k x)"
  by (cases v) (auto simp: assign_def omap.set_entries_put)

lemma str_assign:
  assumes "wf_json v"
  shows "str (assign v k x) j d = (if j = k then get_string x else str v j d)"
  using assms by (simp add: str_def object_access)

lemma num_assign:
  assumes "wf_json v"
  shows "num (assign v k x) j d = (if j = k then get_int x d else num v j d)"
  using assms by (simp add: num_def object_access)

lemma flag_assign:
  assumes "wf_json v"
  shows "flag (assign v k x) j d = (if j = k then get_bool x d else flag v j d)"
  using assms by (simp add: flag_def object_access)

lemma null_fields [simp]: "str JNull k d = d" "num JNull k n = n" "flag JNull k b = b"
  "index JNull k = JNull" "has JNull k = False"
  by (simp_all add: str_def num_def flag_def)

lemmas field_access = str_assign num_assign flag_assign object_access no_double_assign

section \<open>The properties of the component\<close>

text \<open>
  C10: the parser reads every rendering of every value, with spaces, tabs, carriage returns and
  newlines between its tokens and the escapes of the grammar (n, r and t after a backslash for
  newline, carriage return and tab, any other character for itself) in its strings, after
  leading white space and before anything that may follow a value, and stops right after it.
\<close>

theorem parser_reads_renderings:
  assumes "renders v t" "ws w" "stop r"
  shows "parse_value (w @ t @ r) = Inr (v, r) \<and> parse (w @ t @ r) = Inr v"
  using renders_parse_value [OF assms] parse_renders [OF assms] by blast

text \<open>
  C11: a value whose objects have sorted, distinct keys and that holds no
  floating-point number is read back unchanged from either printed form, and the compact form
  is a single line.
\<close>

theorem printers_round_trip:
  assumes "wf_json v" "no_double v"
  shows "parse (dump v) = Inr v \<and> parse (dump_pretty v) = Inr v \<and> CHR ''\<newline>'' \<notin> set (dump v)"
  using parse_dump [OF assms] parse_dump_pretty [OF assms] dump_no_newline by blast

text \<open>
  C12: on every text the parser ends with an error or with a value
  whose objects have sorted, distinct keys, having used at least one character; a text of white
  space only is an error.
\<close>

theorem parser_total_and_wellformed:
  "(case parse_value s of
      Inl e \<Rightarrow> \<exists>m. e = Runtime_error m \<or> e = Invalid_argument m \<or> e = Out_of_range m
    | Inr (v, r) \<Rightarrow> wf_json v \<and> length r < length s) \<and>
   (ws s \<longrightarrow> parse s = Inl (Runtime_error ''json: unexpected end''))"
proof -
  have "skip_ws s = []" if "ws s" using skip_ws_append [OF that, of "[]"] by (simp add: skip_ws_def)
  then have w: "parse s = Inl (Runtime_error ''json: unexpected end'')" if "ws s"
    using that by (simp add: parse_def parse_value.simps)
  show ?thesis
  proof (cases "parse_value s")
    case (Inl e)
    then show ?thesis using w by (cases e) auto
  next
    case (Inr x)
    obtain v r where x: "x = (v, r)" by fastforce
    then show ?thesis
      using Inr w parse_wf [of s v] parse_value_shortens [of s v r] by (auto simp: parse_def)
  qed
qed

text \<open>
  After its first letter a literal is not looked at: any text that starts with t, f or n is the
  literal, and whatever follows a complete value on the line is dropped.
\<close>

lemma lenient_literals:
  "parse (CHR ''t'' # s) = Inr (JBool True) \<and> parse (CHR ''f'' # s) = Inr (JBool False) \<and>
   parse (CHR ''n'' # s) = Inr JNull \<and> parse (''{}'' @ s) = Inr (JObject [])"
  by (simp add: parse_def parse_value.simps skip_ws_def json_ws_def peek_is_def)

end
