(* ===== verification/Config.thy ===== *)
theory Config
  imports Json_Grammar
begin

text \<open>
  \<open>src/shared/config.hpp\<close> and \<open>config.cpp\<close>: profiles, the configuration, and the loader.
\<close>

record profile =
  prof_name :: string
  cpu_governor :: string
  cpu_epp :: string
  brightness_percent :: i32
  dim_brightness_percent :: i32
  dim_timeout :: i32
  sleep_timeout :: i32
  lid_close_action :: string
  power_button_action :: string
  sleep_button_action :: string

text \<open>The defaults of the member initialisers.\<close>

definition default_profile :: profile where
  "default_profile = \<lparr>prof_name = [], cpu_governor = [], cpu_epp = [],
     brightness_percent = 100, dim_brightness_percent = 20, dim_timeout = 300,
     sleep_timeout = 600, lid_close_action = ''suspend'', power_button_action = ''suspend'',
     sleep_button_action = ''suspend''\<rparr>"

record config =
  active_profile :: string
  profiles :: "profile list"

definition find_profile :: "config \<Rightarrow> string \<Rightarrow> profile option" where
  "find_profile c name = List.find (\<lambda>p. prof_name p = name) (profiles c)"

definition active_prof :: "config \<Rightarrow> profile option" where
  "active_prof c = find_profile c (active_profile c)"

text \<open>The body of the loader's loop: one profile object, with the loader's own defaults.\<close>

definition load_profile :: "json \<Rightarrow> profile" where
  "load_profile pv = \<lparr>prof_name = str pv ''name'' [],
     cpu_governor = str pv ''cpu_governor'' [],
     cpu_epp = str pv ''cpu_epp'' [],
     brightness_percent = to_int (num pv ''brightness_percent'' 100),
     dim_brightness_percent = to_int (num pv ''dim_brightness_percent'' 20),
     dim_timeout = to_int (num pv ''dim_timeout'' 300),
     sleep_timeout = to_int (num pv ''sleep_timeout'' 600),
     lid_close_action = str pv ''lid_close_action'' ''suspend'',
     power_button_action = str pv ''power_button_action'' ''poweroff'',
     sleep_button_action = str pv ''sleep_button_action'' ''suspend''\<rparr>"

fun load_profiles :: "json list \<Rightarrow> profile list \<Rightarrow> profile list res" where
  "load_profiles [] acc = Inr acc"
| "load_profiles (pv # pvs) acc =
     (let p = load_profile pv
      in if prof_name p = [] then
           Inl (Runtime_error (''profile missing '' @ [CHR 0x27] @ ''name'' @ [CHR 0x27]))
         else load_profiles pvs (acc @ [p]))"

text \<open>\<open>content\<close> is what the file at \<open>path\<close> holds, \<open>None\<close> when it cannot be opened.\<close>

definition load_config :: "string option \<Rightarrow> string \<Rightarrow> config res" where
  "load_config content path =
     (case content of
        None \<Rightarrow> Inl (Runtime_error (''cannot open config: '' @ path))
      | Some text \<Rightarrow>
          (case parse text of
             Inl e \<Rightarrow> Inl e
           | Inr root \<Rightarrow>
               (case load_profiles (get_array (index root ''profiles'')) [] of
                  Inl e \<Rightarrow> Inl e
                | Inr ps \<Rightarrow>
                    (case ps of
                       [] \<Rightarrow> Inl (Runtime_error ''config has no profiles'')
                     | p # _ \<Rightarrow>
                         let active = str root ''active_profile'' []
                         in Inr \<lparr>active_profile = (if active = [] then prof_name p else active),
                                 profiles = ps\<rparr>))))"

section \<open>What a loaded configuration satisfies\<close>

definition config_ok :: "config \<Rightarrow> bool" where
  "config_ok c \<longleftrightarrow> profiles c \<noteq> [] \<and> (\<forall>p \<in> set (profiles c). prof_name p \<noteq> []) \<and>
     active_profile c \<noteq> []"

lemma load_profiles_map:
  "load_profiles pvs acc = Inr ps \<Longrightarrow>
    ps = acc @ map load_profile pvs \<and> (\<forall>pv \<in> set pvs. prof_name (load_profile pv) \<noteq> [])"
  by (induction pvs arbitrary: acc) (fastforce simp: Let_def split: if_splits)+

lemma load_profiles_all:
  "\<forall>pv \<in> set pvs. prof_name (load_profile pv) \<noteq> [] \<Longrightarrow>
    load_profiles pvs acc = Inr (acc @ map load_profile pvs)"
  by (induction pvs arbitrary: acc) (auto simp: Let_def)

lemma load_config_ok: "load_config content path = Inr c \<Longrightarrow> config_ok c"
  by (auto simp: load_config_def config_ok_def Let_def dest!: load_profiles_map
      split: option.splits sum.splits list.splits if_splits)

lemma find_profile_Some:
  "find_profile c n = Some p \<Longrightarrow> p \<in> set (profiles c) \<and> prof_name p = n"
  by (auto simp: find_profile_def find_Some_iff)

lemma find_profile_None: "find_profile c n = None \<longleftrightarrow> (\<forall>p \<in> set (profiles c). prof_name p \<noteq> n)"
  by (auto simp: find_profile_def find_None_iff)

section \<open>A printed configuration loads back\<close>

text \<open>The JSON a configuration is written as: the shape of \<open>config/draind.json\<close>.\<close>

definition profile_json :: "profile \<Rightarrow> json" where
  "profile_json p =
     fold (\<lambda>(k, x) v. assign v k x)
       [(''name'', JString (prof_name p)),
        (''cpu_governor'', JString (cpu_governor p)),
        (''cpu_epp'', JString (cpu_epp p)),
        (''brightness_percent'', JInt (to_i64 (brightness_percent p))),
        (''dim_brightness_percent'', JInt (to_i64 (dim_brightness_percent p))),
        (''dim_timeout'', JInt (to_i64 (dim_timeout p))),
        (''sleep_timeout'', JInt (to_i64 (sleep_timeout p))),
        (''lid_close_action'', JString (lid_close_action p)),
        (''power_button_action'', JString (power_button_action p)),
        (''sleep_button_action'', JString (sleep_button_action p))]
       (JObject [])"

definition config_json :: "config \<Rightarrow> json" where
  "config_json c = assign (assign (JObject []) ''active_profile'' (JString (active_profile c)))
     ''profiles'' (JArray (map profile_json (profiles c)))"

lemma profile_json_wf [simp]: "wf_json (profile_json p)" "no_double (profile_json p)"
  by (simp_all add: profile_json_def field_access)

lemma load_profile_json [simp]: "load_profile (profile_json p) = p"
proof -
  have "load_profile (profile_json p) = \<lparr>prof_name = prof_name p, cpu_governor = cpu_governor p,
    cpu_epp = cpu_epp p, brightness_percent = brightness_percent p,
    dim_brightness_percent = dim_brightness_percent p, dim_timeout = dim_timeout p,
    sleep_timeout = sleep_timeout p, lid_close_action = lid_close_action p,
    power_button_action = power_button_action p, sleep_button_action = sleep_button_action p\<rparr>"
    by (simp add: load_profile_def profile_json_def field_access)
  then show ?thesis by simp
qed

lemma config_json_wf [simp]: "wf_json (config_json c)" "no_double (config_json c)"
  by (simp_all add: config_json_def field_access)

lemma config_json_fields [simp]:
  "str (config_json c) ''active_profile'' d = active_profile c"
  "index (config_json c) ''profiles'' = JArray (map profile_json (profiles c))"
  by (simp_all add: config_json_def field_access)

lemma load_parsed_config:
  assumes "parse text = Inr root" "get_array (index root ''profiles'') = map profile_json (profiles c)"
    and "str root ''active_profile'' [] = active_profile c" "config_ok c"
  shows "load_config (Some text) path = Inr c"
proof -
  have load: "load_profiles (map profile_json (profiles c)) [] = Inr (profiles c)"
    using assms(4) load_profiles_all [of "map profile_json (profiles c)" "[]"]
    by (simp add: config_ok_def comp_def)
  show ?thesis
    using assms load by (auto simp: load_config_def config_ok_def Let_def split: list.splits)
qed

section \<open>The properties of the component\<close>

text \<open>
  C20: a configuration with profiles, all of them named, written in either
  printed form of its JSON, with the fields in the loader's names, is loaded back unchanged:
  no field is lost, renamed or swapped for a default.
\<close>

theorem config_round_trip:
  assumes "config_ok c" "text \<in> {dump (config_json c), dump_pretty (config_json c)}"
  shows "load_config (Some text) path = Inr c"
proof -
  have "parse text = Inr (config_json c)"
    using assms(2) by (auto simp: parse_dump parse_dump_pretty)
  then show ?thesis by (rule load_parsed_config) (simp_all add: assms(1))
qed

lemma load_profiles_unnamed:
  "(\<exists>pv \<in> set pvs. str pv ''name'' [] = []) \<Longrightarrow>
    load_profiles pvs acc = Inl (Runtime_error (''profile missing '' @ [CHR 0x27] @ ''name'' @ [CHR 0x27]))"
  by (induction pvs acc rule: load_profiles.induct) (auto simp: load_profile_def Let_def)

text \<open>
  C21: loading fails for exactly four reasons, each with its own message: the file cannot be
  opened, its text is not JSON (the parser's error), it has no profiles, or one of them has no
  name.  In every other case it gives the profiles of the file in their order, all named, and an
  active name that is the file's or else the first profile's; if it is a profile's name, the
  active profile is one of that name.
\<close>

theorem config_loaded_or_error:
  "load_config None path = Inl (Runtime_error (''cannot open config: '' @ path)) \<and>
   (parse text = Inl e \<longrightarrow> load_config (Some text) path = Inl e) \<and>
   (parse text = Inr root \<longrightarrow> (let pvs = get_array (index root ''profiles'') in
     if pvs = [] then load_config (Some text) path = Inl (Runtime_error ''config has no profiles'')
     else if \<exists>pv \<in> set pvs. str pv ''name'' [] = []
     then load_config (Some text) path =
       Inl (Runtime_error (''profile missing '' @ [CHR 0x27] @ ''name'' @ [CHR 0x27]))
     else \<exists>c. load_config (Some text) path = Inr c \<and>
       map prof_name (profiles c) = map (\<lambda>pv. str pv ''name'' []) pvs \<and>
       active_profile c = (if str root ''active_profile'' [] \<noteq> [] then str root ''active_profile'' []
         else str (hd pvs) ''name'' []) \<and>
       (\<forall>p. active_prof c = Some p \<longrightarrow> p \<in> set (profiles c) \<and> prof_name p = active_profile c)))"
proof -
  have found: "active_prof c = Some p \<Longrightarrow> p \<in> set (profiles c) \<and> prof_name p = active_profile c" for c p
    using find_profile_Some [of c "active_profile c"] by (simp add: active_prof_def)
  have ok: "\<exists>c. load_config (Some text) path = Inr c \<and>
      map prof_name (profiles c) = map (\<lambda>pv. str pv ''name'' []) pvs \<and>
      active_profile c = (if str root ''active_profile'' [] \<noteq> [] then str root ''active_profile'' []
        else str (hd pvs) ''name'' [])"
    if "parse text = Inr root" "get_array (index root ''profiles'') = pvs" "pvs \<noteq> []"
      "\<not> (\<exists>pv \<in> set pvs. str pv ''name'' [] = [])" for pvs
  proof -
    have name: "prof_name (load_profile pv) = str pv ''name'' []" for pv by (simp add: load_profile_def)
    then have "load_profiles pvs [] = Inr (map load_profile pvs)" using that(4) load_profiles_all [of pvs "[]"] by auto
    then show ?thesis using that(1-3) by (cases pvs) (auto simp: load_config_def Let_def name)
  qed
  have errors: "load_config None path = Inl (Runtime_error (''cannot open config: '' @ path))"
    "parse text = Inl e \<Longrightarrow> load_config (Some text) path = Inl e"
    "parse text = Inr root \<Longrightarrow> get_array (index root ''profiles'') = [] \<Longrightarrow>
      load_config (Some text) path = Inl (Runtime_error ''config has no profiles'')"
    "parse text = Inr root \<Longrightarrow> \<exists>pv \<in> set (get_array (index root ''profiles'')). str pv ''name'' [] = [] \<Longrightarrow>
      load_config (Some text) path = Inl (Runtime_error (''profile missing '' @ [CHR 0x27] @ ''name'' @ [CHR 0x27]))"
    using load_profiles_unnamed [of "get_array (index root ''profiles'')" "[]"] by (auto simp: load_config_def)
  show ?thesis using errors ok found by (simp add: Let_def)
qed

end
