(* ===== verification/Protocol.thy ===== *)
theory Protocol
  imports Json_Grammar
begin

text \<open>
  \<open>src/shared/protocol.hpp\<close>: the message types and the encoders and the decoder of the
  line protocol.  Every encoder builds an object field by field and dumps it; the lemmas
  say that each message decodes to the object it was built from and fits on one line.
\<close>

definition SOCKET_PATH :: string where "SOCKET_PATH = ''/run/draind/draind.sock''"

definition T_HELLO :: string where "T_HELLO = ''hello''"
definition T_CONFIG :: string where "T_CONFIG = ''config''"
definition T_IDLE_DIM :: string where "T_IDLE_DIM = ''idle_dim''"
definition T_IDLE_SLEEP :: string where "T_IDLE_SLEEP = ''idle_sleep''"
definition T_ACTIVE :: string where "T_ACTIVE = ''active''"
definition T_INHIBIT :: string where "T_INHIBIT = ''inhibit''"
definition T_UNINHIBIT :: string where "T_UNINHIBIT = ''uninhibit''"
definition T_ACK :: string where "T_ACK = ''ack''"
definition T_LOCK :: string where "T_LOCK = ''lock''"
definition T_PRE_SLEEP :: string where "T_PRE_SLEEP = ''pre_sleep''"
definition T_CTL :: string where "T_CTL = ''ctl''"
definition T_CTL_REPLY :: string where "T_CTL_REPLY = ''ctl_reply''"

lemmas message_types = T_HELLO_def T_CONFIG_def T_IDLE_DIM_def T_IDLE_SLEEP_def T_ACTIVE_def
  T_INHIBIT_def T_UNINHIBIT_def T_ACK_def T_LOCK_def T_PRE_SLEEP_def T_CTL_def T_CTL_REPLY_def

section \<open>Decoding\<close>

definition decode :: "string \<Rightarrow> json res" where
  "decode line = parse line"

definition msg_type :: "json \<Rightarrow> string" where
  "msg_type v = str v ''type'' []"

section \<open>Encoding\<close>

text \<open>The objects the encoders build, before they are dumped.\<close>

definition typed :: "string \<Rightarrow> json" where
  "typed t = assign JNull ''type'' (JString t)"

definition hello_msg :: "string \<Rightarrow> u32 \<Rightarrow> json" where
  "hello_msg session_id uid = assign (assign (typed T_HELLO) ''session_id'' (JString session_id))
     ''uid'' (JInt (ucast uid))"

definition encode_hello :: "string \<Rightarrow> u32 \<Rightarrow> string" where
  "encode_hello session_id uid = dump (hello_msg session_id uid)"

definition encode_idle_dim :: string where
  "encode_idle_dim = dump (typed T_IDLE_DIM)"

definition encode_idle_sleep :: string where
  "encode_idle_sleep = dump (typed T_IDLE_SLEEP)"

definition encode_active :: string where
  "encode_active = dump (typed T_ACTIVE)"

definition reason_msg :: "string \<Rightarrow> string \<Rightarrow> json" where
  "reason_msg t reason = assign (typed t) ''reason'' (JString reason)"

definition encode_inhibit :: "string \<Rightarrow> string" where
  "encode_inhibit reason = dump (reason_msg T_INHIBIT reason)"

definition encode_uninhibit :: "string \<Rightarrow> string" where
  "encode_uninhibit reason = dump (reason_msg T_UNINHIBIT reason)"

definition config_msg :: "i32 \<Rightarrow> i32 \<Rightarrow> json" where
  "config_msg dim_timeout sleep_timeout =
     assign (assign (typed T_CONFIG) ''dim_timeout'' (JInt (to_i64 dim_timeout)))
       ''sleep_timeout'' (JInt (to_i64 sleep_timeout))"

definition encode_config :: "i32 \<Rightarrow> i32 \<Rightarrow> string" where
  "encode_config dim_timeout sleep_timeout = dump (config_msg dim_timeout sleep_timeout)"

definition encode_ack :: string where
  "encode_ack = dump (typed T_ACK)"

definition encode_lock :: string where
  "encode_lock = dump (typed T_LOCK)"

definition encode_pre_sleep :: string where
  "encode_pre_sleep = dump (typed T_PRE_SLEEP)"

definition ctl_msg :: "string \<Rightarrow> string \<Rightarrow> json" where
  "ctl_msg cmd profile =
     (let v = assign (typed T_CTL) ''cmd'' (JString cmd)
      in if profile \<noteq> [] then assign v ''profile'' (JString profile) else v)"

definition encode_ctl :: "string \<Rightarrow> string \<Rightarrow> string" where
  "encode_ctl cmd profile = dump (ctl_msg cmd profile)"

definition encode_ctl_reply :: "json \<Rightarrow> string" where
  "encode_ctl_reply fields = dump (assign fields ''type'' (JString T_CTL_REPLY))"

lemmas encoders = encode_hello_def encode_idle_dim_def encode_idle_sleep_def encode_active_def
  encode_inhibit_def encode_uninhibit_def encode_config_def encode_ack_def encode_lock_def
  encode_pre_sleep_def encode_ctl_def encode_ctl_reply_def

section \<open>The messages are well formed\<close>

lemma wf_typed [simp]: "wf_json (typed t)" "no_double (typed t)" "is_object (typed t)"
  by (simp_all add: typed_def field_access)

lemma wf_messages [simp]:
  "wf_json (hello_msg s u)" "no_double (hello_msg s u)"
  "wf_json (reason_msg t r)" "no_double (reason_msg t r)"
  "wf_json (config_msg d sl)" "no_double (config_msg d sl)"
  "wf_json (ctl_msg c p)" "no_double (ctl_msg c p)"
  by (simp_all add: hello_msg_def reason_msg_def config_msg_def ctl_msg_def field_access Let_def)

lemma dump_object_nonempty: "is_object v \<Longrightarrow> dump v \<noteq> []"
  by (cases v) simp_all

lemma hello_object: "is_object (hello_msg s u)"
  by (simp add: hello_msg_def)

lemma decode_dump: "wf_json v \<Longrightarrow> no_double v \<Longrightarrow> decode (dump v) = Inr v"
  by (simp add: decode_def parse_dump)

lemma decode_messages [simp]:
  "decode (encode_hello s u) = Inr (hello_msg s u)"
  "decode encode_idle_dim = Inr (typed T_IDLE_DIM)"
  "decode encode_idle_sleep = Inr (typed T_IDLE_SLEEP)"
  "decode encode_active = Inr (typed T_ACTIVE)"
  "decode (encode_inhibit r) = Inr (reason_msg T_INHIBIT r)"
  "decode (encode_uninhibit r) = Inr (reason_msg T_UNINHIBIT r)"
  "decode (encode_config d sl) = Inr (config_msg d sl)"
  "decode encode_ack = Inr (typed T_ACK)"
  "decode encode_lock = Inr (typed T_LOCK)"
  "decode encode_pre_sleep = Inr (typed T_PRE_SLEEP)"
  "decode (encode_ctl c p) = Inr (ctl_msg c p)"
  by (simp_all add: encoders decode_dump)

lemma decode_ctl_reply:
  "wf_json v \<Longrightarrow> no_double v \<Longrightarrow>
    decode (encode_ctl_reply v) = Inr (assign v ''type'' (JString T_CTL_REPLY))"
  by (simp add: encoders decode_dump field_access)

lemma msg_type_messages [simp]:
  "msg_type (typed t) = t"
  "msg_type (hello_msg s u) = T_HELLO"
  "msg_type (reason_msg t r) = t"
  "msg_type (config_msg d sl) = T_CONFIG"
  "msg_type (ctl_msg c p) = T_CTL"
  by (simp_all add: msg_type_def typed_def hello_msg_def reason_msg_def config_msg_def ctl_msg_def
      field_access Let_def)

lemma hello_fields [simp]:
  "str (hello_msg s u) ''session_id'' d = s"
  "num (hello_msg s u) ''uid'' n = ucast u"
  by (simp_all add: hello_msg_def typed_def field_access)

lemma reason_field [simp]: "str (reason_msg t r) ''reason'' d = r"
  by (simp add: reason_msg_def typed_def field_access)

lemma config_fields [simp]:
  "num (config_msg d sl) ''dim_timeout'' n = to_i64 d"
  "num (config_msg d sl) ''sleep_timeout'' n = to_i64 sl"
  by (simp_all add: config_msg_def typed_def field_access)

lemma ctl_fields [simp]:
  "str (ctl_msg c p) ''cmd'' d = c"
  "str (ctl_msg c p) ''profile'' [] = p"
  by (simp_all add: ctl_msg_def typed_def field_access Let_def)

lemma messages_one_line [framing]:
  "CHR ''\<newline>'' \<notin> set (encode_hello s u)" "CHR ''\<newline>'' \<notin> set encode_idle_dim"
  "CHR ''\<newline>'' \<notin> set encode_idle_sleep" "CHR ''\<newline>'' \<notin> set encode_active"
  "CHR ''\<newline>'' \<notin> set (encode_inhibit r)" "CHR ''\<newline>'' \<notin> set (encode_uninhibit r)"
  "CHR ''\<newline>'' \<notin> set (encode_config d sl)" "CHR ''\<newline>'' \<notin> set encode_ack"
  "CHR ''\<newline>'' \<notin> set encode_lock" "CHR ''\<newline>'' \<notin> set encode_pre_sleep"
  "CHR ''\<newline>'' \<notin> set (encode_ctl c p)" "CHR ''\<newline>'' \<notin> set (encode_ctl_reply v)"
  by (simp_all add: encoders framing)

end
