(* ===== verification/Socket.thy ===== *)
theory Socket
  imports Protocol
begin

text \<open>
  \<open>src/shared/socket.cpp\<close>: writing a line, collecting lines from a non-blocking
  descriptor, and setting up the Unix socket.  A system call is an outcome the environment
  chooses: the calls of a loop are a list of outcomes, used up from the front.
\<close>

section \<open>Writing a line\<close>

text \<open>
  What \<open>write\<close> does: take the given number of bytes (at most what is offered), be
  interrupted, or fail.  A list of outcomes that has run out stands for a descriptor that
  takes everything.
\<close>

datatype wr = Wrote nat | Write_intr | Write_fail

text \<open>The loop: the result, the bytes that went out, the outcomes left.\<close>

fun write_loop :: "wr list \<Rightarrow> string \<Rightarrow> bool \<times> string \<times> wr list" where
  "write_loop os [] = (True, [], os)"
| "write_loop [] p = (True, p, [])"
| "write_loop (Wrote n # os) p =
     (let (ok, out, os') = write_loop os (drop n p) in (ok, take n p @ out, os'))"
| "write_loop (Write_intr # os) p = write_loop os p"
| "write_loop (Write_fail # os) p = (False, [], os)"

definition write_line :: "wr list \<Rightarrow> string \<Rightarrow> bool \<times> string \<times> wr list" where
  "write_line os msg = write_loop os (msg @ ''\<newline>'')"

lemma write_loop_result:
  "write_loop os p = (ok, out, os') \<Longrightarrow>
    (if ok then out = p else \<exists>q. q \<noteq> [] \<and> p = out @ q)"
proof (induction os p arbitrary: ok out os' rule: write_loop.induct)
  case (3 n os v va)
  obtain ok' out' os'' where r: "write_loop os (drop n (v # va)) = (ok', out', os'')"
    by (metis prod_cases3)
  have eqs: "ok = ok'" "out = take n (v # va) @ out'" using "3.prems" r by simp_all
  have split: "v # va = take n (v # va) @ drop n (v # va)" by simp
  show ?case
  proof (cases ok')
    case True
    then show ?thesis using "3.IH" [OF r] eqs split by simp
  next
    case False
    then obtain q where "q \<noteq> []" "drop n (v # va) = out' @ q" using "3.IH" [OF r] by auto
    then show ?thesis using eqs False split by (metis append.assoc)
  qed
qed auto

lemma write_line_result:
  assumes "write_line os msg = (ok, out, os')"
  shows "if ok then out = msg @ ''\<newline>'' else \<exists>q. q \<noteq> [] \<and> msg @ ''\<newline>'' = out @ q"
  using write_loop_result [of os "msg @ ''\<newline>''"] assms by (simp add: write_line_def)

section \<open>LineBuffer\<close>

text \<open>What \<open>read\<close> does; a list that has run out stands for a descriptor with no more data.\<close>

datatype rd = Data string | Read_again | Read_intr | Read_fail | Read_eof

text \<open>The reading loop: whether the connection is still open, the buffer, the outcomes left.\<close>

fun read_loop :: "rd list \<Rightarrow> string \<Rightarrow> bool \<times> string \<times> rd list" where
  "read_loop [] buf = (True, buf, [])"
| "read_loop (Data d # rs) buf = read_loop rs (buf @ d)"
| "read_loop (Read_again # rs) buf = (True, buf, rs)"
| "read_loop (Read_intr # rs) buf = read_loop rs buf"
| "read_loop (Read_fail # rs) buf = (False, buf, rs)"
| "read_loop (Read_eof # rs) buf = (False, buf, rs)"

text \<open>The extraction loop: the complete lines of the buffer and what is left of it.\<close>

function split_lines :: "string \<Rightarrow> string list \<times> string" where
  "split_lines buf =
     (if CHR ''\<newline>'' \<in> set buf then
        let (ls, r) = split_lines (tl (dropWhile (\<lambda>c. c \<noteq> CHR ''\<newline>'') buf))
        in (takeWhile (\<lambda>c. c \<noteq> CHR ''\<newline>'') buf # ls, r)
      else ([], buf))"
  by pat_completeness auto
termination
proof (relation "measure length", simp)
  fix buf :: string
  assume "CHR ''\<newline>'' \<in> set buf"
  then have "dropWhile (\<lambda>c. c \<noteq> CHR ''\<newline>'') buf \<noteq> []" by (auto simp: dropWhile_eq_Nil_conv)
  then show "(tl (dropWhile (\<lambda>c. c \<noteq> CHR ''\<newline>'') buf), buf) \<in> measure length"
    using length_dropWhile_le [of "\<lambda>c. c \<noteq> CHR ''\<newline>''" buf]
    by (cases "dropWhile (\<lambda>c. c \<noteq> CHR ''\<newline>'') buf") auto
qed

declare split_lines.simps [simp del]

text \<open>\<open>feed\<close>: the result, the lines appended, the buffer, the outcomes left.\<close>

definition feed :: "rd list \<Rightarrow> string \<Rightarrow> bool \<times> string list \<times> string \<times> rd list" where
  "feed rs m_buf =
     (let (ok, buf, rs') = read_loop rs m_buf
      in if \<not> ok then (False, [], buf, rs')
         else let (ls, r) = split_lines buf in (True, ls, r, rs'))"

lemma split_lines_none: "CHR ''\<newline>'' \<notin> set buf \<Longrightarrow> split_lines buf = ([], buf)"
  by (simp add: split_lines.simps [of buf])

lemma split_lines_line:
  assumes "CHR ''\<newline>'' \<notin> set l"
  shows "split_lines (l @ CHR ''\<newline>'' # r) = (l # fst (split_lines r), snd (split_lines r))"
proof -
  have "takeWhile (\<lambda>c. c \<noteq> CHR ''\<newline>'') (l @ CHR ''\<newline>'' # r) = l"
    "dropWhile (\<lambda>c. c \<noteq> CHR ''\<newline>'') (l @ CHR ''\<newline>'' # r) = CHR ''\<newline>'' # r"
    using assms by (auto intro!: takeWhile_append_stop dropWhile_append_stop)
  then show ?thesis
    by (simp add: split_lines.simps [of "l @ CHR ''\<newline>'' # r"] split: prod.splits)
qed

lemma split_line_cases:
  obtains "CHR ''\<newline>'' \<notin> set (s :: string)"
  | l r where "s = l @ CHR ''\<newline>'' # r" "CHR ''\<newline>'' \<notin> set l"
  by (metis split_list_first)

lemma split_lines_spec:
  "split_lines s = (ls, r) \<Longrightarrow>
    s = concat (map (\<lambda>l. l @ ''\<newline>'') ls) @ r \<and> CHR ''\<newline>'' \<notin> set r \<and>
    (\<forall>l \<in> set ls. CHR ''\<newline>'' \<notin> set l)"
proof (induction s arbitrary: ls r rule: length_induct)
  case (1 s)
  show ?case
  proof (cases s rule: split_line_cases)
    case 1
    then show ?thesis using "1.prems" by (auto simp: split_lines_none)
  next
    case (2 l u)
    then show ?thesis
      using "1.prems" "1.IH" [rule_format, of u "fst (split_lines u)" "snd (split_lines u)"]
      by (auto simp: split_lines_line)
  qed
qed

lemma split_lines_rest: "CHR ''\<newline>'' \<notin> set (snd (split_lines s))"
  using split_lines_spec [of s "fst (split_lines s)" "snd (split_lines s)"] by (metis prod.collapse)

text \<open>Splitting what arrives in two parts, keeping the rest in between, loses nothing.\<close>

lemma split_lines_append:
  "split_lines (s @ t) =
    (fst (split_lines s) @ fst (split_lines (snd (split_lines s) @ t)),
     snd (split_lines (snd (split_lines s) @ t)))"
proof (induction s rule: length_induct)
  case (1 s)
  show ?case
  proof (cases s rule: split_line_cases)
    case 1
    then show ?thesis by (simp add: split_lines_none)
  next
    case (2 l u)
    obtain ls1 r1 where u: "split_lines u = (ls1, r1)" by fastforce
    obtain ls2 r2 where r1: "split_lines (r1 @ t) = (ls2, r2)" by fastforce
    have ut: "split_lines (u @ t) = (ls1 @ ls2, r2)"
      using "1.IH" [rule_format, of u] 2(1) u r1 by simp
    have s: "split_lines s = (l # ls1, r1)"
      using split_lines_line [OF 2(2), of u] 2(1) u by simp
    have "split_lines (s @ t) = (l # ls1 @ ls2, r2)"
      using split_lines_line [OF 2(2), of "u @ t"] 2(1) ut by simp
    then show ?thesis using s r1 by simp
  qed
qed

lemma split_lines_messages:
  assumes "\<forall>m \<in> set ms. CHR ''\<newline>'' \<notin> set m" "CHR ''\<newline>'' \<notin> set r"
  shows "split_lines (concat (map (\<lambda>m. m @ ''\<newline>'') ms) @ r) = (ms, r)"
  using assms by (induction ms) (simp_all add: split_lines_line split_lines_none)

text \<open>Data that arrives in any pieces, with interruptions, then nothing more for now.\<close>

fun quiet :: "rd list \<Rightarrow> bool" where
  "quiet [] = True"
| "quiet (Data d # rs) = quiet rs"
| "quiet (Read_intr # rs) = quiet rs"
| "quiet (_ # rs) = False"

fun payload :: "rd list \<Rightarrow> string" where
  "payload (Data d # rs) = d @ payload rs"
| "payload (_ # rs) = payload rs"
| "payload [] = []"

lemma read_loop_quiet:
  "quiet rs \<Longrightarrow> read_loop (rs @ Read_again # rs') buf = (True, buf @ payload rs, rs')"
  by (induction rs arbitrary: buf rule: quiet.induct) auto

text \<open>A run of \<open>feed\<close> over several wake-ups: all lines, and the buffer at the end.\<close>

fun feed_all :: "rd list list \<Rightarrow> string \<Rightarrow> string list \<times> string" where
  "feed_all [] buf = ([], buf)"
| "feed_all (rs # rss) buf =
     (let (ok, ls, buf', _) = feed (rs @ [Read_again]) buf; (ls', buf'') = feed_all rss buf'
      in (ls @ ls', buf''))"

lemma feed_quiet:
  "quiet rs \<Longrightarrow> feed (rs @ Read_again # rs') buf =
    (True, fst (split_lines (buf @ payload rs)), snd (split_lines (buf @ payload rs)), rs')"
  by (simp add: feed_def read_loop_quiet split: prod.splits)

lemma feed_eof: "quiet rs \<Longrightarrow> feed (rs @ Read_eof # rs') b = (False, [], b @ payload rs, rs')"
proof -
  have "read_loop (rs @ Read_eof # rs') b = (False, b @ payload rs, rs')" if "quiet rs" for rs b
    using that by (induction rs arbitrary: b rule: quiet.induct) auto
  then show "quiet rs \<Longrightarrow> ?thesis" by (simp add: feed_def)
qed

lemma feed_all_split:
  "\<forall>rs \<in> set rss. quiet rs \<Longrightarrow> feed_all rss buf = split_lines (buf @ concat (map payload rss))
    \<or> rss = []"
proof (induction rss arbitrary: buf)
  case Nil
  then show ?case by simp
next
  case (Cons rs rss)
  let ?s = "split_lines (buf @ payload rs)"
  have f: "feed_all (rs # rss) buf = (fst ?s @ fst (feed_all rss (snd ?s)), snd (feed_all rss (snd ?s)))"
  proof -
    have q: "feed (rs @ [Read_again]) buf = (True, fst ?s, snd ?s, [])"
      using Cons.prems by (intro feed_quiet) simp
    show ?thesis by (simp only: feed_all.simps q Let_def split_beta fst_conv snd_conv)
  qed
  have clean: "split_lines (snd ?s) = ([], snd ?s)"
    by (rule split_lines_none) (rule split_lines_rest)
  show ?case
  proof (cases "rss = []")
    case True
    then show ?thesis using f clean by simp
  next
    case False
    with Cons have "feed_all rss (snd ?s) = split_lines (snd ?s @ concat (map payload rss))" by auto
    then show ?thesis using f split_lines_append [of "buf @ payload rs" "concat (map payload rss)"] by simp
  qed
qed

section \<open>Setting up a socket\<close>

text \<open>
  The system calls the set-up functions make, as a trace.  \<open>c_str\<close> is the part of a
  string before its first zero byte; the address holds at most 107 characters.
\<close>

datatype sys =
    Mkdir string
  | Unlink string
  | Socket
  | Bind string
  | Chmod string
  | Listen
  | Connect string
  | Set_nonblocking
  | Close

definition c_str :: "string \<Rightarrow> string" where
  "c_str p = takeWhile (\<lambda>c. c \<noteq> CHR 0x00) p"

definition sun_path :: "string \<Rightarrow> string" where
  "sun_path p = take 107 (c_str p)"

text \<open>The directories \<open>mkdir_p\<close> creates: the prefixes before each slash but a leading one.\<close>

definition mkdir_p :: "string \<Rightarrow> sys list" where
  "mkdir_p path = map (\<lambda>i. Mkdir (c_str (take i path)))
     (filter (\<lambda>i. path ! i = CHR ''/'') [1..<length path])"

text \<open>The path up to and with its last slash, if it has one.\<close>

definition parent_part :: "string \<Rightarrow> string option" where
  "parent_part path = (if CHR ''/'' \<in> set path
     then Some (rev (dropWhile (\<lambda>c. c \<noteq> CHR ''/'') (rev path))) else None)"

text \<open>
  \<open>listen_unix\<close> and \<open>connect_unix\<close> for given results of the calls: the descriptor
  \<open>socket\<close> returns (negative when it fails) and whether \<open>bind\<close>, \<open>listen\<close>,
  \<open>connect\<close> succeed.
\<close>

definition listen_unix :: "int \<Rightarrow> bool \<Rightarrow> bool \<Rightarrow> string \<Rightarrow> int \<times> sys list" where
  "listen_unix fd bind_ok listen_ok path =
     (let pre = (case parent_part path of None \<Rightarrow> [] | Some d \<Rightarrow> mkdir_p d) @
                [Unlink (c_str path), Socket]
      in if fd < 0 then (-1, pre)
         else if \<not> bind_ok then (-1, pre @ [Bind (sun_path path), Close])
         else if \<not> listen_ok then (-1, pre @ [Bind (sun_path path), Chmod (c_str path), Listen, Close])
         else (fd, pre @ [Bind (sun_path path), Chmod (c_str path), Listen]))"

definition connect_unix :: "int \<Rightarrow> bool \<Rightarrow> string \<Rightarrow> int \<times> sys list" where
  "connect_unix fd connect_ok path =
     (if fd < 0 then (-1, [Socket])
      else if \<not> connect_ok then (-1, [Socket, Connect (sun_path path), Close])
      else (fd, [Socket, Connect (sun_path path), Set_nonblocking]))"

section \<open>The properties of the component\<close>

text \<open>
  C31: \<open>write_line\<close> returns true exactly when all of the message and its
  newline went out; when it returns false, what went out is a proper prefix of them: the
  stream then continues in the middle of a line.
\<close>

theorem line_written_or_cut:
  assumes "write_line os msg = (ok, out, os')"
  shows "(ok \<longleftrightarrow> out = msg @ ''\<newline>'') \<and> (\<not> ok \<longrightarrow> (\<exists>q. q \<noteq> [] \<and> out @ q = msg @ ''\<newline>''))"
proof -
  have r: "if ok then out = msg @ ''\<newline>'' else \<exists>q. q \<noteq> [] \<and> msg @ ''\<newline>'' = out @ q"
    by (rule write_line_result [OF assms])
  then show ?thesis by (cases ok) (auto simp del: append_assoc)
qed

text \<open>What a sender puts on the stream, message by message, over a descriptor that takes it all.\<close>

definition stream_of :: "string list \<Rightarrow> string" where
  "stream_of ms = concat (map (\<lambda>m. fst (snd (write_line [] m))) ms)"

lemma stream_of_eq: "stream_of ms = concat (map (\<lambda>m. m @ ''\<newline>'') ms)"
proof -
  have "fst (snd (write_line [] m)) = m @ ''\<newline>''" for m
    by (cases m) (simp_all add: write_line_def)
  then show ?thesis by (simp add: stream_of_def)
qed

text \<open>
  C9: values without floating-point numbers whose objects have their keys in order and once each,
  as \<open>std::map\<close> holds them, dumped and written as lines by a peer, come out of the line buffer
  as the same sequence of values, however the stream is cut into reads, interruptions and
  wake-ups, and nothing is left in the buffer.  (All messages of the protocol are such values; a
  double is printed with \<open>%g\<close>, which loses digits, and 1.0 comes back as an integer.)
\<close>

theorem messages_arrive:
  assumes "\<forall>v \<in> set vs. wf_json v \<and> no_double v"
    and "rss \<noteq> []" "\<forall>rs \<in> set rss. quiet rs"
    and "concat (map payload rss) = stream_of (map dump vs)"
  shows "feed_all rss [] = (map dump vs, []) \<and> map decode (fst (feed_all rss [])) = map Inr vs"
proof -
  have "feed_all rss [] = split_lines (concat (map (\<lambda>m. m @ ''\<newline>'') (map dump vs)) @ [])"
    using feed_all_split [OF assms(3), of "[]"] assms(2,4) by (simp add: stream_of_eq)
  also have "\<dots> = (map dump vs, [])"
    by (rule split_lines_messages) (auto simp: framing)
  finally have f: "feed_all rss [] = (map dump vs, [])" .
  then show ?thesis using assms(1) by (simp add: decode_dump)
qed

text \<open>The descriptors a set-up function has left open: opened by \<open>socket\<close>, not closed.\<close>

definition left_open :: "int \<Rightarrow> sys list \<Rightarrow> bool" where
  "left_open fd tr \<longleftrightarrow> 0 \<le> fd \<and> Socket \<in> set tr \<and> Close \<notin> set tr"

text \<open>
  Whatever the calls return, both set-up functions return the
  descriptor if and only if they leave it open, -1 otherwise; a listening socket is bound to
  the unlinked path, open to all users, before it is returned.
\<close>

lemma socket_setup_no_leak:
  "(let (r, tr) = listen_unix fd bind_ok listen_ok path
    in (r = (if left_open fd tr then fd else -1)) \<and> (left_open fd tr \<longleftrightarrow> 0 \<le> fd \<and> bind_ok \<and> listen_ok) \<and>
       (left_open fd tr \<longrightarrow> (\<exists>pre. tr = pre @ [Unlink (c_str path), Socket, Bind (sun_path path),
          Chmod (c_str path), Listen]))) \<and>
   (let (r, tr) = connect_unix fd connect_ok path
    in (r = (if left_open fd tr then fd else -1)) \<and> (left_open fd tr \<longleftrightarrow> 0 \<le> fd \<and> connect_ok))"
proof -
  have "Close \<notin> set (case parent_part path of None \<Rightarrow> [] | Some d \<Rightarrow> mkdir_p d)"
    by (auto simp: mkdir_p_def split: option.splits)
  then show ?thesis
    by (auto simp: listen_unix_def connect_unix_def left_open_def Let_def)
qed

end
