(* ===== verification/World.thy ===== *)
theory World
  imports Socket
begin

text \<open>
  What the daemon's code reads and changes outside its own memory: files (the configuration
  and sysfs), directory listings, the bytes written to each descriptor and the commands given
  to \<open>system\<close>.  Which files cannot be opened for writing, which values the kernel
  refuses when a sysfs node is flushed and what \<open>write\<close> answers on a socket is the
  environment's choice and stays arbitrary.
\<close>

text \<open>
  One turn of the daemon's wait for acknowledgements: the deadline has passed, \<open>poll\<close>
  returns nothing (or fails), or some descriptors are readable, each with what \<open>recv\<close>
  gives (\<open>None\<close> for end of file or an error).
\<close>

datatype poll_round = Deadline | Poll_none | Ready "(int \<times> string option) list"

record world =
  files :: "string \<Rightarrow> string option"
  dirs :: "string \<Rightarrow> string list option"
  no_write :: "string \<Rightarrow> bool"
  refuses :: "string \<Rightarrow> string \<Rightarrow> bool"
  wscript :: "int \<Rightarrow> wr list"
  wire :: "(int \<times> string) list"
  cmds :: "string list"
  closed :: "int list"
  polls :: "poll_round list"

text \<open>
  Writing a small text through an \<open>std::ofstream\<close>: opening may fail; the text is buffered,
  so the stream's state is still good after \<open><<\<close>, and what the kernel answers when the
  buffer is flushed on destruction goes unnoticed.  A refused value leaves a sysfs node as it
  was, and a regular file truncated by the opening.
\<close>

definition sysfs :: "string \<Rightarrow> bool" where
  "sysfs p \<longleftrightarrow> take 5 p = ''/sys/''"

definition ofstream_write :: "string \<Rightarrow> string \<Rightarrow> world \<Rightarrow> bool \<times> world" where
  "ofstream_write path text w =
     (if no_write w path then (False, w)
      else (True, if refuses w path text
                  then (if sysfs path then w else w\<lparr>files := (files w)(path \<mapsto> [])\<rparr>)
                  else w\<lparr>files := (files w)(path \<mapsto> text)\<rparr>))"

text \<open>\<open>sock::write_line\<close> on a descriptor: the result, and the bytes added to the wire.\<close>

definition send_line :: "int \<Rightarrow> string \<Rightarrow> world \<Rightarrow> bool \<times> world" where
  "send_line fd msg w =
     (let (ok, out, os) = write_line (wscript w fd) msg
      in (ok, w\<lparr>wscript := (wscript w)(fd := os), wire := wire w @ [(fd, out)]\<rparr>))"

definition close_fd :: "int \<Rightarrow> world \<Rightarrow> world" where
  "close_fd fd w = w\<lparr>closed := closed w @ [fd]\<rparr>"

definition close_all :: "int list \<Rightarrow> world \<Rightarrow> world" where
  "close_all fds w = fold close_fd fds w"

text \<open>
  The descriptors of an epoll set, as \<open>epoll_ctl\<close> changes them: adding fails without a set, for a
  number that is no descriptor and for one that is in it.
\<close>

definition epoll_ctl_add :: "int \<Rightarrow> int \<Rightarrow> int list \<Rightarrow> int list" where
  "epoll_ctl_add epfd fd fds = (if epfd < 0 \<or> fd < 0 \<or> fd \<in> set fds then fds else fds @ [fd])"

definition epoll_ctl_del :: "int \<Rightarrow> int list \<Rightarrow> int list" where
  "epoll_ctl_del fd fds = removeAll fd fds"

lemma set_epoll_ctl [simp]:
  "0 \<le> epfd \<Longrightarrow> set (epoll_ctl_add epfd fd fds) = set fds \<union> (if 0 \<le> fd then {fd} else {})"
  "set (epoll_ctl_del fd fds) = set fds - {fd}"
  by (auto simp: epoll_ctl_add_def epoll_ctl_del_def)

lemma distinct_epoll_ctl [simp]:
  "distinct fds \<Longrightarrow> distinct (epoll_ctl_add epfd fd fds)"
  "distinct fds \<Longrightarrow> distinct (epoll_ctl_del fd fds)"
  by (simp_all add: epoll_ctl_add_def epoll_ctl_del_def distinct_removeAll)

definition run_system :: "string \<Rightarrow> world \<Rightarrow> world" where
  "run_system cmd w = w\<lparr>cmds := cmds w @ [cmd]\<rparr>"

text \<open>What each operation leaves alone.\<close>

lemma ofstream_write_frame [frame]:
  "wire (snd (ofstream_write p t w)) = wire w"
  "cmds (snd (ofstream_write p t w)) = cmds w"
  "dirs (snd (ofstream_write p t w)) = dirs w"
  "no_write (snd (ofstream_write p t w)) = no_write w"
  "refuses (snd (ofstream_write p t w)) = refuses w"
  "wscript (snd (ofstream_write p t w)) = wscript w"
  "closed (snd (ofstream_write p t w)) = closed w"
  "polls (snd (ofstream_write p t w)) = polls w"
  by (simp_all add: ofstream_write_def)

lemma send_line_frame [frame]:
  "files (snd (send_line fd m w)) = files w"
  "cmds (snd (send_line fd m w)) = cmds w"
  "dirs (snd (send_line fd m w)) = dirs w"
  "no_write (snd (send_line fd m w)) = no_write w"
  "refuses (snd (send_line fd m w)) = refuses w"
  "closed (snd (send_line fd m w)) = closed w"
  "polls (snd (send_line fd m w)) = polls w"
  by (simp_all add: send_line_def split: prod.splits)

lemma run_system_frame [frame]:
  "files (run_system c w) = files w" "wire (run_system c w) = wire w"
  "dirs (run_system c w) = dirs w" "wscript (run_system c w) = wscript w"
  "cmds (run_system c w) = cmds w @ [c]"
  "no_write (run_system c w) = no_write w" "refuses (run_system c w) = refuses w"
  "closed (run_system c w) = closed w" "polls (run_system c w) = polls w"
  by (simp_all add: run_system_def)

lemma close_fd_frame [frame]:
  "files (close_fd fd w) = files w" "wire (close_fd fd w) = wire w" "cmds (close_fd fd w) = cmds w"
  "dirs (close_fd fd w) = dirs w" "wscript (close_fd fd w) = wscript w"
  "no_write (close_fd fd w) = no_write w" "refuses (close_fd fd w) = refuses w"
  "closed (close_fd fd w) = closed w @ [fd]" "polls (close_fd fd w) = polls w"
  by (simp_all add: close_fd_def)

lemma close_all_eq [simp]: "close_all fds w = w\<lparr>closed := closed w @ fds\<rparr>"
  by (induction fds arbitrary: w) (simp_all add: close_all_def close_fd_def)

text \<open>On a descriptor that takes everything a send puts exactly one line on the wire.\<close>

lemma write_loop_Nil [simp]: "write_loop [] p = (True, p, [])"
  by (cases p) simp_all

lemma send_line_healthy:
  "wscript w fd = [] \<Longrightarrow>
    send_line fd m w = (True, w\<lparr>wire := wire w @ [(fd, m @ ''\<newline>'')]\<rparr>)"
  by (simp add: send_line_def write_line_def fun_upd_idem)

end
