(* ===== verification/Config_Manager.thy ===== *)
theory Config_Manager
  imports Config World
begin

text \<open>
  \<open>src/daemon/config_manager.cpp\<close>: the configuration in use, the active profile, and
  writing the choice back to the file.  The \<open>on_change\<close> callback is the daemon's; the
  operations here end where they would call it (\<open>Inr\<close> for "call it").
\<close>

record config_manager =
  m_path :: string
  m_config :: config
  m_active :: string

definition cm_active_profile :: "config_manager \<Rightarrow> profile option" where
  "cm_active_profile cm = find_profile (m_config cm) (m_active cm)"

text \<open>\<open>reload\<close> up to the callback: an exception leaves the manager as it was.\<close>

definition cm_reload :: "world \<Rightarrow> config_manager \<Rightarrow> config_manager res" where
  "cm_reload w cm =
     (case load_config (files w (m_path cm)) (m_path cm) of
        Inl e \<Rightarrow> Inl e
      | Inr c \<Rightarrow> Inr (cm\<lparr>m_config := c, m_active := active_profile c\<rparr>))"

definition cm_new :: "world \<Rightarrow> string \<Rightarrow> config_manager res" where
  "cm_new w path =
     cm_reload w \<lparr>m_path = path, m_config = \<lparr>active_profile = [], profiles = []\<rparr>, m_active = []\<rparr>"

text \<open>
  \<open>persist_active\<close>: read the file again, set the one field, write it back indented.  Every
  failure is logged and ignored.
\<close>

definition persist_active :: "config_manager \<Rightarrow> world \<Rightarrow> world" where
  "persist_active cm w =
     (case files w (m_path cm) of
        None \<Rightarrow> w
      | Some text \<Rightarrow>
          (case parse text of
             Inl e \<Rightarrow> w
           | Inr root \<Rightarrow>
               snd (ofstream_write (m_path cm)
                     (dump_pretty (assign root ''active_profile'' (JString (m_active cm)))) w)))"

text \<open>\<open>set_active\<close> up to the callback: whether it goes on to call it.\<close>

definition cm_set_active :: "string \<Rightarrow> config_manager \<Rightarrow> world \<Rightarrow> bool \<times> config_manager \<times> world" where
  "cm_set_active name cm w =
     (case find_profile (m_config cm) name of
        None \<Rightarrow> (False, cm, w)
      | Some _ \<Rightarrow> let cm' = cm\<lparr>m_active := name\<rparr> in (True, cm', persist_active cm' w))"

definition cm_ok :: "config_manager \<Rightarrow> bool" where
  "cm_ok cm \<longleftrightarrow> config_ok (m_config cm) \<and> m_active cm \<noteq> []"

lemma cm_reload_ok: "cm_reload w cm = Inr cm' \<Longrightarrow> cm_ok cm'"
  by (auto simp: cm_reload_def cm_ok_def dest: load_config_ok split: sum.splits)
    (auto simp: config_ok_def dest: load_config_ok)

lemma cm_set_active_ok:
  assumes "cm_ok cm"
  shows "cm_ok (fst (snd (cm_set_active n cm w)))"
  using assms find_profile_Some [of "m_config cm" n]
  by (auto simp: cm_set_active_def cm_ok_def config_ok_def Let_def split: option.splits)

lemma persist_active_frame [frame]:
  "wire (persist_active cm w) = wire w" "cmds (persist_active cm w) = cmds w"
  "dirs (persist_active cm w) = dirs w" "no_write (persist_active cm w) = no_write w"
  "refuses (persist_active cm w) = refuses w" "wscript (persist_active cm w) = wscript w"
  "closed (persist_active cm w) = closed w" "polls (persist_active cm w) = polls w"
  by (simp_all add: persist_active_def frame split: option.splits sum.splits)

lemma persist_active_other: "p \<noteq> m_path cm \<Longrightarrow> files (persist_active cm w) p = files w p"
  by (simp add: persist_active_def ofstream_write_def split: option.splits sum.splits)

text \<open>
  Persisting and reloading: a file that holds the configuration in use, without fractional
  numbers, afterwards holds the same profiles with the new choice.
\<close>

lemma persist_then_load:
  assumes content: "files w (m_path cm) = Some text"
    and parsed: "parse text = Inr root" "no_double root"
    and loads: "load_config (Some text) path = Inr c"
    and writable: "\<not> no_write w (m_path cm)" "\<And>t. \<not> refuses w (m_path cm) t"
    and active: "m_active cm \<noteq> []"
  shows "load_config (files (persist_active cm w) (m_path cm)) path =
    Inr (c\<lparr>active_profile := m_active cm\<rparr>)"
proof -
  let ?root = "assign root ''active_profile'' (JString (m_active cm))"
  have wf: "wf_json root" using parsed(1) by (rule parse_wf)
  have p: "files (persist_active cm w) (m_path cm) = Some (dump_pretty ?root)"
    using content parsed writable by (simp add: persist_active_def ofstream_write_def)
  have reread: "parse (dump_pretty ?root) = Inr ?root"
    using wf parsed(2) by (intro parse_dump_pretty) (simp_all add: field_access)
  show ?thesis
    using loads parsed(1) wf active unfolding p
    by (auto simp: load_config_def reread field_access Let_def split: sum.splits list.splits)
qed

text \<open>
  C19: choosing a profile that exists makes it active at once, and when
  the file holds a loadable configuration without fractional numbers and can be written, a
  later start or reload finds the same profiles with the new choice; an unknown name changes
  nothing.
\<close>

theorem chosen_profile_survives:
  assumes "cm_set_active n cm w = (ok, cm', w')" "cm_ok cm"
    and "files w (m_path cm) = Some text" "parse text = Inr root" "no_double root"
    and "load_config (Some text) (m_path cm) = Inr c"
    and "\<not> no_write w (m_path cm)" "\<forall>t. \<not> refuses w (m_path cm) t"
  shows "if find_profile (m_config cm) n = None then \<not> ok \<and> cm' = cm \<and> w' = w
    else ok \<and> m_active cm' = n \<and> cm_active_profile cm' = find_profile (m_config cm) n \<and>
      (\<exists>cm2. cm_new w' (m_path cm) = Inr cm2 \<and> m_active cm2 = n \<and>
        profiles (m_config cm2) = profiles c)"
proof (cases "find_profile (m_config cm) n")
  case None
  then show ?thesis using assms(1) by (simp add: cm_set_active_def)
next
  case (Some p)
  have n: "n \<noteq> []"
    using find_profile_Some [OF Some] assms(2) by (auto simp: cm_ok_def config_ok_def)
  have eqs: "ok" "cm' = cm\<lparr>m_active := n\<rparr>" "w' = persist_active cm' w"
    using assms(1) Some by (auto simp: cm_set_active_def Let_def)
  have "load_config (files w' (m_path cm)) (m_path cm) = Inr (c\<lparr>active_profile := n\<rparr>)"
    using persist_then_load [of w cm' "text" root "m_path cm" c] assms(3-8) n by (simp add: eqs)
  then show ?thesis
    using Some eqs by (simp add: cm_new_def cm_reload_def cm_active_profile_def)
qed

end
