(* ===== verification/Battery.thy ===== *)
theory Battery
  imports World
begin

text \<open>
  \<open>src/shared/battery.hpp\<close>: the battery state read from sysfs.
\<close>

datatype status = Unknown | Discharging | Charging | Full | NotCharging | Absent

record battery_info =
  present :: bool
  bat_name :: string
  percent :: i32
  bat_status :: status
  time_to_empty_min :: "i32 option"
  time_to_full_min :: "i32 option"

definition new_info :: battery_info where
  "new_info = \<lparr>present = False, bat_name = [], percent = -1, bat_status = Unknown,
     time_to_empty_min = None, time_to_full_min = None\<rparr>"

definition parse_status :: "string \<Rightarrow> status" where
  "parse_status s =
     (if s = ''Discharging'' then Discharging else if s = ''Charging'' then Charging
      else if s = ''Full'' then Full else if s = ''Not charging'' then NotCharging
      else Unknown)"

fun status_string :: "status \<Rightarrow> string" where
  "status_string Discharging = ''discharging''"
| "status_string Charging = ''charging''"
| "status_string Full = ''full''"
| "status_string NotCharging = ''not_charging''"
| "status_string Absent = ''absent''"
| "status_string Unknown = ''unknown''"

text \<open>\<open>None\<close> where the code returns false.\<close>

definition read_int :: "(string \<Rightarrow> string option) \<Rightarrow> string \<Rightarrow> i64 option" where
  "read_int fs path = (case fs path of None \<Rightarrow> None | Some t \<Rightarrow> extract_i64 t)"

definition first_line :: "string \<Rightarrow> string" where
  "first_line t = takeWhile (\<lambda>c. c \<noteq> CHR ''\<newline>'') t"

definition read_str :: "(string \<Rightarrow> string option) \<Rightarrow> string \<Rightarrow> string option" where
  "read_str fs path = (case fs path of
       None \<Rightarrow> None
     | Some t \<Rightarrow> if first_line t = [] then None else Some (first_line t))"

text \<open>Remaining, total and rate, from one family of nodes, with a positive rate.\<close>

definition read_family :: "(string \<Rightarrow> string option) \<Rightarrow> string \<Rightarrow> string \<Rightarrow> string \<Rightarrow>
    (i64 \<times> i64 \<times> i64) option" where
  "read_family fs now_node full_node rate_node =
     (case read_int fs now_node of
        None \<Rightarrow> None
      | Some remaining \<Rightarrow>
          (case read_int fs full_node of
             None \<Rightarrow> None
           | Some full \<Rightarrow>
               (case read_int fs rate_node of
                  None \<Rightarrow> None
                | Some rate \<Rightarrow> if 0 < sint rate then Some (remaining, full, rate) else None)))"

definition read_rates :: "(string \<Rightarrow> string option) \<Rightarrow> string \<Rightarrow> (i64 \<times> i64 \<times> i64) option" where
  "read_rates fs base =
     (case read_family fs (base @ ''/energy_now'') (base @ ''/energy_full'') (base @ ''/power_now'') of
        Some r \<Rightarrow> Some r
      | None \<Rightarrow> read_family fs (base @ ''/charge_now'') (base @ ''/charge_full'')
                  (base @ ''/current_now''))"

text \<open>The body of the loop of \<open>read\<close> for a battery that is there.\<close>

definition read_battery :: "(string \<Rightarrow> string option) \<Rightarrow> nat \<Rightarrow> battery_info" where
  "read_battery fs i =
     (let base = ''/sys/class/power_supply/BAT'' @ show_nat i;
          pct = (case read_int fs (base @ ''/capacity'') of Some v \<Rightarrow> to_int v | None \<Rightarrow> -1);
          st = (case read_str fs (base @ ''/status'') of Some s \<Rightarrow> parse_status s | None \<Rightarrow> Absent);
          info = new_info\<lparr>present := True, bat_name := ''BAT'' @ show_nat i, percent := pct,
                          bat_status := st\<rparr>
      in (case read_rates fs base of
            None \<Rightarrow> info
          | Some (remaining, full, rate) \<Rightarrow>
              if st = Discharging \<and> 0 < sint remaining then
                info\<lparr>time_to_empty_min := Some (to_int (sdiv64 (remaining * 60) rate))\<rparr>
              else if st = Charging \<and> sint remaining < sint full then
                info\<lparr>time_to_full_min := Some (to_int (sdiv64 ((full - remaining) * 60) rate))\<rparr>
              else info))"

text \<open>The loop over BAT0 to BAT9: the first one whose \<open>present\<close> node opens.\<close>

fun read_from :: "(string \<Rightarrow> string option) \<Rightarrow> nat list \<Rightarrow> battery_info" where
  "read_from fs [] = new_info\<lparr>bat_status := Absent\<rparr>"
| "read_from fs (i # ks) =
     (if fs (''/sys/class/power_supply/BAT'' @ show_nat i @ ''/present'') = None
      then read_from fs ks else read_battery fs i)"

definition battery_read :: "(string \<Rightarrow> string option) \<Rightarrow> battery_info" where
  "battery_read fs = read_from fs [0, 1, 2, 3, 4, 5, 6, 7, 8, 9]"

section \<open>What a reading satisfies\<close>

definition info_ok :: "battery_info \<Rightarrow> bool" where
  "info_ok b \<longleftrightarrow>
     (time_to_empty_min b \<noteq> None \<longrightarrow> bat_status b = Discharging \<and> time_to_full_min b = None) \<and>
     (time_to_full_min b \<noteq> None \<longrightarrow> bat_status b = Charging) \<and>
     (\<not> present b \<longrightarrow> bat_status b = Absent \<and> percent b = -1 \<and>
        time_to_empty_min b = None \<and> time_to_full_min b = None)"

lemma read_battery_ok: "info_ok (read_battery fs i)"
  by (simp add: read_battery_def info_ok_def new_info_def Let_def split: option.splits)

lemma battery_read_ok: "info_ok (battery_read fs)"
proof -
  have none: "info_ok (new_info\<lparr>bat_status := Absent\<rparr>)" by (simp add: info_ok_def new_info_def)
  have "info_ok (read_from fs ks)" for ks
    by (induction ks) (simp_all add: read_battery_ok none)
  then show ?thesis unfolding battery_read_def by blast
qed

lemma parse_status_string: "parse_status s = Full \<Longrightarrow> status_string (parse_status s) = ''full''"
  by simp

lemma status_string_inj: "status_string a = status_string b \<longleftrightarrow> a = b"
  by (cases a; cases b) simp_all

text \<open>The time estimate is the quotient in minutes, when it fits the integers used.\<close>

lemma minutes_exact:
  assumes "0 \<le> sint n" "fits64 (sint n * 60)" "0 < sint r" "fits32 (sint n * 60 div sint r)"
  shows "sint (to_int (sdiv64 (n * 60) r)) = sint n * 60 div sint r"
proof -
  have m: "sint (n * 60) = sint n * 60"
    using sint_mult64 [of n 60] assms(2) by simp
  have d: "sint (sdiv64 (n * 60) r) = sint n * 60 div sint r"
    using sint_sdiv64 [of "n * 60" r] assms m by simp
  show ?thesis using assms(4) d by (simp add: sint_to_int)
qed

text \<open>
  C32: whatever sysfs holds, a reading has a time to empty only while
  discharging and a time to full only while charging, never both, and an absent battery has
  neither and no charge level; the battery read is the first one present.
\<close>

theorem battery_reading_consistent:
  "info_ok (battery_read fs) \<and>
   (present (battery_read fs) \<longleftrightarrow>
     (\<exists>i < 10. fs (''/sys/class/power_supply/BAT'' @ show_nat i @ ''/present'') \<noteq> None)) \<and>
   (\<forall>i < 10. (\<forall>j < i. fs (''/sys/class/power_supply/BAT'' @ show_nat j @ ''/present'') = None) \<longrightarrow>
     fs (''/sys/class/power_supply/BAT'' @ show_nat i @ ''/present'') \<noteq> None \<longrightarrow>
     bat_name (battery_read fs) = ''BAT'' @ show_nat i)"
proof -
  define there where "there i \<longleftrightarrow> fs (''/sys/class/power_supply/BAT'' @ show_nat i @ ''/present'') \<noteq> None" for i
  have pres: "present (read_battery fs i)" and name: "bat_name (read_battery fs i) = ''BAT'' @ show_nat i" for i
    by (simp_all add: read_battery_def new_info_def Let_def split: option.splits)
  have p: "present (read_from fs ks) \<longleftrightarrow> (\<exists>i \<in> set ks. there i)" for ks
    by (induction ks) (auto simp: there_def pres new_info_def)
  have f: "bat_name (read_from fs ks) = ''BAT'' @ show_nat i"
    if "ks = xs @ i # ys" "\<forall>j \<in> set xs. \<not> there j" "there i" for ks xs i ys
    using that by (induction xs arbitrary: ks) (auto simp: there_def name)
  have up: "[0, 1, 2, 3, 4, 5, 6, 7, 8, 9] = [0..<10]" by (simp add: upt_rec)
  have "bat_name (battery_read fs) = ''BAT'' @ show_nat i"
    if "i < 10" "\<forall>j < i. \<not> there j" "there i" for i
  proof -
    have "[0..<10] = [0..<i] @ i # [Suc i..<10]"
      using that(1) by (metis less_imp_le_nat upt_add_eq_append upt_conv_Cons le_add_diff_inverse zero_le)
    from f [OF this] that show ?thesis unfolding battery_read_def up by simp
  qed
  moreover have "present (battery_read fs) \<longleftrightarrow> (\<exists>i < 10. there i)"
    unfolding battery_read_def up p by auto
  ultimately show ?thesis using battery_read_ok by (simp add: there_def)
qed

text \<open>A node as the kernel prints it: a decimal number and a newline.\<close>

definition node_is :: "(string \<Rightarrow> string option) \<Rightarrow> string \<Rightarrow> int \<Rightarrow> bool" where
  "node_is fs path n \<longleftrightarrow> fits64 n \<and> fs path = Some (show_int n @ ''\<newline>'')"

lemma read_node: "node_is fs path n \<Longrightarrow> \<exists>v. read_int fs path = Some v \<and> sint v = n"
  using strto_int_show_int [of "''\<newline>''" n]
  by (simp add: node_is_def read_int_def extract_i64_def no_digit_head_def is_digit_def)

lemma read_family_nodes:
  assumes "node_is fs now n" "node_is fs full f" "node_is fs rate r"
  shows "if 0 < r then \<exists>n' f' r'. read_family fs now full rate = Some (n', f', r') \<and> sint n' = n \<and> sint f' = f \<and> sint r' = r
    else read_family fs now full rate = None"
  using read_node [OF assms(1)] read_node [OF assms(2)] read_node [OF assms(3)] by (auto simp: read_family_def)

lemma read_status:
  assumes "fs path = Some (t @ ''\<newline>'')" "t \<noteq> []" "CHR ''\<newline>'' \<notin> set t"
  shows "read_str fs path = Some t"
proof -
  have "first_line (t @ ''\<newline>'') = t"
    unfolding first_line_def using assms(3) by (intro takeWhile_append_stop) auto
  then show ?thesis using assms(1,2) by (simp add: read_str_def)
qed

text \<open>
  The nodes the estimates come from: the energy-based ones when the power is positive, else the
  charge-based ones with a positive current.
\<close>

definition battery_nodes :: "(string \<Rightarrow> string option) \<Rightarrow> string \<Rightarrow> int \<Rightarrow> int \<Rightarrow> int \<Rightarrow> bool" where
  "battery_nodes fs base n f r \<longleftrightarrow> 0 < r \<and>
     (node_is fs (base @ ''/energy_now'') n \<and> node_is fs (base @ ''/energy_full'') f \<and>
        node_is fs (base @ ''/power_now'') r \<or>
      (fs (base @ ''/energy_now'') = None \<or> fs (base @ ''/energy_full'') = None \<or> fs (base @ ''/power_now'') = None \<or>
        (\<exists>p. node_is fs (base @ ''/power_now'') p \<and> p \<le> 0)) \<and>
      node_is fs (base @ ''/charge_now'') n \<and> node_is fs (base @ ''/charge_full'') f \<and>
        node_is fs (base @ ''/current_now'') r)"

lemma read_rates_nodes:
  assumes "battery_nodes fs base n f r"
  shows "\<exists>n' f' r'. read_rates fs base = Some (n', f', r') \<and> sint n' = n \<and> sint f' = f \<and> sint r' = r"
proof -
  let ?e = "read_family fs (base @ ''/energy_now'') (base @ ''/energy_full'') (base @ ''/power_now'')"
  let ?c = "read_family fs (base @ ''/charge_now'') (base @ ''/charge_full'') (base @ ''/current_now'')"
  have none: "?e = None" if "fs (base @ ''/energy_now'') = None \<or> fs (base @ ''/energy_full'') = None \<or>
      fs (base @ ''/power_now'') = None \<or> (\<exists>p. node_is fs (base @ ''/power_now'') p \<and> p \<le> 0)"
    using that read_node [of fs "base @ ''/power_now''"]
    by (fastforce simp: read_family_def read_int_def split: option.splits)
  have r: "0 < r" using assms by (simp add: battery_nodes_def)
  have "(\<exists>n' f' r'. ?e = Some (n', f', r') \<and> sint n' = n \<and> sint f' = f \<and> sint r' = r) \<or>
      ?e = None \<and> (\<exists>n' f' r'. ?c = Some (n', f', r') \<and> sint n' = n \<and> sint f' = f \<and> sint r' = r)"
    using assms none r read_family_nodes [of fs "base @ ''/energy_now''" n "base @ ''/energy_full''" f "base @ ''/power_now''" r]
      read_family_nodes [of fs "base @ ''/charge_now''" n "base @ ''/charge_full''" f "base @ ''/current_now''" r]
    unfolding battery_nodes_def by argo
  then show ?thesis by (auto simp: read_rates_def)
qed

text \<open>
  C33: the minutes of a battery, from its nodes.  While it discharges and holds something, the
  time to empty is what remains times sixty divided by the rate, rounded down; while it charges
  and is not full, the time to full is what is missing times sixty divided by the rate; in each
  case the other time is not given.  Remaining, full and rate are the energy-based nodes when the
  power is positive, else the charge-based ones; the product is taken to fit 64 bits and the
  quotient 32.
\<close>

theorem time_estimates:
  assumes "base = ''/sys/class/power_supply/BAT'' @ show_nat i" "battery_nodes fs base n f r"
    and "fs (base @ ''/status'') = Some (st @ ''\<newline>'')"
    and "todo = (if st = ''Discharging'' then n else f - n)" "0 < todo"
    and "fits64 (todo * 60)" "fits32 (todo * 60 div r)"
  shows "(st = ''Discharging'' \<longrightarrow> time_to_full_min (read_battery fs i) = None \<and>
      (\<exists>t. time_to_empty_min (read_battery fs i) = Some t \<and> sint t = n * 60 div r)) \<and>
    (st = ''Charging'' \<longrightarrow> time_to_empty_min (read_battery fs i) = None \<and>
      (\<exists>t. time_to_full_min (read_battery fs i) = Some t \<and> sint t = (f - n) * 60 div r))"
proof -
  obtain n' f' r' where rates: "read_rates fs base = Some (n', f', r')" "sint n' = n" "sint f' = f" "sint r' = r"
    using read_rates_nodes [OF assms(2)] by blast
  have r: "0 < r" using assms(2) by (simp add: battery_nodes_def)
  have status: "read_str fs (base @ ''/status'') = Some st" if "st \<in> {''Discharging'', ''Charging''}"
    using that assms(3) by (intro read_status) auto
  note b = read_battery_def [of fs i, folded assms(1), unfolded Let_def rates(1)]
  have "time_to_full_min (read_battery fs i) = None \<and>
      time_to_empty_min (read_battery fs i) = Some (to_int (sdiv64 (n' * 60) r'))" if "st = ''Discharging''"
    unfolding b using status that assms(4,5) rates(2) by (simp add: parse_status_def new_info_def)
  moreover have "sint (to_int (sdiv64 (n' * 60) r')) = n * 60 div r" if "st = ''Discharging''"
    using minutes_exact [of n' r'] that assms(4-7) rates r by simp
  moreover have "time_to_empty_min (read_battery fs i) = None \<and>
      time_to_full_min (read_battery fs i) = Some (to_int (sdiv64 ((f' - n') * 60) r'))" if "st = ''Charging''"
    unfolding b using status that assms(4,5) rates(2,3) by (simp add: parse_status_def new_info_def)
  moreover have "sint (to_int (sdiv64 ((f' - n') * 60) r')) = (f - n) * 60 div r" if "st = ''Charging''"
  proof -
    have "sint (f' - n') = f - n" using sint_sub64 [of f' n'] rates(2,3) that assms(4-6) by (simp add: fits64_def)
    then show ?thesis using minutes_exact [of "f' - n'" r'] that assms(4-7) rates(4) r by simp
  qed
  ultimately show ?thesis by blast
qed

end
