(* ===== verification/Power_Manager.thy ===== *)
theory Power_Manager
  imports Config World
begin

text \<open>
  \<open>src/daemon/power_manager.cpp\<close>: governor, energy preference and backlight through
  sysfs, and the brightness remembered across dimming.  An operation that may throw returns
  the exception next to the state at the throw.
\<close>

record power =
  m_user_brightness :: i32

definition new_power :: power where
  "new_power = \<lparr>m_user_brightness = -1\<rparr>"

definition rstrip :: "string \<Rightarrow> string" where
  "rstrip s = rev (dropWhile (\<lambda>c. c = CHR ''\<newline>'' \<or> c = CHR '' '') (rev s))"

definition read_file :: "string \<Rightarrow> world \<Rightarrow> string" where
  "read_file path w = (case files w path of None \<Rightarrow> [] | Some t \<Rightarrow> rstrip t)"

definition cpu_policy_paths :: "world \<Rightarrow> string list" where
  "cpu_policy_paths w =
     (case dirs w ''/sys/devices/system/cpu/cpufreq'' of
        None \<Rightarrow> []
      | Some es \<Rightarrow> map (\<lambda>e. ''/sys/devices/system/cpu/cpufreq/'' @ e)
                     (filter (\<lambda>e. take 6 e = ''policy'') es))"

definition find_backlight_path :: "world \<Rightarrow> string" where
  "find_backlight_path w =
     (case dirs w ''/sys/class/backlight'' of
        None \<Rightarrow> []
      | Some es \<Rightarrow> (case List.find (\<lambda>e. take 1 e \<noteq> ''.'') es of
                       None \<Rightarrow> []
                     | Some e \<Rightarrow> ''/sys/class/backlight/'' @ e))"

definition set_brightness_percent :: "i32 \<Rightarrow> world \<Rightarrow> bool res \<times> world" where
  "set_brightness_percent pct w =
     (let base = find_backlight_path w; max_s = read_file (base @ ''/max_brightness'') w
      in if base = [] then (Inr False, w)
         else if max_s = [] then (Inr False, w)
         else (case stoi max_s of
                 Inl e \<Rightarrow> (Inl e, w)
               | Inr max_val \<Rightarrow>
                   let (ok, w') = ofstream_write (base @ ''/brightness'')
                                    (show_int (sint (sdiv32 (max_val * pct) 100))) w
                   in (Inr ok, w')))"

definition get_brightness_percent :: "world \<Rightarrow> i32 res" where
  "get_brightness_percent w =
     (let base = find_backlight_path w;
          cur_s = read_file (base @ ''/brightness'') w;
          max_s = read_file (base @ ''/max_brightness'') w
      in if base = [] then Inr (-1)
         else if cur_s = [] \<or> max_s = [] then Inr (-1)
         else (case stoi max_s of
                 Inl e \<Rightarrow> Inl e
               | Inr max_val \<Rightarrow>
                   if sint max_val \<le> 0 then Inr (-1)
                   else (case stoi cur_s of
                           Inl e \<Rightarrow> Inl e
                         | Inr cur \<Rightarrow> Inr (sdiv32 (cur * 100) max_val))))"

text \<open>The loop of the two CPU setters: nodes that already hold the value are skipped.\<close>

fun write_nodes :: "string list \<Rightarrow> string \<Rightarrow> string \<Rightarrow> world \<Rightarrow> bool \<times> world" where
  "write_nodes [] node val w = (True, w)"
| "write_nodes (p # ps) node val w =
     (if read_file (p @ node) w = val then write_nodes ps node val w
      else let (ok, w1) = ofstream_write (p @ node) val w; (ok', w2) = write_nodes ps node val w1
           in (ok \<and> ok', w2))"

definition set_cpu_governor :: "string \<Rightarrow> world \<Rightarrow> bool \<times> world" where
  "set_cpu_governor gov w = (if gov = [] then (True, w)
     else write_nodes (cpu_policy_paths w) ''/scaling_governor'' gov w)"

definition set_cpu_epp :: "string \<Rightarrow> world \<Rightarrow> bool \<times> world" where
  "set_cpu_epp epp w = (if epp = [] then (True, w)
     else write_nodes (cpu_policy_paths w) ''/energy_performance_preference'' epp w)"

definition run_command :: "string \<Rightarrow> world \<Rightarrow> world" where
  "run_command cmd w = (if cmd = [] then w else run_system cmd w)"

text \<open>The exception a call let through, if any, next to the state.\<close>

definition thrown :: "'a res \<Rightarrow> exn option" where
  "thrown r = (case r of Inl e \<Rightarrow> Some e | Inr _ \<Rightarrow> None)"

definition apply_profile :: "profile \<Rightarrow> world \<Rightarrow> exn option \<times> world" where
  "apply_profile p w =
     (let (_, w1) = set_cpu_governor (cpu_governor p) w;
          (_, w2) = set_cpu_epp (cpu_epp p) w1;
          (r, w3) = set_brightness_percent (brightness_percent p) w2
      in (thrown r, w3))"

definition dim :: "profile \<Rightarrow> power \<Rightarrow> world \<Rightarrow> exn option \<times> power \<times> world" where
  "dim p pm w =
     (case get_brightness_percent w of
        Inl e \<Rightarrow> (Some e, pm, w)
      | Inr b \<Rightarrow>
          let pm' = pm\<lparr>m_user_brightness := (if sint b < 0 then brightness_percent p else b)\<rparr>;
              (r, w') = set_brightness_percent (dim_brightness_percent p) w
          in (thrown r, pm', w'))"

definition undim :: "profile \<Rightarrow> power \<Rightarrow> world \<Rightarrow> exn option \<times> power \<times> world" where
  "undim p pm w =
     (let restore = (if 0 \<le> sint (m_user_brightness pm) then m_user_brightness pm
                     else brightness_percent p);
          (r, w') = set_brightness_percent restore w
      in (case r of Inl e \<Rightarrow> (Some e, pm, w')
          | Inr _ \<Rightarrow> (None, pm\<lparr>m_user_brightness := -1\<rparr>, w')))"

section \<open>Frames\<close>

text \<open>There is no backlight, or nothing to read as its maximum, or a number.\<close>

definition max_ok :: "world \<Rightarrow> bool" where
  "max_ok w \<longleftrightarrow> (let base = find_backlight_path w; t = read_file (base @ ''/max_brightness'') w
     in base = [] \<or> t = [] \<or> (\<exists>v. stoi t = Inr v))"

text \<open>The same of its current brightness.\<close>

definition current_ok :: "world \<Rightarrow> bool" where
  "current_ok w \<longleftrightarrow> (let base = find_backlight_path w; t = read_file (base @ ''/brightness'') w
     in base = [] \<or> t = [] \<or> (\<exists>v. stoi t = Inr v))"

lemma show_int_nonempty [simp]: "show_int i \<noteq> []"
  by (simp add: show_int_def)

lemma rstrip_show_int [simp]: "rstrip (show_int i) = show_int i"
proof -
  obtain cs c where s: "show_int i = cs @ [c]" by (metis rev_exhaust show_int_nonempty)
  have "c \<in> set (show_int i)" by (simp add: s)
  then have "c \<noteq> CHR ''\<newline>''" "c \<noteq> CHR '' ''" using set_show_int by fastforce+
  then show ?thesis by (simp add: rstrip_def s)
qed

lemma stoi_show: "fits32 i \<Longrightarrow> stoi (show_int i) = Inr (word_of_int i)"
  using stoi_show_int [of "word_of_int i"] by simp


text \<open>
  Brightness, governor and preference change nothing but nodes below \<open>/sys\<close>, among them no
  backlight's maximum, and none of the environment's choices; a brightness that could be read
  can still be.
\<close>

definition fixed_node :: "string \<Rightarrow> bool" where
  "fixed_node p \<longleftrightarrow> \<not> sysfs p \<or> (\<exists>b. p = b @ ''/max_brightness'')"

definition same_env :: "world \<Rightarrow> world \<Rightarrow> bool" where
  "same_env w w' \<longleftrightarrow> dirs w' = dirs w \<and> no_write w' = no_write w \<and> refuses w' = refuses w \<and>
     wscript w' = wscript w \<and> wire w' = wire w \<and> cmds w' = cmds w \<and> closed w' = closed w \<and>
     polls w' = polls w \<and> (current_ok w \<longrightarrow> current_ok w') \<and> (\<forall>p. fixed_node p \<longrightarrow> files w' p = files w p)"

lemma same_env_files: "same_env w w' \<Longrightarrow> \<not> sysfs p \<Longrightarrow> files w' p = files w p"
  by (simp add: same_env_def fixed_node_def)

lemma same_env_max: "same_env w w' \<Longrightarrow> files w' (b @ ''/max_brightness'') = files w (b @ ''/max_brightness'')"
  by (auto simp: same_env_def fixed_node_def)

text \<open>The nodes that are written.\<close>

definition settable :: "string \<Rightarrow> bool" where
  "settable node \<longleftrightarrow> (\<forall>p b. p @ node \<noteq> b @ ''/max_brightness'')"

lemma ends_differ: "n \<le> length a \<Longrightarrow> n \<le> length b \<Longrightarrow>
    drop (length a - n) a \<noteq> drop (length b - n) b \<Longrightarrow> p @ a \<noteq> q @ b"
proof
  assume n: "n \<le> length a" "n \<le> length b" and e: "p @ a = q @ b"
  have "drop (length p + (length a - n)) (p @ a) = drop (length a - n) a" by simp
  moreover have "drop (length q + (length b - n)) (q @ b) = drop (length b - n) b" by simp
  moreover have "length p + (length a - n) = length q + (length b - n)"
    using arg_cong [OF e, of length] n by simp
  moreover assume "drop (length a - n) a \<noteq> drop (length b - n) b"
  ultimately show False using e by metis
qed

lemma settable_nodes [simp]:
  "settable ''/brightness''" "settable ''/scaling_governor''" "settable ''/energy_performance_preference''"
  unfolding settable_def by (intro allI ends_differ [of 11]; simp)+

lemma sysfs_append [simp]: "sysfs p \<Longrightarrow> sysfs (p @ q)"
proof -
  assume s: "sysfs p"
  then have "length (take 5 p) = 5" unfolding sysfs_def by simp
  then have "5 \<le> length p" by simp
  then show ?thesis using s by (simp add: sysfs_def)
qed

lemma settable_not_fixed: "sysfs p \<Longrightarrow> settable node \<Longrightarrow> \<not> fixed_node (p @ node)"
  by (auto simp: fixed_node_def settable_def)

lemma same_env_refl [simp]: "same_env w w"
  by (simp add: same_env_def)

lemma same_env_trans: "same_env a b \<Longrightarrow> same_env b c \<Longrightarrow> same_env a c"
  by (simp add: same_env_def)

lemma same_env_write:
  assumes "\<not> fixed_node p" "current_ok w \<Longrightarrow> current_ok (snd (ofstream_write p t w))"
  shows "same_env w (snd (ofstream_write p t w))"
  using assms by (auto simp: same_env_def frame) (auto simp: ofstream_write_def)

text \<open>Writing another node, or a number, leaves the current brightness readable.\<close>

lemma sysfs_backlight: "find_backlight_path w \<noteq> [] \<Longrightarrow> sysfs (find_backlight_path w)"
  by (auto simp: find_backlight_path_def sysfs_def split: option.splits)

lemma current_ok_keep:
  assumes "dirs w' = dirs w" "\<And>b. sysfs b \<Longrightarrow> files w' (b @ ''/brightness'') = files w (b @ ''/brightness'')"
  shows "current_ok w' = current_ok w"
proof -
  have "find_backlight_path w' = find_backlight_path w" using assms(1) by (simp add: find_backlight_path_def)
  then show ?thesis
    using assms(2) [OF sysfs_backlight, of w] by (auto simp: current_ok_def read_file_def Let_def)
qed

lemma current_ok_other:
  assumes "find_backlight_path w \<noteq> [] \<Longrightarrow> find_backlight_path w @ ''/brightness'' \<noteq> p"
  shows "current_ok (snd (ofstream_write p t w)) = current_ok w"
proof -
  have "find_backlight_path (snd (ofstream_write p t w)) = find_backlight_path w"
    by (simp add: find_backlight_path_def frame)
  then show ?thesis using assms by (auto simp: current_ok_def read_file_def ofstream_write_def Let_def)
qed

lemma current_ok_number:
  assumes "current_ok w" "find_backlight_path w \<noteq> []"
  shows "current_ok (snd (ofstream_write (find_backlight_path w @ ''/brightness'') (show_int (sint (v :: i32))) w))"
proof -
  have "find_backlight_path (snd (ofstream_write p t w)) = find_backlight_path w" for p t
    by (simp add: find_backlight_path_def frame)
  moreover have "stoi (show_int (sint v)) = Inr v" for v :: i32 by (rule stoi_show_int)
  ultimately show ?thesis
    using assms sysfs_append [OF sysfs_backlight [OF assms(2)], of "''/brightness''"]
    by (auto simp: current_ok_def read_file_def ofstream_write_def Let_def)
qed


lemma sysfs_cpu: "p \<in> set (cpu_policy_paths w) \<Longrightarrow> sysfs p"
  by (auto simp: cpu_policy_paths_def sysfs_def split: option.splits)

lemma same_env_set_brightness [simp]: "same_env w (snd (set_brightness_percent pct w))"
  using same_env_write [OF settable_not_fixed [OF sysfs_backlight, of w "''/brightness''"] current_ok_number]
  by (auto simp: set_brightness_percent_def Let_def split_beta split: sum.splits)

lemma cpu_not_backlight:
  assumes "p \<in> set (cpu_policy_paths w)" "find_backlight_path w' \<noteq> []"
  shows "find_backlight_path w' @ q \<noteq> p @ node"
proof
  assume e: "find_backlight_path w' @ q = p @ node"
  have "take 6 (find_backlight_path w' @ q) = ''/sys/c''"
    using assms(2) by (auto simp: find_backlight_path_def split: option.splits)
  moreover have "take 6 (p @ node) = ''/sys/d''"
    using assms(1) by (auto simp: cpu_policy_paths_def split: option.splits)
  ultimately show False using e by simp
qed

lemma same_env_write_nodes:
  "\<forall>p \<in> set ps. p \<in> set (cpu_policy_paths w0) \<Longrightarrow> settable node \<Longrightarrow> same_env w (snd (write_nodes ps node val w))"
proof (induction ps arbitrary: w)
  case Nil
  then show ?case by simp
next
  case (Cons p ps)
  obtain ok w1 where 1: "ofstream_write (p @ node) val w = (ok, w1)" by fastforce
  have p: "p \<in> set (cpu_policy_paths w0)" using Cons.prems(1) by simp
  then have "current_ok (snd (ofstream_write (p @ node) val w)) = current_ok w"
    using cpu_not_backlight [OF p, of w "''/brightness''" node]
    by (intro current_ok_other)
  then have "same_env w w1"
    using same_env_write [OF settable_not_fixed, of p node w val] sysfs_cpu [OF p] 1 Cons.prems by simp
  then show ?case
    using Cons.IH [of w] Cons.IH [of w1] Cons.prems 1 by (auto simp: split_beta intro: same_env_trans)
qed

lemma same_env_governor [simp]: "same_env w (snd (set_cpu_governor g w))"
  and same_env_epp [simp]: "same_env w (snd (set_cpu_epp g w))"
  by (simp_all add: set_cpu_governor_def set_cpu_epp_def same_env_write_nodes [of _ w])

lemma same_env_apply: "apply_profile p w = (e, w') \<Longrightarrow> same_env w w'"
proof -
  assume a: "apply_profile p w = (e, w')"
  obtain a w1 where 1: "set_cpu_governor (cpu_governor p) w = (a, w1)" by fastforce
  obtain b w2 where 2: "set_cpu_epp (cpu_epp p) w1 = (b, w2)" by fastforce
  obtain c w3 where 3: "set_brightness_percent (brightness_percent p) w2 = (c, w3)" by fastforce
  have "same_env w w1" "same_env w1 w2" "same_env w2 w3"
    using same_env_governor [of w "cpu_governor p"] same_env_epp [of w1 "cpu_epp p"]
      same_env_set_brightness [of w2 "brightness_percent p"] 1 2 3 by simp_all
  then show ?thesis using a by (simp add: apply_profile_def 1 2 3) (blast intro: same_env_trans)
qed

lemma same_env_dim: "dim p pm w = (e, pm', w') \<Longrightarrow> same_env w w'"
  using same_env_set_brightness [of w "dim_brightness_percent p"]
  by (auto simp: dim_def Let_def split_beta split: sum.splits)

lemma same_env_undim: "undim p pm w = (e, pm', w') \<Longrightarrow> same_env w w'"
  using same_env_set_brightness [of w "m_user_brightness pm"]
    same_env_set_brightness [of w "brightness_percent p"]
  by (auto simp: undim_def Let_def split_beta split: sum.splits if_splits)

section \<open>Applying does not throw\<close>

lemma max_ok_keep:
  assumes "dirs w' = dirs w" "\<And>b. sysfs b \<Longrightarrow> files w' (b @ ''/max_brightness'') = files w (b @ ''/max_brightness'')"
  shows "max_ok w' = max_ok w"
proof -
  have "find_backlight_path w' = find_backlight_path w" using assms(1) by (simp add: find_backlight_path_def)
  then show ?thesis
    using assms(2) [OF sysfs_backlight, of w] by (auto simp: max_ok_def read_file_def Let_def)
qed

lemma same_env_max_ok: "same_env w w' \<Longrightarrow> max_ok w' = max_ok w"
  by (rule max_ok_keep) (auto simp: same_env_max, simp add: same_env_def)

lemma set_brightness_returns: "max_ok w \<Longrightarrow> thrown (fst (set_brightness_percent pct w)) = None"
  by (auto simp: max_ok_def set_brightness_percent_def thrown_def Let_def split_beta)

lemma apply_returns:
  assumes "max_ok w" "apply_profile p w = (e, w')"
  shows "e = None"
proof -
  define w2 where "w2 = snd (set_cpu_epp (cpu_epp p) (snd (set_cpu_governor (cpu_governor p) w)))"
  have "same_env w w2" unfolding w2_def by (rule same_env_trans [OF same_env_governor same_env_epp])
  then have "max_ok w2" using assms(1) by (simp add: same_env_max_ok)
  then show ?thesis
    using assms(2) set_brightness_returns [of w2] by (auto simp: apply_profile_def split_beta w2_def)
qed

lemma get_brightness_returns: "max_ok w \<Longrightarrow> current_ok w \<Longrightarrow> \<exists>v. get_brightness_percent w = Inr v"
  by (auto simp: max_ok_def current_ok_def get_brightness_percent_def Let_def)

lemma dim_returns:
  assumes "max_ok w" "current_ok w" "dim p pm w = (e, pm', w')"
  shows "e = None"
  using assms get_brightness_returns [OF assms(1,2)] set_brightness_returns [OF assms(1), of "dim_brightness_percent p"]
  by (auto simp: dim_def Let_def split_beta)

lemma undim_returns:
  assumes "max_ok w" "undim p pm w = (e, pm', w')"
  shows "e = None"
  using assms set_brightness_returns [OF assms(1)]
  by (fastforce simp: undim_def thrown_def Let_def split_beta split: sum.splits)

section \<open>A working backlight\<close>

text \<open>
  A backlight node \<open>base\<close> with a readable maximum \<open>m\<close> and brightness \<open>c\<close>, whose
  writes are accepted, and products that fit an \<open>int\<close>.
\<close>

definition backlight :: "world \<Rightarrow> string \<Rightarrow> int \<Rightarrow> int \<Rightarrow> bool" where
  "backlight w base m c \<longleftrightarrow>
     find_backlight_path w = base \<and> base \<noteq> [] \<and>
     (\<exists>t. files w (base @ ''/max_brightness'') = Some t \<and> rstrip t = show_int m) \<and>
     (\<exists>t. files w (base @ ''/brightness'') = Some t \<and> rstrip t = show_int c) \<and>
     \<not> no_write w (base @ ''/brightness'') \<and> (\<forall>t. \<not> refuses w (base @ ''/brightness'') t) \<and>
     0 < m \<and> 0 \<le> c \<and> c \<le> m \<and> fits32 (m * 100)"

lemma fits32_between: "fits32 b \<Longrightarrow> 0 \<le> a \<Longrightarrow> a \<le> b \<Longrightarrow> fits32 a"
  by (simp add: fits32_def)

lemma get_brightness_backlight:
  assumes "backlight w base m c"
  shows "get_brightness_percent w = Inr (word_of_int (c * 100 div m))"
    and "0 \<le> c * 100 div m" "c * 100 div m \<le> 100"
proof -
  have m: "fits32 m" "fits32 c" "fits32 (c * 100)" "fits32 100"
    using assms by (auto simp: backlight_def fits32_def)
  have prod: "sint (word_of_int c * 100 :: i32) = c * 100"
    using sint_mult32 [of "word_of_int c" 100] m by simp
  have "sdiv32 (word_of_int c * 100) (word_of_int m) = word_of_int (c * 100 div m)"
    using assms m prod by (simp add: sdiv32_def sdiv_pos backlight_def)
  then show "get_brightness_percent w = Inr (word_of_int (c * 100 div m))"
    using assms m
    by (auto simp: get_brightness_percent_def backlight_def read_file_def stoi_show Let_def)
  show "0 \<le> c * 100 div m" using assms by (simp add: backlight_def pos_imp_zdiv_nonneg_iff)
  have "c * 100 div m \<le> m * 100 div m"
    using assms by (intro zdiv_mono1) (auto simp: backlight_def)
  then show "c * 100 div m \<le> 100" using assms by (simp add: backlight_def)
qed

lemma set_brightness_backlight:
  assumes "backlight w base m c" "0 \<le> sint pct" "sint pct \<le> 100"
  shows "set_brightness_percent pct w =
      (Inr True, w\<lparr>files := (files w)(base @ ''/brightness'' \<mapsto> show_int (m * sint pct div 100))\<rparr>)"
    and "backlight (snd (set_brightness_percent pct w)) base m (m * sint pct div 100)"
proof -
  have pm: "0 \<le> m * sint pct" "m * sint pct \<le> m * 100"
    using assms by (auto simp: backlight_def mult_left_mono)
  have m100: "fits32 (m * 100)" using assms by (simp add: backlight_def)
  then have m: "fits32 m" "fits32 (m * sint pct)"
    using fits32_between [OF m100 pm] assms by (simp_all add: backlight_def fits32_def)
  have prod: "sint (word_of_int m * pct :: i32) = m * sint pct"
    using sint_mult32 [of "word_of_int m" pct] m by simp
  have q: "sint (sdiv32 (word_of_int m * pct) 100) = m * sint pct div 100"
    using sint_sdiv32 [of "word_of_int m * pct" 100] prod pm by simp
  show set: "set_brightness_percent pct w =
      (Inr True, w\<lparr>files := (files w)(base @ ''/brightness'' \<mapsto> show_int (m * sint pct div 100))\<rparr>)"
    using assms m q
    by (auto simp: set_brightness_percent_def backlight_def read_file_def stoi_show Let_def ofstream_write_def)
  have le: "m * sint pct div 100 \<le> m"
    using zdiv_mono1 [OF pm(2), of 100] by simp
  have ge: "0 \<le> m * sint pct div 100" using pm(1) by simp
  show "backlight (snd (set_brightness_percent pct w)) base m (m * sint pct div 100)"
    using assms(1) le ge unfolding set by (auto simp: backlight_def find_backlight_path_def)
qed

section \<open>Dimming and restoring\<close>

text \<open>The raw brightness after dimming and restoring from the raw brightness \<open>c\<close>.\<close>

definition restored :: "int \<Rightarrow> int \<Rightarrow> int" where
  "restored m c = m * (c * 100 div m) div 100"

lemma dim_backlight:
  assumes b: "backlight w base m c"
    and pct: "0 \<le> sint (dim_brightness_percent p)" "sint (dim_brightness_percent p) \<le> 100"
    and d: "dim p pm w = (e, pm1, w1)"
  shows "e = None" "backlight w1 base m (m * sint (dim_brightness_percent p) div 100)"
    "pm1 = pm\<lparr>m_user_brightness := word_of_int (c * 100 div m)\<rparr>"
proof -
  have g: "get_brightness_percent w = Inr (word_of_int (c * 100 div m))"
    and r: "0 \<le> c * 100 div m" "c * 100 div m \<le> 100"
    using get_brightness_backlight [OF b] by auto
  have f: "sint (word_of_int (c * 100 div m) :: i32) = c * 100 div m" using r by (simp add: fits32_def)
  note s1 = set_brightness_backlight [OF b pct]
  show "e = None" "backlight w1 base m (m * sint (dim_brightness_percent p) div 100)"
    "pm1 = pm\<lparr>m_user_brightness := word_of_int (c * 100 div m)\<rparr>"
    using d g s1 f r by (auto simp: dim_def thrown_def Let_def split_beta)
qed

lemma undim_backlight:
  assumes b: "backlight w base m c'" and u: "0 \<le> u" "u \<le> 100"
    and d: "undim q (pm\<lparr>m_user_brightness := word_of_int u\<rparr>) w = (e, pm1, w1)"
  shows "e = None" "backlight w1 base m (m * u div 100)" "pm1 = pm\<lparr>m_user_brightness := -1\<rparr>"
proof -
  have f: "sint (word_of_int u :: i32) = u" using u by (simp add: fits32_def)
  note s = set_brightness_backlight [OF b, of "word_of_int u", unfolded f, OF u]
  show "e = None" "backlight w1 base m (m * u div 100)" "pm1 = pm\<lparr>m_user_brightness := -1\<rparr>"
    using d s f u by (auto simp: undim_def Let_def split_beta)
qed

lemma dim_then_undim:
  assumes b: "backlight w base m c"
    and pct: "0 \<le> sint (dim_brightness_percent p)" "sint (dim_brightness_percent p) \<le> 100"
    and d: "dim p pm w = (e, pm1, w1)" and u: "undim q pm1 w1 = (e', pm2, w2)"
  shows "e = None" "e' = None" "pm2 = pm\<lparr>m_user_brightness := -1\<rparr>"
    "backlight w1 base m (m * sint (dim_brightness_percent p) div 100)"
    "backlight w2 base m (restored m c)"
proof -
  note 1 = dim_backlight [OF b pct d]
  note 2 = undim_backlight [OF 1(2) get_brightness_backlight(2,3) [OF b] u [unfolded 1(3)]]
  show "e = None" "e' = None" "pm2 = pm\<lparr>m_user_brightness := -1\<rparr>"
    "backlight w1 base m (m * sint (dim_brightness_percent p) div 100)"
    "backlight w2 base m (restored m c)"
    using 1 2 by (simp_all add: restored_def)
qed

text \<open>The backlight is its files and what may be written to them.\<close>

lemma backlight_files:
  "files w' = files w \<Longrightarrow> dirs w' = dirs w \<Longrightarrow> no_write w' = no_write w \<Longrightarrow> refuses w' = refuses w \<Longrightarrow>
    backlight w' base m c = backlight w base m c"
  by (simp add: backlight_def find_backlight_path_def)

text \<open>How far the restored brightness is from the one before dimming.\<close>

lemma restored_le: "0 < m \<Longrightarrow> 0 \<le> c \<Longrightarrow> restored m c \<le> c"
proof -
  assume "0 < m" "0 \<le> c"
  have "m * (c * 100 div m) \<le> c * 100"
    using pos_mod_sign [OF \<open>0 < m\<close>, of "c * 100"] by (simp add: minus_mod_eq_mult_div [symmetric])
  then have "m * (c * 100 div m) div 100 \<le> c * 100 div 100" by (rule zdiv_mono1) simp
  then show ?thesis by (simp add: restored_def)
qed

lemma restored_ge: "0 < m \<Longrightarrow> 0 \<le> c \<Longrightarrow> c - m div 100 - 1 \<le> restored m c"
proof -
  assume m: "0 < m" "0 \<le> c"
  have "c * 100 - m < m * (c * 100 div m)"
    using pos_mod_bound [OF m(1), of "c * 100"] by (simp add: minus_mod_eq_mult_div [symmetric])
  then show ?thesis unfolding restored_def by linarith
qed

lemma restored_exact:
  assumes "0 < m" "100 dvd m" "0 \<le> c"
  shows "restored m (restored m c) = restored m c"
proof -
  obtain k where k: "m = 100 * k" "0 < k" using assms by (auto elim: dvdE)
  have r: "restored m c = k * (c * 100 div m)" for c by (simp add: restored_def k)
  have "k * (c * 100 div m) * 100 div m = c * 100 div m" for c by (simp add: k)
  then show ?thesis by (simp add: r)
qed

text \<open>
  When the maximum has no factor in common with 100, every round of dimming and restoring
  loses at least one per cent, until the backlight is off.
\<close>

lemma percent_drift:
  assumes "0 < m" "coprime m 100" "0 < c" "c < m"
  shows "restored m c * 100 div m < c * 100 div m \<or> c * 100 div m = 0"
proof (rule ccontr)
  let ?u = "c * 100 div m"
  assume no: "\<not> ?thesis"
  have low: "0 \<le> ?u" using assms by (simp add: pos_imp_zdiv_nonneg_iff)
  have "?u * m \<le> c * 100"
    using pos_mod_sign [OF assms(1), of "c * 100"] by (simp add: minus_mod_eq_div_mult [symmetric])
  also have "c * 100 < 100 * m" using assms by simp
  finally have u: "0 \<le> ?u" "?u < 100" using low assms(1) by simp_all
  have "m * ?u \<le> m * (restored m c * 100 div m)"
    using no assms(1) by (simp add: not_less)
  also have "\<dots> \<le> restored m c * 100"
    using pos_mod_sign [OF assms(1), of "restored m c * 100"]
    by (simp add: minus_mod_eq_mult_div [symmetric])
  finally have "m * ?u \<le> restored m c * 100" .
  moreover have "restored m c * 100 \<le> m * ?u" by (simp add: restored_def)
  ultimately have "100 dvd m * ?u" by (metis dvd_triv_right order_antisym)
  then have "100 dvd ?u" using assms(2) by (simp add: coprime_commute coprime_dvd_mult_right_iff)
  then show False using u no by (auto dest: zdvd_imp_le)
qed

text \<open>Repeating it a hundred times ends below one per cent.\<close>

lemma restored_range: "0 < m \<Longrightarrow> 0 \<le> c \<Longrightarrow> 0 \<le> restored m c"
  by (simp add: restored_def pos_imp_zdiv_nonneg_iff)

lemma restored_zero [simp]: "restored m 0 = 0"
  by (simp add: restored_def)

lemma drift_rounds:
  assumes "0 < m" "coprime m 100" "0 \<le> c" "c < m"
  shows "0 \<le> (restored m ^^ n) c \<and> (restored m ^^ n) c < m \<and>
    ((restored m ^^ n) c * 100 div m = 0 \<or> (restored m ^^ n) c * 100 div m + int n \<le> c * 100 div m)"
proof (induction n)
  case 0
  then show ?case using assms by simp
next
  case (Suc n)
  define x where "x = (restored m ^^ n) c"
  have x: "0 \<le> x" "x < m" "x * 100 div m = 0 \<or> x * 100 div m + int n \<le> c * 100 div m"
    using Suc by (auto simp: x_def)
  have r: "0 \<le> restored m x" "restored m x \<le> x"
    using restored_range restored_le assms(1) x(1) by blast+
  have le: "restored m x * 100 div m \<le> x * 100 div m"
    using r assms(1) by (intro zdiv_mono1) auto
  have nn: "0 \<le> restored m x * 100 div m" using r assms(1) by (simp add: pos_imp_zdiv_nonneg_iff)
  have "restored m x * 100 div m = 0 \<or> restored m x * 100 div m + int (Suc n) \<le> c * 100 div m"
  proof (cases "x = 0")
    case True
    then show ?thesis by simp
  next
    case False
    then have "restored m x * 100 div m < x * 100 div m \<or> x * 100 div m = 0"
      using percent_drift [OF assms(1,2)] x by simp
    then show ?thesis using x(3) le nn by linarith
  qed
  then show ?case using r x by (simp add: x_def [symmetric])
qed

lemma drift_to_dark:
  assumes "0 < m" "coprime m 100" "0 \<le> c" "c < m"
  shows "(restored m ^^ 100) c * 100 div m = 0"
proof -
  have "c * 100 div m \<le> m * 100 div m" using assms by (intro zdiv_mono1) auto
  then have "c * 100 div m \<le> 100" using assms(1) by simp
  moreover have "0 \<le> (restored m ^^ 100) c * 100 div m"
    using drift_rounds [OF assms, of 100] assms(1) by (simp add: pos_imp_zdiv_nonneg_iff)
  ultimately show ?thesis using drift_rounds [OF assms, of 100] by linarith
qed

section \<open>Applying a profile to a working backlight\<close>

lemma write_nodes_other:
  "\<forall>p \<in> set ps. q \<noteq> p @ node \<Longrightarrow> files (snd (write_nodes ps node v w)) q = files w q"
proof (induction ps arbitrary: w)
  case Nil
  then show ?case by simp
next
  case (Cons p ps)
  then show ?case by (auto simp: split_beta) (simp_all add: ofstream_write_def)
qed

lemma backlight_change:
  assumes "backlight w base m c" "dirs w' = dirs w" "no_write w' = no_write w" "refuses w' = refuses w"
    and "\<And>q. files w' (base @ q) = files w (base @ q)"
  shows "backlight w' base m c"
  using assms by (auto simp: backlight_def find_backlight_path_def)

lemma write_nodes_backlight:
  assumes "backlight w base m c" "cpu_policy_paths w0 = ps" "settable node"
  shows "backlight (snd (write_nodes ps node v w)) base m c"
proof (rule backlight_change [OF assms(1)])
  have base: "base \<noteq> []" "base = find_backlight_path w" using assms(1) by (auto simp: backlight_def)
  fix q show "files (snd (write_nodes ps node v w)) (base @ q) = files w (base @ q)"
    using cpu_not_backlight [of _ w0 w q node] assms(2) base by (intro write_nodes_other) auto
next
  have "same_env w (snd (write_nodes ps node v w))"
    using assms(2,3) by (intro same_env_write_nodes [of _ w0]) auto
  then show "dirs (snd (write_nodes ps node v w)) = dirs w"
    "no_write (snd (write_nodes ps node v w)) = no_write w"
    "refuses (snd (write_nodes ps node v w)) = refuses w"
    by (simp_all add: same_env_def)
qed

lemma apply_backlight:
  assumes "backlight w base m c" "0 \<le> sint (brightness_percent p)" "sint (brightness_percent p) \<le> 100"
  shows "fst (apply_profile p w) = None"
    "backlight (snd (apply_profile p w)) base m (m * sint (brightness_percent p) div 100)"
proof -
  define w1 where "w1 = snd (set_cpu_governor (cpu_governor p) w)"
  define w2 where "w2 = snd (set_cpu_epp (cpu_epp p) w1)"
  have "backlight w1 base m c"
    using write_nodes_backlight [OF assms(1) HOL.refl] assms(1) by (simp add: w1_def set_cpu_governor_def)
  then have b2: "backlight w2 base m c"
    using write_nodes_backlight [of w1 base m c w1] by (simp add: w2_def set_cpu_epp_def)
  show "fst (apply_profile p w) = None"
    "backlight (snd (apply_profile p w)) base m (m * sint (brightness_percent p) div 100)"
    using set_brightness_backlight [OF b2 assms(2,3)]
    by (simp_all add: apply_profile_def split_beta thrown_def flip: w1_def w2_def)
qed

section \<open>The property of applying a profile\<close>

lemma write_nodes_done:
  assumes "p \<in> set ps" "rstrip v = v"
    and "\<forall>q \<in> set ps. \<not> no_write w (q @ node) \<and> \<not> refuses w (q @ node) v"
  shows "read_file (p @ node) (snd (write_nodes ps node v w)) = v"
  using assms
proof (induction ps arbitrary: w)
  case Nil
  then show ?case by simp
next
  case (Cons q ps)
  define w1 where "w1 = (if read_file (q @ node) w = v then w else snd (ofstream_write (q @ node) v w))"
  have step: "snd (write_nodes (q # ps) node v w) = snd (write_nodes ps node v w1)"
    by (simp add: w1_def split_beta)
  have w1: "no_write w1 = no_write w" "refuses w1 = refuses w" "read_file (q @ node) w1 = v"
    using Cons.prems by (auto simp: w1_def frame ofstream_write_def read_file_def)
  show ?case
  proof (cases "p \<in> set ps")
    case True
    then show ?thesis using Cons.IH [of w1] Cons.prems step w1 by simp
  next
    case False
    then have "files (snd (write_nodes ps node v w1)) (p @ node) = files w1 (p @ node)"
      by (intro write_nodes_other) auto
    then show ?thesis using False Cons.prems(1) step w1(3) by (simp add: read_file_def)
  qed
qed

lemma node_names_differ:
  "p @ ''/scaling_governor'' \<noteq> q @ ''/energy_performance_preference''"
proof
  assume "p @ ''/scaling_governor'' = q @ ''/energy_performance_preference''"
  then have "last (p @ ''/scaling_governor'') = last (q @ ''/energy_performance_preference'')" by simp
  then show False by simp
qed

text \<open>
  C25: applying a profile on a machine with a working backlight and writable
  frequency policies sets the governor and the energy preference of every policy (unless the
  profile leaves them empty) and the brightness to the profile's percentage of the maximum,
  without an exception.
\<close>

theorem profile_applied:
  assumes "backlight w base m c" "0 \<le> sint (brightness_percent p)" "sint (brightness_percent p) \<le> 100"
    and "\<forall>q \<in> set (cpu_policy_paths w). \<forall>n. \<not> no_write w (q @ n) \<and> (\<forall>v. \<not> refuses w (q @ n) v)"
    and "rstrip (cpu_governor p) = cpu_governor p" "rstrip (cpu_epp p) = cpu_epp p"
    and "apply_profile p w = (e, w')"
  shows "e = None \<and> backlight w' base m (m * sint (brightness_percent p) div 100) \<and>
    (\<forall>q \<in> set (cpu_policy_paths w).
      (cpu_governor p \<noteq> [] \<longrightarrow> read_file (q @ ''/scaling_governor'') w' = cpu_governor p) \<and>
      (cpu_epp p \<noteq> [] \<longrightarrow> read_file (q @ ''/energy_performance_preference'') w' = cpu_epp p))"
proof -
  let ?ps = "cpu_policy_paths w"
  define w1 where "w1 = snd (set_cpu_governor (cpu_governor p) w)"
  define w2 where "w2 = snd (set_cpu_epp (cpu_epp p) w1)"
  have env: "same_env w w1" "same_env w1 w2" by (simp_all add: w1_def w2_def)
  have ps1: "cpu_policy_paths w1 = ?ps" using env(1) by (simp add: cpu_policy_paths_def same_env_def)
  have w': "w' = snd (set_brightness_percent (brightness_percent p) w2)"
    using assms(7) by (simp add: apply_profile_def split_beta flip: w1_def w2_def)
  have bl: "e = None \<and> backlight w' base m (m * sint (brightness_percent p) div 100)"
    using apply_backlight [OF assms(1-3)] assms(7) by simp
  have base: "base \<noteq> []" "find_backlight_path w2 = base"
    using assms(1) env by (auto simp: backlight_def same_env_def find_backlight_path_def)
  have keep: "read_file (q @ n) w' = read_file (q @ n) w2" if "q \<in> set ?ps" for q n
    using cpu_not_backlight [OF that, of w2 "''/brightness''" n] base
    by (auto simp: w' set_brightness_percent_def Let_def read_file_def ofstream_write_def
        split: sum.splits)
  have gov: "read_file (q @ ''/scaling_governor'') w1 = cpu_governor p"
    if "q \<in> set ?ps" "cpu_governor p \<noteq> []" for q
    using write_nodes_done [OF that(1) assms(5), of w] assms(4) that(2)
    by (simp add: w1_def set_cpu_governor_def)
  have kept: "read_file (q @ ''/scaling_governor'') w2 = read_file (q @ ''/scaling_governor'') w1" for q
    using write_nodes_other [of ?ps "q @ ''/scaling_governor''" "''/energy_performance_preference''"]
      node_names_differ ps1
    by (simp add: w2_def set_cpu_epp_def read_file_def)
  have epp: "read_file (q @ ''/energy_performance_preference'') w2 = cpu_epp p"
    if "q \<in> set ?ps" "cpu_epp p \<noteq> []" for q
    using write_nodes_done [OF that(1) assms(6), of w1] assms(4) env(1) that(2) ps1
    by (simp add: w2_def set_cpu_epp_def same_env_def)
  show ?thesis using bl keep gov kept epp by simp
qed

end
