(* ===== verification/Session_Tracker.thy ===== *)
theory Session_Tracker
  imports Prelude
begin

text \<open>
  \<open>src/daemon/session_tracker.cpp\<close>: which logind session is active on seat0.  What the bus
  answers is given: a failed call or an absent string is \<open>None\<close>.
\<close>

record sessions =
  m_bus :: bool
  m_seat0_path :: string
  m_active_session_id :: string

definition new_sessions :: sessions where
  "new_sessions = \<lparr>m_bus = False, m_seat0_path = [], m_active_session_id = []\<rparr>"

text \<open>The value of a changed property: a session structure, or a variant of another type.\<close>

datatype prop_value = Session_struct "string option" | Other_value

text \<open>
  The scan of the changed properties.  Of a session structure only the identifier is read, not
  the object path after it, and a value of the wrong type is neither entered nor skipped; both
  leave the containers in the middle, so that leaving them fails, the next entry cannot be
  entered and the scan ends there.  So does an entry whose key cannot be read.
\<close>

fun scan_seat :: "(string option \<times> prop_value) list \<Rightarrow> sessions \<Rightarrow> sessions" where
  "scan_seat [] st = st"
| "scan_seat ((key, v) # es) st =
     (if key = Some ''ActiveSession'' then
        (case v of
           Session_struct (Some sid) \<Rightarrow> st\<lparr>m_active_session_id := sid\<rparr>
         | _ \<Rightarrow> st)
      else if key = None then st
      else scan_seat es st)"

text \<open>\<open>changed\<close> is \<open>None\<close> when the dictionary cannot be entered.\<close>

definition handle_seat_properties ::
    "string option \<Rightarrow> (string option \<times> prop_value) list option \<Rightarrow> sessions \<Rightarrow> sessions" where
  "handle_seat_properties iface changed st =
     (if iface \<noteq> Some ''org.freedesktop.login1.Seat'' then st
      else (case changed of None \<Rightarrow> st | Some es \<Rightarrow> scan_seat es st))"

type_synonym seat_signal = "string option \<times> (string option \<times> prop_value) list option"

text \<open>\<open>poll\<close>: every pending signal is handled.\<close>

definition sessions_poll :: "seat_signal list \<Rightarrow> sessions \<Rightarrow> sessions" where
  "sessions_poll sigs st =
     (if \<not> m_bus st then st else fold (\<lambda>(i, c). handle_seat_properties i c) sigs st)"

text \<open>
  \<open>reply\<close> is \<open>None\<close> for a failed call, \<open>Some None\<close> for a reply without a session
  identifier.
\<close>

definition refresh_active_session :: "string option option \<Rightarrow> sessions \<Rightarrow> sessions" where
  "refresh_active_session reply st =
     (if m_seat0_path st = [] then st
      else (case reply of
              Some (Some sid) \<Rightarrow> st\<lparr>m_active_session_id := sid\<rparr>
            | _ \<Rightarrow> st))"

definition sessions_init ::
    "bool \<Rightarrow> string option option \<Rightarrow> string option option \<Rightarrow> sessions \<Rightarrow> bool \<times> sessions" where
  "sessions_init bus_ok get_seat property st =
     (if \<not> bus_ok then (False, st)
      else let st1 = st\<lparr>m_bus := True\<rparr>
           in (case get_seat of
                 None \<Rightarrow> (True, st1)
               | Some path \<Rightarrow>
                   let st2 = (case path of Some p \<Rightarrow> st1\<lparr>m_seat0_path := p\<rparr> | None \<Rightarrow> st1)
                   in (True, refresh_active_session property st2)))"

definition bus_fd :: "int \<Rightarrow> sessions \<Rightarrow> int" where
  "bus_fd sd_bus_get_fd st = (if m_bus st then sd_bus_get_fd else -1)"

definition is_active :: "sessions \<Rightarrow> string \<Rightarrow> bool" where
  "is_active st session_id \<longleftrightarrow> session_id \<noteq> [] \<and> session_id = m_active_session_id st"

definition session_is_active :: "(string \<Rightarrow> int) \<Rightarrow> string \<Rightarrow> bool" where
  "session_is_active sd_session_is_active session_id \<longleftrightarrow>
     session_id \<noteq> [] \<and> 0 < sd_session_is_active session_id"

lemma is_active_unique: "is_active st a \<Longrightarrow> is_active st b \<Longrightarrow> a = b"
  by (simp add: is_active_def)

lemma no_active_session: "m_active_session_id st = [] \<Longrightarrow> \<not> is_active st a"
  by (simp add: is_active_def)

section \<open>The last session reported\<close>

text \<open>
  The session identifier a signal reports: that of the first entry under the key \<open>ActiveSession\<close>
  of a signal about a seat whose dictionary can be read.
\<close>

definition reported :: "seat_signal \<Rightarrow> string list" where
  "reported sig = (case sig of
     (Some i, Some es) \<Rightarrow>
       if i = ''org.freedesktop.login1.Seat''
       then (case List.find (\<lambda>(k, v). k = Some ''ActiveSession'' \<or> k = None) es of
               Some (Some k, Session_struct (Some sid)) \<Rightarrow> [sid]
             | _ \<Rightarrow> [])
       else []
   | _ \<Rightarrow> [])"

lemma last_Cons_snoc: "last (last (x # xs) # ys) = last (x # xs @ ys)"
  by (cases ys) auto

lemma scan_seat_last:
  "scan_seat es st = (case List.find (\<lambda>(k, v). k = Some ''ActiveSession'' \<or> k = None) es of
     Some (Some k, Session_struct (Some sid)) \<Rightarrow> st\<lparr>m_active_session_id := sid\<rparr>
   | _ \<Rightarrow> st)"
  by (induction es st rule: scan_seat.induct) (auto split: prop_value.splits option.splits)

lemma handle_seat_last:
  "handle_seat_properties i c st = st\<lparr>m_active_session_id := last (m_active_session_id st # reported (i, c))\<rparr>"
  by (auto simp: handle_seat_properties_def reported_def scan_seat_last split: option.splits prop_value.splits)

lemma sessions_poll_last:
  assumes "m_bus st"
  shows "sessions_poll sigs st =
    st\<lparr>m_active_session_id := last (m_active_session_id st # concat (map reported sigs))\<rparr>"
proof -
  have "fold (\<lambda>(i, c). handle_seat_properties i c) sigs st =
      st\<lparr>m_active_session_id := last (m_active_session_id st # concat (map reported sigs))\<rparr>" for st
  proof (induction sigs arbitrary: st)
    case Nil
    then show ?case by simp
  next
    case (Cons s sigs)
    then show ?case
      using last_Cons_snoc [of "m_active_session_id st" "reported s" "concat (map reported sigs)"]
      by (cases s) (simp add: handle_seat_last)
  qed
  then show ?thesis using assms by (simp add: sessions_poll_def)
qed

lemma scan_seat_frame [frame]:
  "m_bus (scan_seat es st) = m_bus st" "m_seat0_path (scan_seat es st) = m_seat0_path st"
  by (induction es st rule: scan_seat.induct) (auto split: prop_value.splits option.splits)

end
