(* ===== verification/Server.thy ===== *)
theory Server
  imports World
begin

text \<open>
  \<open>src/daemon/server.hpp\<close> and \<open>server.cpp\<close>: the connections and the broadcast that waits
  for acknowledgements.  \<open>handle_client\<close> calls back into the daemon and is composed there.
\<close>

record connection =
  conn_fd :: int
  buf :: string
  is_agent :: bool
  is_ctl :: bool

record server =
  m_listen_fd :: int
  m_conns :: "(int \<times> connection) list"

definition new_server :: server where
  "new_server = \<lparr>m_listen_fd = -1, m_conns = []\<rparr>"

text \<open>\<open>init\<close> with the descriptor \<open>listen_unix\<close> returned.\<close>

definition server_init :: "int \<Rightarrow> server \<Rightarrow> bool \<times> server" where
  "server_init fd sv = (0 \<le> fd, sv\<lparr>m_listen_fd := fd\<rparr>)"

definition has_fd :: "server \<Rightarrow> int \<Rightarrow> bool" where
  "has_fd sv fd \<longleftrightarrow> map_of (m_conns sv) fd \<noteq> None"

definition is_listen_fd :: "server \<Rightarrow> int \<Rightarrow> bool" where
  "is_listen_fd sv fd \<longleftrightarrow> fd = m_listen_fd sv"

text \<open>
  \<open>accept_client\<close> with the descriptor \<open>accept4\<close> returned.  \<open>emplace\<close> leaves a
  connection that is already there under the key as it is.
\<close>

definition accept_client :: "int \<Rightarrow> server \<Rightarrow> int \<times> server" where
  "accept_client fd sv =
     (if fd < 0 then (-1, sv)
      else (fd, if has_fd sv fd then sv
                else sv\<lparr>m_conns := umap_put fd
                       \<lparr>conn_fd = fd, buf = [], is_agent = False, is_ctl = False\<rparr> (m_conns sv)\<rparr>))"

definition close_client :: "int \<Rightarrow> server \<Rightarrow> world \<Rightarrow> server \<times> world" where
  "close_client fd sv w = (sv\<lparr>m_conns := umap_erase fd (m_conns sv)\<rparr>, close_fd fd w)"

text \<open>The reading half of \<open>handle_client\<close>: feed the connection's line buffer.\<close>

definition feed_client :: "int \<Rightarrow> rd list \<Rightarrow> server \<Rightarrow> (bool \<times> string list \<times> server) option" where
  "feed_client fd rs sv =
     (case map_of (m_conns sv) fd of
        None \<Rightarrow> None
      | Some c \<Rightarrow> let (ok, lines, b, _) = feed rs (buf c)
                  in Some (ok, lines, sv\<lparr>m_conns := umap_put fd (c\<lparr>buf := b\<rparr>) (m_conns sv)\<rparr>))"

definition agent_fds :: "server \<Rightarrow> int list" where
  "agent_fds sv = map fst (filter (\<lambda>(fd, c). is_agent c) (m_conns sv))"

section \<open>Broadcasting and waiting\<close>

definition contains :: "string \<Rightarrow> string \<Rightarrow> bool" where
  "contains pat s \<longleftrightarrow> list_ex (\<lambda>i. take (length pat) (drop i s) = pat) [0..<Suc (length s)]"

text \<open>The first loop: the agents the message could be written to.\<close>

fun send_all :: "string \<Rightarrow> int list \<Rightarrow> world \<Rightarrow> int list \<times> world" where
  "send_all msg [] w = ([], w)"
| "send_all msg (fd # fds) w =
     (let (ok, w1) = send_line fd msg w; (p, w2) = send_all msg fds w1
      in (if ok then fd # p else p, w2))"

text \<open>One readable descriptor: it answered with an ack, closed, or said something else.\<close>

definition drop_acked :: "int \<times> string option \<Rightarrow> int list \<Rightarrow> int list" where
  "drop_acked r pending =
     (case snd r of
        None \<Rightarrow> filter (\<lambda>fd. fd \<noteq> fst r) pending
      | Some s \<Rightarrow> if contains [CHR 0x22, CHR ''a'', CHR ''c'', CHR ''k'', CHR 0x22] s
                  then filter (\<lambda>fd. fd \<noteq> fst r) pending else pending)"

text \<open>
  The wait loop: who is still pending at its exit, and the rounds left.  The rounds run out
  when the deadline comes.
\<close>

fun wait_acks :: "int list \<Rightarrow> poll_round list \<Rightarrow> int list \<times> poll_round list" where
  "wait_acks [] rounds = ([], rounds)"
| "wait_acks pending [] = (pending, [])"
| "wait_acks pending (Deadline # rounds) = (pending, rounds)"
| "wait_acks pending (Poll_none # rounds) = wait_acks pending rounds"
| "wait_acks pending (Ready rs # rounds) = wait_acks (fold drop_acked rs pending) rounds"

definition broadcast_and_wait_acks :: "string \<Rightarrow> server \<Rightarrow> world \<Rightarrow> int list \<times> world" where
  "broadcast_and_wait_acks msg sv w =
     (let (pending, w1) = send_all msg (agent_fds sv) w;
          (missing, rounds) = wait_acks pending (polls w1)
      in (missing, w1\<lparr>polls := rounds\<rparr>))"

section \<open>Lemmas\<close>

definition conns_ok :: "server \<Rightarrow> bool" where
  "conns_ok sv \<longleftrightarrow> umap_ok (m_conns sv) \<and> (\<forall>(fd, c) \<in> set (m_conns sv). conn_fd c = fd)"

text \<open>No operation marks a connection as an agent's.\<close>

definition unmarked :: "server \<Rightarrow> bool" where
  "unmarked sv \<longleftrightarrow> (\<forall>(fd, c) \<in> set (m_conns sv). \<not> is_agent c)"

lemma conns_ok_put:
  assumes "conns_ok sv" "conn_fd c = fd"
  shows "conns_ok (sv\<lparr>m_conns := umap_put fd c (m_conns sv)\<rparr>)"
  using assms by (auto simp: conns_ok_def umap.ok_put umap.set_entries_put)

lemma unmarked_put:
  assumes "conns_ok sv" "unmarked sv" "\<not> is_agent c"
  shows "unmarked (sv\<lparr>m_conns := umap_put fd c (m_conns sv)\<rparr>)"
  using assms by (auto simp: conns_ok_def unmarked_def umap.set_entries_put)

lemma conn_of: "conns_ok sv \<Longrightarrow> unmarked sv \<Longrightarrow> map_of (m_conns sv) fd = Some c \<Longrightarrow>
    conn_fd c = fd \<and> \<not> is_agent c"
  by (auto simp: conns_ok_def unmarked_def dest!: map_of_SomeD)

lemma server_inv_accept:
  "conns_ok sv \<Longrightarrow> unmarked sv \<Longrightarrow>
    conns_ok (snd (accept_client fd sv)) \<and> unmarked (snd (accept_client fd sv))"
  by (simp add: accept_client_def conns_ok_put unmarked_put)

lemma server_inv_close:
  "conns_ok sv \<Longrightarrow> unmarked sv \<Longrightarrow>
    conns_ok (fst (close_client fd sv w)) \<and> unmarked (fst (close_client fd sv w))"
  by (auto simp: close_client_def conns_ok_def unmarked_def umap.ok_erase umap.set_entries_erase)

lemma server_inv_feed:
  assumes "conns_ok sv" "unmarked sv" "feed_client fd rs sv = Some (ok, ls, sv')"
  shows "conns_ok sv' \<and> unmarked sv'"
proof -
  obtain c where c: "map_of (m_conns sv) fd = Some c"
    using assms(3) by (auto simp: feed_client_def split: option.splits)
  then have "conn_fd c = fd" "\<not> is_agent c" using conn_of assms(1,2) by blast+
  then show ?thesis
    using assms c by (auto simp: feed_client_def conns_ok_put unmarked_put split_beta)
qed

lemma unmarked_no_agents: "unmarked sv \<Longrightarrow> agent_fds sv = []"
  by (auto simp: unmarked_def agent_fds_def filter_empty_conv)

lemma broadcast_unmarked:
  "unmarked sv \<Longrightarrow> broadcast_and_wait_acks msg sv w = ([], w)"
  by (simp add: broadcast_and_wait_acks_def unmarked_no_agents)

text \<open>Who is left after the wait was sent to and has not acknowledged.\<close>

lemma drop_acked_subset: "set (drop_acked r p) \<subseteq> set p"
  by (auto simp: drop_acked_def split: option.splits)

lemma fold_drop_acked_subset: "set (fold drop_acked rs p) \<subseteq> set p"
  by (induction rs arbitrary: p) (use drop_acked_subset in fastforce)+

lemma wait_acks_subset: "set (fst (wait_acks p rounds)) \<subseteq> set p"
  by (induction p rounds rule: wait_acks.induct) (use fold_drop_acked_subset in fastforce)+

lemma send_all_subset: "set (fst (send_all msg fds w)) \<subseteq> set fds"
  by (induction fds arbitrary: w) (auto simp: split_beta)

lemma send_all_frame [frame]:
  "cmds (snd (send_all msg fds w)) = cmds w" "files (snd (send_all msg fds w)) = files w"
  "polls (snd (send_all msg fds w)) = polls w" "dirs (snd (send_all msg fds w)) = dirs w"
  "no_write (snd (send_all msg fds w)) = no_write w" "refuses (snd (send_all msg fds w)) = refuses w"
  by (induction fds arbitrary: w) (simp_all add: split_beta frame)

lemma broadcast_frame [frame]:
  "cmds (snd (broadcast_and_wait_acks msg sv w)) = cmds w"
  "files (snd (broadcast_and_wait_acks msg sv w)) = files w"
  "dirs (snd (broadcast_and_wait_acks msg sv w)) = dirs w"
  "no_write (snd (broadcast_and_wait_acks msg sv w)) = no_write w"
  "refuses (snd (broadcast_and_wait_acks msg sv w)) = refuses w"
  by (simp_all add: broadcast_and_wait_acks_def split_beta frame)

text \<open>The descriptor was heard of during the wait: it acknowledged, or its stream ended.\<close>

definition answered :: "int \<Rightarrow> poll_round list \<Rightarrow> bool" where
  "answered fd rounds \<longleftrightarrow> (\<exists>rs r. Ready rs \<in> set rounds \<and> r \<in> set rs \<and> fst r = fd \<and>
     (case snd r of None \<Rightarrow> True | Some s \<Rightarrow> contains [CHR 0x22, CHR ''a'', CHR ''c'', CHR ''k'', CHR 0x22] s))"

lemma drop_acked_keeps:
  "fd \<in> set p \<Longrightarrow> fd \<notin> set (drop_acked r p) \<Longrightarrow> fst r = fd \<and>
    (case snd r of None \<Rightarrow> True | Some s \<Rightarrow> contains [CHR 0x22, CHR ''a'', CHR ''c'', CHR ''k'', CHR 0x22] s)"
  by (auto simp: drop_acked_def split: option.splits if_splits)

lemma fold_drop_acked_keeps:
  "fd \<in> set p \<Longrightarrow> fd \<notin> set (fold drop_acked rs p) \<Longrightarrow> \<exists>r \<in> set rs. fst r = fd \<and>
    (case snd r of None \<Rightarrow> True | Some s \<Rightarrow> contains [CHR 0x22, CHR ''a'', CHR ''c'', CHR ''k'', CHR 0x22] s)"
proof (induction rs arbitrary: p)
  case (Cons r rs)
  then show ?case using drop_acked_keeps [of fd p r] by (cases "fd \<in> set (drop_acked r p)") auto
qed simp

lemma answered_Cons: "answered fd rounds \<Longrightarrow> answered fd (x # rounds)"
  by (fastforce simp: answered_def)

lemma wait_acks_answered:
  "fd \<in> set p \<Longrightarrow> fd \<notin> set (fst (wait_acks p rounds)) \<Longrightarrow> answered fd rounds"
proof (induction p rounds rule: wait_acks.induct)
  case (5 v va rs rounds)
  show ?case
  proof (cases "fd \<in> set (fold drop_acked rs (v # va))")
    case True
    then show ?thesis using 5 by (auto intro: answered_Cons)
  next
    case False
    then obtain r where "r \<in> set rs" "fst r = fd"
      "case snd r of None \<Rightarrow> True | Some s \<Rightarrow> contains [CHR 0x22, CHR ''a'', CHR ''c'', CHR ''k'', CHR 0x22] s"
      using fold_drop_acked_keeps [OF "5.prems"(1)] by blast
    then show ?thesis unfolding answered_def by (metis list.set_intros(1))
  qed
qed (auto intro: answered_Cons)

text \<open>
  The agents the broadcast reports as missing were sent the message, and
  every agent it was sent to that is not reported has acknowledged or closed; when the deadline
  comes first, all of them are reported.
\<close>

lemma wait_ends_soundly:
  assumes "broadcast_and_wait_acks msg sv w = (missing, w')"
    and "sent = fst (send_all msg (agent_fds sv) w)"
  shows "set missing \<subseteq> set sent \<and> set sent \<subseteq> set (agent_fds sv) \<and>
    (\<forall>fd \<in> set sent - set missing. answered fd (polls w)) \<and>
    (\<forall>rs. polls w = Deadline # rs \<longrightarrow> missing = sent)"
proof -
  have m: "missing = fst (wait_acks sent (polls w))"
    using assms by (simp add: broadcast_and_wait_acks_def split_beta frame)
  have dl: "fst (wait_acks p (Deadline # rs)) = p" for p rs by (cases p) simp_all
  show ?thesis
    using wait_acks_subset [of sent "polls w"] send_all_subset [of msg "agent_fds sv" w]
      wait_acks_answered [of _ sent "polls w"] dl assms(2) by (auto simp: m)
qed

end
