(* ===== verification/Hw_Events.thy ===== *)
theory Hw_Events
  imports World "HOL-Library.Multiset"
begin

unbundle bit_operations_syntax

text \<open>
  \<open>src/daemon/hw_event_monitor.cpp\<close>: lid, power and sleep button events from the input
  devices, and running the configured action.  The numbers are those of
  \<open>linux/input-event-codes.h\<close>.
\<close>

datatype hw_event = LidClose | LidOpen | PowerButton | SleepButton

record input_event =
  ev_type :: nat
  ev_code :: nat
  ev_value :: int

definition EV_KEY :: nat where "EV_KEY = 1"
definition EV_SW :: nat where "EV_SW = 5"
definition SW_LID :: nat where "SW_LID = 0"
definition KEY_POWER :: nat where "KEY_POWER = 116"
definition KEY_SLEEP :: nat where "KEY_SLEEP = 142"

text \<open>
  \<open>init\<close>: each directory entry with the descriptor \<open>open\<close> returns and the event bits the
  device reports (\<open>None\<close> if the query fails).  The result, the watched descriptors, and
  the ones closed again.
\<close>

definition suitable :: "u64 option \<Rightarrow> bool" where
  "suitable bits = (case bits of None \<Rightarrow> False
     | Some b \<Rightarrow> b AND push_bit EV_SW 1 \<noteq> 0 \<or> b AND push_bit EV_KEY 1 \<noteq> 0)"

fun scan_devices :: "(string \<times> int \<times> u64 option) list \<Rightarrow> int list \<times> int list" where
  "scan_devices [] = ([], [])"
| "scan_devices ((name, fd, bits) # ds) =
     (let (watched, closed) = scan_devices ds
      in if take 5 name \<noteq> ''event'' \<or> fd < 0 then (watched, closed)
         else if suitable bits then (fd # watched, closed) else (watched, fd # closed))"

definition hw_init :: "int \<Rightarrow> (string \<times> int \<times> u64 option) list option \<Rightarrow> bool \<times> int list \<times> int list" where
  "hw_init epoll_fd entries =
     (if epoll_fd < 0 then (False, [], [])
      else (case entries of
              None \<Rightarrow> (False, [], [])
            | Some ds \<Rightarrow> let (watched, closed) = scan_devices ds in (watched \<noteq> [], watched, closed)))"

text \<open>The event one input record stands for, if any.\<close>

definition classify :: "input_event \<Rightarrow> hw_event option" where
  "classify ev =
     (if ev_type ev = EV_SW \<and> ev_code ev = SW_LID then
        Some (if ev_value ev \<noteq> 0 then LidClose else LidOpen)
      else if ev_type ev = EV_KEY \<and> ev_value ev = 1 then
        (if ev_code ev = KEY_POWER then Some PowerButton
         else if ev_code ev = KEY_SLEEP then Some SleepButton else None)
      else None)"

text \<open>\<open>poll\<close>: the events the callback is called with, over all readable devices in order.\<close>

definition hw_poll :: "input_event list list \<Rightarrow> hw_event list" where
  "hw_poll devices = List.map_filter classify (concat devices)"

definition hw_command :: "string \<Rightarrow> string option" where
  "hw_command action =
     (if action = ''suspend'' then Some ''systemctl suspend''
      else if action = ''hibernate'' then Some ''systemctl hibernate''
      else if action = ''hybrid-sleep'' then Some ''systemctl hybrid-sleep''
      else if action = ''poweroff'' then Some ''systemctl poweroff''
      else None)"

definition run_hw_action :: "string \<Rightarrow> world \<Rightarrow> world" where
  "run_hw_action action w =
     (if action = [] \<or> action = ''none'' \<or> action = ''ignore'' then w
      else (case hw_command action of None \<Rightarrow> w | Some cmd \<Rightarrow> run_system cmd w))"

definition known_commands :: "string set" where
  "known_commands = {''systemctl suspend'', ''systemctl hibernate'', ''systemctl hybrid-sleep'',
     ''systemctl poweroff''}"

lemma run_hw_action_cmds:
  "set (cmds (run_hw_action a w)) \<subseteq> set (cmds w) \<union> known_commands"
  by (auto simp: run_hw_action_def hw_command_def known_commands_def frame)

lemma run_hw_action_frame [frame]:
  "files (run_hw_action a w) = files w" "wire (run_hw_action a w) = wire w"
  "closed (run_hw_action a w) = closed w" "polls (run_hw_action a w) = polls w"
  "wscript (run_hw_action a w) = wscript w" "dirs (run_hw_action a w) = dirs w"
  "no_write (run_hw_action a w) = no_write w" "refuses (run_hw_action a w) = refuses w"
  by (simp_all add: run_hw_action_def frame split: option.splits)

lemma run_suspend: "run_hw_action ''suspend'' w = run_system ''systemctl suspend'' w"
  by (simp add: run_hw_action_def hw_command_def)

text \<open>Every descriptor opened by the scan is either watched or closed again.\<close>

lemma scan_devices_fds:
  "mset (fst (scan_devices ds)) + mset (snd (scan_devices ds)) =
    mset (map (\<lambda>(n, fd, b). fd) (filter (\<lambda>(n, fd, b). take 5 n = ''event'' \<and> 0 \<le> fd) ds))"
  by (induction ds) (auto simp: split_beta)

end
