(* ===== verification/Daemon.thy ===== *)
theory Daemon
  imports Config_Manager Battery Power_Manager Session_Tracker Server Hw_Events
begin

text \<open>
  \<open>src/daemon/daemon.cpp\<close>: the state of the daemon, its message handlers, the suspend
  sequence, the callbacks of its parts and the event loop.  A handler returns the exception
  it lets through, if any, next to the state it leaves: an exception that reaches the loop
  ends the daemon.  Logging is left out.
\<close>

section \<open>State\<close>

record agent_state =
  session_id :: string
  uid :: u32
  inhibits :: "string list"

record daemon =
  cm :: config_manager
  pm :: power
  sess :: sessions
  srv :: server
  hw_fd :: int
  epoll_fd :: int
  watched :: "int list"
  agents :: "(int \<times> agent_state) list"
  dimmed :: bool
  world :: world

type_synonym outcome = "exn option \<times> daemon"

text \<open>\<open>std::set<std::string>\<close>: a strictly increasing list.\<close>

definition set_insert :: "string \<Rightarrow> string list \<Rightarrow> string list" where
  "set_insert x xs = map fst (omap_put x () (map (\<lambda>y. (y, ())) xs))"

definition set_erase :: "string \<Rightarrow> string list \<Rightarrow> string list" where
  "set_erase x xs = filter (\<lambda>y. y \<noteq> x) xs"

text \<open>The epoll set behind \<open>epoll_fd\<close>.  A call that fails only leads to a warning.\<close>

definition epoll_add :: "int \<Rightarrow> daemon \<Rightarrow> daemon" where
  "epoll_add fd d =
     (if fd < 0 then d else d\<lparr>watched := epoll_ctl_add (epoll_fd d) fd (watched d)\<rparr>)"

definition epoll_del :: "int \<Rightarrow> daemon \<Rightarrow> daemon" where
  "epoll_del fd d = (if 0 \<le> fd then d\<lparr>watched := epoll_ctl_del fd (watched d)\<rparr> else d)"

definition d_active_profile :: "daemon \<Rightarrow> profile option" where
  "d_active_profile d = cm_active_profile (cm d)"

text \<open>\<open>Server::send\<close>, whose result the daemon's handlers ignore.\<close>

definition send :: "int \<Rightarrow> string \<Rightarrow> daemon \<Rightarrow> daemon" where
  "send fd msg d = d\<lparr>world := snd (send_line fd msg (world d))\<rparr>"

section \<open>Helpers\<close>

definition is_active_agent :: "int \<Rightarrow> daemon \<Rightarrow> bool" where
  "is_active_agent fd d =
     (case map_of (agents d) fd of None \<Rightarrow> False | Some a \<Rightarrow> is_active (sess d) (session_id a))"

definition has_any_inhibit :: "daemon \<Rightarrow> bool" where
  "has_any_inhibit d = list_ex (\<lambda>(fd, a). inhibits a \<noteq> []) (agents d)"

definition send_config :: "int \<Rightarrow> daemon \<Rightarrow> daemon" where
  "send_config fd d =
     (let p = d_active_profile d;
          dim_s = (case p of Some q \<Rightarrow> dim_timeout q | None \<Rightarrow> 0);
          sleep_s = (case p of Some q \<Rightarrow> sleep_timeout q | None \<Rightarrow> 0)
      in send fd (encode_config dim_s sleep_s) d)"

definition broadcast_config :: "daemon \<Rightarrow> daemon" where
  "broadcast_config d = fold send_config (map fst (agents d)) d"

definition lock_target :: "daemon \<Rightarrow> int option" where
  "lock_target d =
     (case List.find (\<lambda>(fd, a). is_active (sess d) (session_id a)) (agents d) of
        Some (fd, _) \<Rightarrow> Some fd
      | None \<Rightarrow> (case agents d of [(fd, _)] \<Rightarrow> Some fd | _ \<Rightarrow> None))"

definition send_lock_to_active_agent :: "daemon \<Rightarrow> daemon" where
  "send_lock_to_active_agent d =
     (case lock_target d of Some fd \<Rightarrow> send fd encode_lock d | None \<Rightarrow> d)"

definition do_suspend :: "string \<Rightarrow> daemon \<Rightarrow> daemon" where
  "do_suspend action d =
     (let d1 = send_lock_to_active_agent d;
          (_, w) = broadcast_and_wait_acks encode_pre_sleep (srv d1) (world d1)
      in d1\<lparr>world := run_hw_action action w\<rparr>)"

section \<open>Callbacks\<close>

text \<open>The configuration manager's \<open>on_change\<close>.\<close>

definition on_change :: "daemon \<Rightarrow> outcome" where
  "on_change d =
     (case d_active_profile d of
        None \<Rightarrow> (None, broadcast_config d)
      | Some p \<Rightarrow>
          let (e, w) = apply_profile p (world d); d1 = d\<lparr>world := w\<rparr>
          in (case e of Some _ \<Rightarrow> (e, d1) | None \<Rightarrow> (None, broadcast_config d1)))"

definition reload_config :: "daemon \<Rightarrow> outcome" where
  "reload_config d =
     (case cm_reload (world d) (cm d) of
        Inl e \<Rightarrow> (Some e, d)
      | Inr c \<Rightarrow> on_change (d\<lparr>cm := c\<rparr>))"

definition set_active :: "string \<Rightarrow> daemon \<Rightarrow> bool \<times> outcome" where
  "set_active name d =
     (let (ok, c, w) = cm_set_active name (cm d) (world d)
      in if \<not> ok then (False, None, d) else (True, on_change (d\<lparr>cm := c, world := w\<rparr>)))"

text \<open>The hardware monitor's callback.\<close>

definition on_hw_event :: "hw_event \<Rightarrow> daemon \<Rightarrow> daemon" where
  "on_hw_event e d =
     (case d_active_profile d of
        None \<Rightarrow> d
      | Some p \<Rightarrow>
          let action = (case e of LidClose \<Rightarrow> lid_close_action p
                        | PowerButton \<Rightarrow> power_button_action p
                        | SleepButton \<Rightarrow> sleep_button_action p
                        | LidOpen \<Rightarrow> [])
          in if action \<noteq> [] \<and> action \<noteq> ''none'' then
               (if action = ''suspend'' \<or> action = ''hibernate'' \<or> action = ''hybrid-sleep''
                then do_suspend action d
                else d\<lparr>world := run_hw_action action (world d)\<rparr>)
             else d)"

section \<open>Messages from agents\<close>

definition on_hello :: "int \<Rightarrow> json \<Rightarrow> daemon \<Rightarrow> daemon" where
  "on_hello fd msg d =
     send_config fd (d\<lparr>agents := umap_put fd
        \<lparr>session_id = str msg ''session_id'' [], uid = ucast (num msg ''uid'' 0), inhibits = []\<rparr>
        (agents d)\<rparr>)"

definition on_idle_dim :: "int \<Rightarrow> daemon \<Rightarrow> outcome" where
  "on_idle_dim fd d =
     (if \<not> is_active_agent fd d then (None, d)
      else if has_any_inhibit d then (None, d)
      else if dimmed d then (None, d)
      else (case d_active_profile d of
              None \<Rightarrow> (None, d)
            | Some p \<Rightarrow>
                let (e, q, w) = dim p (pm d) (world d); d1 = d\<lparr>pm := q, world := w\<rparr>
                in (case e of Some _ \<Rightarrow> (e, d1) | None \<Rightarrow> (None, d1\<lparr>dimmed := True\<rparr>))))"

definition on_idle_sleep :: "int \<Rightarrow> daemon \<Rightarrow> daemon" where
  "on_idle_sleep fd d =
     (if \<not> is_active_agent fd d then d
      else if has_any_inhibit d then d
      else (case d_active_profile d of
              None \<Rightarrow> d
            | Some p \<Rightarrow> if sint (sleep_timeout p) \<le> 0 then d else do_suspend ''suspend'' d))"

definition on_active :: "int \<Rightarrow> daemon \<Rightarrow> outcome" where
  "on_active fd d =
     (if \<not> is_active_agent fd d then (None, d)
      else if \<not> dimmed d then (None, d)
      else (case d_active_profile d of
              None \<Rightarrow> (None, d)
            | Some p \<Rightarrow>
                let (e, q, w) = undim p (pm d) (world d); d1 = d\<lparr>pm := q, world := w\<rparr>
                in (case e of Some _ \<Rightarrow> (e, d1) | None \<Rightarrow> (None, d1\<lparr>dimmed := False\<rparr>))))"

definition on_inhibit :: "int \<Rightarrow> json \<Rightarrow> daemon \<Rightarrow> daemon" where
  "on_inhibit fd msg d =
     (case map_of (agents d) fd of
        None \<Rightarrow> d
      | Some a \<Rightarrow>
          send fd encode_ack (d\<lparr>agents := umap_put fd
            (a\<lparr>inhibits := set_insert (str msg ''reason'' []) (inhibits a)\<rparr>) (agents d)\<rparr>))"

definition on_uninhibit :: "int \<Rightarrow> json \<Rightarrow> daemon \<Rightarrow> daemon" where
  "on_uninhibit fd msg d =
     (case map_of (agents d) fd of
        None \<Rightarrow> d
      | Some a \<Rightarrow>
          send fd encode_ack (d\<lparr>agents := umap_put fd
            (a\<lparr>inhibits := set_erase (str msg ''reason'' []) (inhibits a)\<rparr>) (agents d)\<rparr>))"

section \<open>Commands from the control tool\<close>

text \<open>An object built by assigning fields in order.\<close>

definition reply_fields :: "(string \<times> json) list \<Rightarrow> json" where
  "reply_fields kvs = fold (\<lambda>(k, x) v. assign v k x) kvs JNull"

definition status_reply :: "daemon \<Rightarrow> json" where
  "status_reply d =
     (let bat = battery_read (files (world d))
      in reply_fields [(''ok'', JBool True),
           (''active_profile'', JString (m_active (cm d))),
           (''dimmed'', JBool (dimmed d)),
           (''active_session'', JString (m_active_session_id (sess d))),
           (''battery_status'', JString (status_string (bat_status bat))),
           (''battery_percent'', JInt (to_i64 (percent bat)))])"

definition profiles_reply :: "daemon \<Rightarrow> json" where
  "profiles_reply d = reply_fields [(''ok'', JBool True),
     (''profiles'', JArray (map (\<lambda>p. JString (prof_name p)) (profiles (m_config (cm d)))))]"

definition inhibitors :: "daemon \<Rightarrow> string list" where
  "inhibitors d = concat (map (\<lambda>(fd, a). map
     (\<lambda>r. if session_id a = [] then r else session_id a @ '': '' @ r) (inhibits a)) (agents d))"

definition inhibitors_reply :: "daemon \<Rightarrow> json" where
  "inhibitors_reply d = reply_fields [(''ok'', JBool True),
     (''inhibitors'', JArray (map JString (inhibitors d)))]"

definition battery_reply :: "daemon \<Rightarrow> json" where
  "battery_reply d =
     (let bat = battery_read (files (world d));
          opt = (\<lambda>k x. case x of Some n \<Rightarrow> [(k, JInt (to_i64 n))] | None \<Rightarrow> [])
      in reply_fields ([(''ok'', JBool True), (''present'', JBool (present bat)),
           (''status'', JString (status_string (bat_status bat)))] @
           (if present bat then [(''percent'', JInt (to_i64 (percent bat)))] @
              opt ''time_to_empty_min'' (time_to_empty_min bat) @
              opt ''time_to_full_min'' (time_to_full_min bat) else [])))"

definition ok_reply :: json where
  "ok_reply = reply_fields [(''ok'', JBool True)]"

definition error_reply :: "string \<Rightarrow> json" where
  "error_reply e = reply_fields [(''ok'', JBool False), (''error'', JString e)]"

definition on_ctl :: "int \<Rightarrow> json \<Rightarrow> daemon \<Rightarrow> outcome" where
  "on_ctl fd msg d =
     (let cmd = str msg ''cmd'' []
      in if cmd = ''status'' then (None, send fd (encode_ctl_reply (status_reply d)) d)
         else if cmd = ''set_profile'' then
           (let name = str msg ''profile'' []; (ok, e, d1) = set_active name d
            in (case e of
                  Some _ \<Rightarrow> (e, d1)
                | None \<Rightarrow> (None, send fd (encode_ctl_reply
                     (if ok then ok_reply else error_reply (''profile not found: '' @ name))) d1)))
         else if cmd = ''list_profiles'' then
           (None, send fd (encode_ctl_reply (profiles_reply d)) d)
         else if cmd = ''lock'' then
           (None, send fd (encode_ctl_reply ok_reply) (send_lock_to_active_agent d))
         else if cmd = ''list_inhibitors'' then
           (None, send fd (encode_ctl_reply (inhibitors_reply d)) d)
         else if cmd = ''reload_config'' then
           (case reload_config d of
              (None, d1) \<Rightarrow> (None, send fd (encode_ctl_reply ok_reply) d1)
            | (Some e, d1) \<Rightarrow> (None, send fd (encode_ctl_reply (error_reply (what e))) d1))
         else if cmd = ''battery'' then
           (None, send fd (encode_ctl_reply (battery_reply d)) d)
         else (None, send fd (encode_ctl_reply (error_reply (''unknown command: '' @ cmd))) d))"

section \<open>Dispatch\<close>

text \<open>\<open>Server::close_client\<close>; the kernel takes a closed descriptor out of the epoll set.\<close>

definition drop_client :: "int \<Rightarrow> daemon \<Rightarrow> daemon" where
  "drop_client fd d =
     (let (sv, w) = close_client fd (srv d) (world d)
      in d\<lparr>srv := sv, world := w, watched := epoll_ctl_del fd (watched d)\<rparr>)"

definition dispatch :: "int \<Rightarrow> json \<Rightarrow> daemon \<Rightarrow> outcome" where
  "dispatch fd msg d =
     (let type = msg_type msg
      in if type = T_HELLO then (None, on_hello fd msg d)
         else if type = T_CTL then on_ctl fd msg d
         else if map_of (agents d) fd = None then (None, d)
         else if type = T_IDLE_DIM then on_idle_dim fd d
         else if type = T_IDLE_SLEEP then (None, on_idle_sleep fd d)
         else if type = T_ACTIVE then on_active fd d
         else if type = T_INHIBIT then (None, on_inhibit fd msg d)
         else if type = T_UNINHIBIT then (None, on_uninhibit fd msg d)
         else (None, d))"

definition on_line :: "int \<Rightarrow> string \<Rightarrow> daemon \<Rightarrow> outcome" where
  "on_line fd line d =
     (case decode line of
        Inl _ \<Rightarrow> (None, epoll_del fd (drop_client fd d))
      | Inr msg \<Rightarrow> dispatch fd msg d)"

definition on_disconnect :: "int \<Rightarrow> daemon \<Rightarrow> daemon" where
  "on_disconnect fd d = epoll_del fd (d\<lparr>agents := umap_erase fd (agents d)\<rparr>)"

text \<open>\<open>Server::handle_client\<close> with the daemon's callbacks: the lines in order, then the end.\<close>

fun handle_lines :: "int \<Rightarrow> string list \<Rightarrow> daemon \<Rightarrow> outcome" where
  "handle_lines fd [] d = (None, d)"
| "handle_lines fd (l # ls) d =
     (if l = [] then handle_lines fd ls d
      else (case on_line fd l d of
              (Some e, d1) \<Rightarrow> (Some e, d1)
            | (None, d1) \<Rightarrow> handle_lines fd ls d1))"

definition handle_client :: "int \<Rightarrow> rd list \<Rightarrow> daemon \<Rightarrow> outcome" where
  "handle_client fd rs d =
     (case feed_client fd rs (srv d) of
        None \<Rightarrow> (None, d)
      | Some (ok, lines, sv) \<Rightarrow>
          (case handle_lines fd lines (d\<lparr>srv := sv\<rparr>) of
             (Some e, d1) \<Rightarrow> (Some e, d1)
           | (None, d1) \<Rightarrow> (None, if \<not> ok then drop_client fd (on_disconnect fd d1) else d1)))"

section \<open>The loop\<close>

text \<open>
  A ready descriptor with what the calls made for it will return: the descriptor
  \<open>accept4\<close> gives, what can be read from a client, the input records of the readable
  devices.
\<close>

record ready =
  ready_fd :: int
  accepted :: int
  reads :: "rd list"
  inputs :: "input_event list list"

definition admit :: "int \<Rightarrow> daemon \<Rightarrow> daemon" where
  "admit fd d =
     (let (client, sv) = accept_client fd (srv d); d1 = d\<lparr>srv := sv\<rparr>
      in if 0 \<le> client then epoll_add client d1 else d1)"

definition handle_ready :: "ready \<Rightarrow> daemon \<Rightarrow> outcome" where
  "handle_ready r d =
     (if is_listen_fd (srv d) (ready_fd r) then
        (None, admit (accepted r) d)
      else if has_fd (srv d) (ready_fd r) then handle_client (ready_fd r) (reads r) d
      else if ready_fd r = hw_fd d then (None, fold on_hw_event (hw_poll (inputs r)) d)
      else (None, d))"

fun handle_all :: "ready list \<Rightarrow> daemon \<Rightarrow> outcome" where
  "handle_all [] d = (None, d)"
| "handle_all (r # rs) d =
     (case handle_ready r d of
        (Some e, d1) \<Rightarrow> (Some e, d1)
      | (None, d1) \<Rightarrow> handle_all rs d1)"

text \<open>The epoll set apart, what adding and removing leave alone.\<close>

lemma epoll_frame [simp]:
  "cm (epoll_add fd d) = cm d" "pm (epoll_add fd d) = pm d" "sess (epoll_add fd d) = sess d"
  "srv (epoll_add fd d) = srv d" "hw_fd (epoll_add fd d) = hw_fd d" "agents (epoll_add fd d) = agents d"
  "dimmed (epoll_add fd d) = dimmed d" "world (epoll_add fd d) = world d" "epoll_fd (epoll_add fd d) = epoll_fd d"
  "cm (epoll_del fd d) = cm d" "pm (epoll_del fd d) = pm d" "sess (epoll_del fd d) = sess d"
  "srv (epoll_del fd d) = srv d" "hw_fd (epoll_del fd d) = hw_fd d" "agents (epoll_del fd d) = agents d"
  "dimmed (epoll_del fd d) = dimmed d" "world (epoll_del fd d) = world d" "epoll_fd (epoll_del fd d) = epoll_fd d"
  by (simp_all add: epoll_add_def epoll_del_def)

lemma drop_client_fields [simp]:
  "cm (drop_client fd d) = cm d" "pm (drop_client fd d) = pm d" "sess (drop_client fd d) = sess d"
  "srv (drop_client fd d) = fst (close_client fd (srv d) (world d))" "hw_fd (drop_client fd d) = hw_fd d"
  "agents (drop_client fd d) = agents d" "dimmed (drop_client fd d) = dimmed d"
  "world (drop_client fd d) = close_fd fd (world d)" "epoll_fd (drop_client fd d) = epoll_fd d"
  by (simp_all add: drop_client_def close_client_def)

lemma on_disconnect_fields [simp]:
  "cm (on_disconnect fd d) = cm d" "sess (on_disconnect fd d) = sess d" "srv (on_disconnect fd d) = srv d"
  "agents (on_disconnect fd d) = umap_erase fd (agents d)" "dimmed (on_disconnect fd d) = dimmed d"
  "world (on_disconnect fd d) = world d" "hw_fd (on_disconnect fd d) = hw_fd d"
  "epoll_fd (on_disconnect fd d) = epoll_fd d"
  by (simp_all add: on_disconnect_def)

lemma admit_fields [simp]:
  "cm (admit fd d) = cm d" "sess (admit fd d) = sess d" "srv (admit fd d) = snd (accept_client fd (srv d))"
  "agents (admit fd d) = agents d" "dimmed (admit fd d) = dimmed d" "world (admit fd d) = world d"
  "hw_fd (admit fd d) = hw_fd d" "epoll_fd (admit fd d) = epoll_fd d"
  by (simp_all add: admit_def Let_def split_beta)

text \<open>One turn of the loop: the pending bus signals, then the ready descriptors.\<close>

definition turn :: "seat_signal list \<Rightarrow> ready list \<Rightarrow> daemon \<Rightarrow> outcome" where
  "turn sigs rs d = handle_all rs (d\<lparr>sess := sessions_poll sigs (sess d)\<rparr>)"

section \<open>Start\<close>

text \<open>
  \<open>setup\<close> for what the environment answers: the bus (whether it opens, seat0's path, its
  active session), the listening descriptor, the input monitor's, the bus's and what
  \<open>epoll_create1\<close> returns.
\<close>

definition watch_all :: "int \<Rightarrow> int \<Rightarrow> daemon \<Rightarrow> daemon" where
  "watch_all bus_desc epoll_desc d =
     (let d1 = d\<lparr>epoll_fd := epoll_desc\<rparr>
      in epoll_add (hw_fd d) (epoll_add (bus_fd bus_desc (sess d))
           (epoll_add (m_listen_fd (srv d)) d1)))"

lemma watch_all_fields [simp]:
  "cm (watch_all b ep d) = cm d" "sess (watch_all b ep d) = sess d" "srv (watch_all b ep d) = srv d"
  "agents (watch_all b ep d) = agents d" "dimmed (watch_all b ep d) = dimmed d" "world (watch_all b ep d) = world d"
  "hw_fd (watch_all b ep d) = hw_fd d" "epoll_fd (watch_all b ep d) = ep"
  by (simp_all add: watch_all_def Let_def)

definition daemon_setup :: "string \<Rightarrow> world \<Rightarrow> bool \<Rightarrow> string option option \<Rightarrow> string option option \<Rightarrow>
    int \<Rightarrow> int \<Rightarrow> int \<Rightarrow> int \<Rightarrow> daemon res" where
  "daemon_setup path w bus_ok get_seat property listen_fd input_fd bus_desc epoll_desc =
     (case cm_new w path of
        Inl e \<Rightarrow> Inl e
      | Inr c \<Rightarrow>
          let (_, st) = sessions_init bus_ok get_seat property new_sessions;
              (ok, sv) = server_init listen_fd new_server;
              d = \<lparr>cm = c, pm = new_power, sess = st, srv = sv, hw_fd = input_fd, epoll_fd = -1,
                   watched = [], agents = [], dimmed = False, world = w\<rparr>
          in if \<not> ok then Inl (Runtime_error ''cannot create server socket'')
             else (case d_active_profile d of
                     None \<Rightarrow> Inr (watch_all bus_desc epoll_desc d)
                   | Some p \<Rightarrow> (case apply_profile p w of
                                 (Some e, _) \<Rightarrow> Inl e
                               | (None, w1) \<Rightarrow>
                                   Inr (watch_all bus_desc epoll_desc (d\<lparr>world := w1\<rparr>)))))"

text \<open>
  The loop for the turns the environment offers; the process is told to quit when they run
  out.  \<open>run\<close> gives the exit code, and the state it ends in if \<open>setup\<close> came through.
\<close>

fun daemon_loop :: "(seat_signal list \<times> ready list) list \<Rightarrow> daemon \<Rightarrow> outcome" where
  "daemon_loop [] d = (None, d)"
| "daemon_loop ((sigs, rs) # ts) d =
     (case turn sigs rs d of
        (Some e, d1) \<Rightarrow> (Some e, d1)
      | (None, d1) \<Rightarrow> daemon_loop ts d1)"

definition daemon_run :: "daemon res \<Rightarrow> (seat_signal list \<times> ready list) list \<Rightarrow> int \<times> daemon option" where
  "daemon_run started ts =
     (case started of
        Inl e \<Rightarrow> (1, None)
      | Inr d \<Rightarrow> (case daemon_loop ts d of
                    (Some e, d1) \<Rightarrow> (1, Some d1)
                  | (None, d1) \<Rightarrow> (0, Some d1)))"

text \<open>The states the running daemon can be in.\<close>

inductive reachable :: "daemon \<Rightarrow> bool" where
  start: "daemon_setup path w bus_ok get_seat property listen_fd input_fd bus_desc epoll_desc = Inr d \<Longrightarrow> reachable d"
| step: "reachable d \<Longrightarrow> turn sigs rs d = (None, d') \<Longrightarrow> reachable d'"

end
