(* ===== verification/Daemon_Steps.thy ===== *)
theory Daemon_Steps
  imports Daemon "HOL-Library.Sublist"
begin

text \<open>
  Reasoning about all of the daemon's operations at once.  \<open>daemon_core\<close> is a relation between
  states that is reflexive, transitive and respected by the elementary updates the handlers
  are composed of; those that change one client's entry only for the clients in \<open>F\<close>.
  \<open>handler_rel\<close> adds the three operations that must tell the agents about the
  configuration, as a whole, and shows that every handler and callback that serves clients in
  \<open>F\<close> respects the relation; \<open>loop_rel\<close>, with the signals of the session bus, that every turn of
  the loop does.  \<open>update_rel\<close> and \<open>daemon_rel\<close> ask for the elementary updates of the three
  operations instead, and give \<open>handler_rel\<close> and \<open>loop_rel\<close>.

  \<open>daemon_rel\<close> is interpreted for the daemon's invariant, for what only grows (bytes sent,
  commands run, descriptors closed) and for the files left alone, with all clients as \<open>F\<close>,
  and for what serving one client leaves of another; \<open>update_rel\<close> for the session taken for
  active, which only the bus changes; \<open>loop_rel\<close> for what an agent has been told of the
  configuration.
\<close>

section \<open>Lines to the clients\<close>

text \<open>The timeouts a line carries, in seconds, when it is a configuration.\<close>

definition config_of :: "string \<Rightarrow> (i32 \<times> i32) option" where
  "config_of l = (case decode l of
     Inl e \<Rightarrow> None
   | Inr v \<Rightarrow> if msg_type v = T_CONFIG
             then Some (to_int (num v ''dim_timeout'' 0), to_int (num v ''sleep_timeout'' 0)) else None)"

definition plain_line :: "string \<Rightarrow> bool" where
  "plain_line l \<longleftrightarrow> CHR ''\<newline>'' \<notin> set l \<and> config_of l = None"

lemma config_of_config [simp]: "config_of (encode_config a b) = Some (a, b)"
  by (simp add: config_of_def)

text \<open>An object of fields without nested objects, as the handlers build it.\<close>

lemma fields_wf:
  "\<forall>(k, x) \<in> set kvs. wf_json x \<and> no_double x \<Longrightarrow>
    wf_json (reply_fields kvs) \<and> no_double (reply_fields kvs)"
proof -
  have "wf_json v \<Longrightarrow> no_double v \<Longrightarrow> \<forall>(k, x) \<in> set kvs. wf_json x \<and> no_double x \<Longrightarrow>
      wf_json (fold (\<lambda>(k, x) v. assign v k x) kvs v) \<and> no_double (fold (\<lambda>(k, x) v. assign v k x) kvs v)" for v
    by (induction kvs arbitrary: v) (auto simp: field_access)
  then show "\<forall>(k, x) \<in> set kvs. wf_json x \<and> no_double x \<Longrightarrow> ?thesis"
    by (simp add: reply_fields_def)
qed

lemma replies_wf:
  "wf_json (status_reply d) \<and> no_double (status_reply d)"
  "wf_json (profiles_reply d) \<and> no_double (profiles_reply d)"
  "wf_json (inhibitors_reply d) \<and> no_double (inhibitors_reply d)"
  "wf_json (battery_reply d) \<and> no_double (battery_reply d)"
  "wf_json ok_reply \<and> no_double ok_reply"
  "wf_json (error_reply m) \<and> no_double (error_reply m)"
  unfolding status_reply_def profiles_reply_def inhibitors_reply_def battery_reply_def ok_reply_def
    error_reply_def Let_def
  by (rule fields_wf, force split: option.splits if_splits)+

lemma reply_plain: "wf_json v \<and> no_double v \<Longrightarrow> plain_line (encode_ctl_reply v)"
  by (simp add: plain_line_def config_of_def decode_ctl_reply framing msg_type_def field_access
      message_types)

lemma plain_lines [simp]:
  "plain_line encode_lock" "plain_line encode_ack" "plain_line encode_pre_sleep"
  "plain_line (encode_ctl_reply (status_reply d))" "plain_line (encode_ctl_reply (profiles_reply d))"
  "plain_line (encode_ctl_reply (inhibitors_reply d))" "plain_line (encode_ctl_reply (battery_reply d))"
  "plain_line (encode_ctl_reply ok_reply)" "plain_line (encode_ctl_reply (error_reply m))"
  by (simp_all add: reply_plain replies_wf)
    (simp_all add: plain_line_def config_of_def framing message_types)

section \<open>The interfaces\<close>

locale daemon_core =
  fixes F :: "int set" and A :: "int set" and R :: "daemon \<Rightarrow> daemon \<Rightarrow> bool"
  assumes refl [simp, intro]: "R d d"
    and trans: "R d1 d2 \<Longrightarrow> R d2 d3 \<Longrightarrow> R d1 d3"
    and send: "plain_line msg \<Longrightarrow> R d (send fd msg d)"
    and power: "same_env (world d) w \<Longrightarrow> R d (d\<lparr>pm := q, world := w\<rparr>)"
    and dimmed [simp, intro]: "R d (d\<lparr>dimmed := v\<rparr>)"
    and action [simp, intro]: "R d (d\<lparr>world := run_hw_action act (world d)\<rparr>)"
    and wait: "broadcast_and_wait_acks encode_pre_sleep (srv d) (world d) = (m, w) \<Longrightarrow> R d (d\<lparr>world := w\<rparr>)"
    and inhibits_put: "fd \<in> F \<Longrightarrow> map_of (agents d) fd = Some a \<Longrightarrow>
      R d (d\<lparr>agents := umap_put fd (a\<lparr>inhibits := s\<rparr>) (agents d)\<rparr>)"
    and accept: "fd \<in> A \<Longrightarrow> R d (admit fd d)"
    and fed: "feed_client fd rs (srv d) = Some (ok, ls, sv) \<Longrightarrow> fd \<in> F \<Longrightarrow> R d (d\<lparr>srv := sv\<rparr>)"
    and malformed: "fd \<in> F \<Longrightarrow> R d (epoll_del fd (drop_client fd d))"
    and ended: "fd \<in> F \<Longrightarrow> R d (drop_client fd (on_disconnect fd d))"
begin

lemma power_world: "same_env (world d) w \<Longrightarrow> R d (d\<lparr>world := w\<rparr>)"
  using power [of d w "pm d"] by simp

lemma fold_rel: "(\<And>x d. R d (f x d)) \<Longrightarrow> R d (fold f xs d)"
  by (induction xs arbitrary: d) (auto intro: trans)

end

locale handler_rel = daemon_core +
  assumes reload_rel: "reload_config d = (e, d') \<Longrightarrow> R d d'"
    and set_active_rel: "set_active n d = (ok, e, d') \<Longrightarrow> R d d'"
    and hello_rel [simp, intro]: "fd \<in> F \<Longrightarrow> R d (on_hello fd msg d)"
begin

lemma lock_rel [simp, intro]: "R d (send_lock_to_active_agent d)"
  by (simp add: send_lock_to_active_agent_def send split: option.splits)

lemma do_suspend_rel [simp, intro]: "R d (do_suspend a d)"
proof -
  define d1 where "d1 = send_lock_to_active_agent d"
  obtain m w where w: "broadcast_and_wait_acks encode_pre_sleep (srv d1) (world d1) = (m, w)"
    by fastforce
  have "srv d1 = srv d"
    by (simp add: d1_def send_lock_to_active_agent_def send_def split: option.splits)
  then have "do_suspend a d = d1\<lparr>world := run_hw_action a w\<rparr>"
    using w by (simp add: do_suspend_def Let_def split_beta flip: d1_def)
  moreover have "R d d1" by (simp add: d1_def)
  moreover have "R d1 (d1\<lparr>world := w\<rparr>)" by (rule wait [OF w])
  moreover have "R (d1\<lparr>world := w\<rparr>) (d1\<lparr>world := run_hw_action a w\<rparr>)"
    using action [of "d1\<lparr>world := w\<rparr>" a] by simp
  ultimately show ?thesis by (metis trans)
qed

lemma hw_event_rel [simp, intro]: "R d (on_hw_event e d)"
  by (simp add: on_hw_event_def Let_def split: option.splits)

lemma idle_dim_rel: "on_idle_dim fd d = (e, d') \<Longrightarrow> R d d'"
  by (auto simp: on_idle_dim_def Let_def split: option.splits prod.splits if_splits
      intro: power [OF same_env_dim] trans [OF power [OF same_env_dim] dimmed])

lemma idle_sleep_rel [simp, intro]: "R d (on_idle_sleep fd d)"
  by (simp add: on_idle_sleep_def split: option.splits)

lemma active_rel: "on_active fd d = (e, d') \<Longrightarrow> R d d'"
  by (auto simp: on_active_def Let_def split: option.splits prod.splits if_splits
      intro: power [OF same_env_undim] trans [OF power [OF same_env_undim] dimmed])

lemma inhibit_rel [simp, intro]:
  "fd \<in> F \<Longrightarrow> R d (on_inhibit fd msg d)" "fd \<in> F \<Longrightarrow> R d (on_uninhibit fd msg d)"
  by (auto simp: on_inhibit_def on_uninhibit_def split: option.splits
      intro: trans [OF inhibits_put send])

lemma ctl_rel: "on_ctl fd msg d = (e, d') \<Longrightarrow> R d d'"
  by (auto simp: on_ctl_def Let_def split: option.splits prod.splits if_splits
      intro: send trans [OF lock_rel send] trans [OF reload_rel send] trans [OF set_active_rel send]
        set_active_rel)

lemma dispatch_rel: "dispatch fd msg d = (e, d') \<Longrightarrow> fd \<in> F \<Longrightarrow> R d d'"
  by (auto simp: dispatch_def Let_def split: if_splits intro: ctl_rel idle_dim_rel active_rel)

lemma on_line_rel: "on_line fd l d = (e, d') \<Longrightarrow> fd \<in> F \<Longrightarrow> R d d'"
  by (auto simp: on_line_def split: sum.splits intro: dispatch_rel malformed)

lemma handle_lines_rel: "handle_lines fd ls d = (e, d') \<Longrightarrow> fd \<in> F \<Longrightarrow> R d d'"
  by (induction fd ls d rule: handle_lines.induct)
    (auto split: if_splits prod.splits option.splits intro: trans [OF on_line_rel] on_line_rel)

lemma handle_client_rel: "handle_client fd rs d = (e, d') \<Longrightarrow> fd \<in> F \<Longrightarrow> R d d'"
  by (auto simp: handle_client_def split: option.splits prod.splits if_splits
      intro: trans [OF fed handle_lines_rel]
        trans [OF trans [OF fed handle_lines_rel] ended])

text \<open>A ready descriptor counts as served when it is a client's.\<close>

lemma handle_ready_rel:
  "handle_ready r d = (e, d') \<Longrightarrow> has_fd (srv d) (ready_fd r) \<longrightarrow> ready_fd r \<in> F \<Longrightarrow> accepted r \<in> A \<Longrightarrow> R d d'"
  by (auto simp: handle_ready_def split: if_splits intro: handle_client_rel fold_rel accept)

definition served :: "ready \<Rightarrow> bool" where
  [simp]: "served r \<longleftrightarrow> ready_fd r \<in> F \<and> accepted r \<in> A"

lemma handle_all_rel: "handle_all rs d = (e, d') \<Longrightarrow> \<forall>r \<in> set rs. served r \<Longrightarrow> R d d'"
  by (induction rs d rule: handle_all.induct)
    (auto simp: served_def split: prod.splits option.splits intro: trans [OF handle_ready_rel] handle_ready_rel)

end

text \<open>With the session bus between the handlers: a turn, and the loop.\<close>

locale loop_rel = handler_rel +
  assumes bus [simp, intro]: "R d (d\<lparr>sess := st\<rparr>)"
begin

lemma turn_rel: "turn sigs rs d = (e, d') \<Longrightarrow> \<forall>r \<in> set rs. served r \<Longrightarrow> R d d'"
  unfolding turn_def by (rule trans [OF bus handle_all_rel])

lemma loop_rel:
  "daemon_loop ts d = (e, d') \<Longrightarrow> \<forall>(sigs, rs) \<in> set ts. \<forall>r \<in> set rs. served r \<Longrightarrow> R d d'"
  by (induction ts d rule: daemon_loop.induct)
    (auto split: prod.splits option.splits intro: turn_rel trans [OF turn_rel])

end

locale update_rel = daemon_core +
  assumes send_timeouts: "R d (send fd (encode_config a b) d)"
    and config: "cm_reload (world d) (cm d) = Inr c \<Longrightarrow> R d (d\<lparr>cm := c\<rparr>)"
    and active: "cm_set_active n (cm d) (world d) = (True, c, w) \<Longrightarrow> R d (d\<lparr>cm := c, world := w\<rparr>)"
    and register: "fd \<in> F \<Longrightarrow> R d (d\<lparr>agents := umap_put fd ag (agents d)\<rparr>)"
begin

lemma send_config_rel [simp, intro]: "R d (send_config fd d)"
  by (simp add: send_config_def Let_def send_timeouts)

lemma broadcast_config_rel [simp, intro]: "R d (broadcast_config d)"
  by (simp add: broadcast_config_def fold_rel)

lemma on_change_rel: "on_change d = (e, d') \<Longrightarrow> R d d'"
  by (auto simp: on_change_def Let_def split: option.splits prod.splits
      intro: power_world [OF same_env_apply] trans [OF power_world [OF same_env_apply]])

end

sublocale update_rel \<subseteq> handler_rel F A R
proof (unfold_locales, goal_cases)
  case (1 d e d')
  then show ?case
    by (auto simp: reload_config_def split: sum.splits intro: trans [OF config on_change_rel])
next
  case (2 n d ok e d')
  then show ?case
    by (auto simp: set_active_def Let_def split: prod.splits if_splits
        intro: trans [OF active on_change_rel])
next
  case (3 fd d msg)
  then show ?case unfolding on_hello_def by (intro trans [OF register send_config_rel])
qed

locale daemon_rel = update_rel +
  assumes signals: "R d (d\<lparr>sess := st\<rparr>)"

sublocale daemon_rel \<subseteq> loop_rel F A R
  by unfold_locales (rule signals)

end
