(* ===== verification/Daemon_Props.thy ===== *)
theory Daemon_Props
  imports Daemon_Steps
begin

text \<open>
  What the daemon guarantees.  First the three interpretations of \<open>daemon_rel\<close>, then the
  handlers one by one: who may dim and suspend, what inhibitors do, how profiles and
  requests are answered, and what happens when a client misbehaves or goes away.
\<close>

section \<open>The invariant\<close>

definition daemon_ok :: "daemon \<Rightarrow> bool" where
  "daemon_ok d \<longleftrightarrow> umap_ok (agents d) \<and> cm_ok (cm d) \<and> conns_ok (srv d) \<and> unmarked (srv d)"

interpretation inv: daemon_rel UNIV UNIV "\<lambda>d d'. daemon_ok d \<longrightarrow> daemon_ok d'"
proof (unfold_locales, goal_cases)
  case (14 d c)
  then show ?case by (auto simp: daemon_ok_def dest: cm_reload_ok)
next
  case (15 n d c w)
  then show ?case using cm_set_active_ok [of "cm d" n "world d"] by (auto simp: daemon_ok_def)
next
  case (9 fd d)
  then show ?case by (simp add: daemon_ok_def server_inv_accept)
next
  case (10 fd rs d ok ls sv)
  then show ?case using server_inv_feed [of "srv d" fd rs ok ls sv] by (simp add: daemon_ok_def)
next
  case (11 fd d)
  then show ?case using server_inv_close [of "srv d" fd "world d"] by (simp add: daemon_ok_def)
next
  case (12 fd d)
  then show ?case
    using server_inv_close [of "srv d" fd "world d"] by (simp add: daemon_ok_def umap.ok_erase)
qed (auto simp: daemon_ok_def send_def umap.ok_put)

text \<open>What only grows, and by what.\<close>

definition grows :: "daemon \<Rightarrow> daemon \<Rightarrow> bool" where
  "grows d d' \<longleftrightarrow> prefix (wire (world d)) (wire (world d')) \<and>
     prefix (closed (world d)) (closed (world d')) \<and>
     (\<exists>cs. cmds (world d') = cmds (world d) @ cs \<and> set cs \<subseteq> known_commands)"

lemma send_line_grows: "prefix (wire w) (wire (snd (send_line fd m w)))"
  by (simp add: send_line_def split: prod.splits)

lemma send_all_grows: "prefix (wire w) (wire (snd (send_all m fds w)))"
  by (induction fds arbitrary: w) (auto simp: split_beta intro: prefix_order.trans send_line_grows)

lemma send_all_closed [frame]: "closed (snd (send_all m fds w)) = closed w"
  by (induction fds arbitrary: w) (simp_all add: split_beta frame)

lemma hw_action_grows:
  "\<exists>cs. cmds (run_hw_action a w) = cmds w @ cs \<and> set cs \<subseteq> known_commands"
  by (auto simp: run_hw_action_def hw_command_def known_commands_def frame)

interpretation grow: daemon_rel UNIV UNIV grows
proof (unfold_locales, goal_cases)
  case (2 d1 d2 d3)
  then show ?case by (fastforce simp: grows_def intro: prefix_order.trans)
next
  case (15 n d c w)
  then show ?case
    by (auto simp: grows_def cm_set_active_def Let_def frame split: option.splits)
next
  case (6 d a)
  then show ?case using hw_action_grows by (simp add: grows_def frame)
next
  case (7 d m w)
  then show ?case
    using send_all_grows
    by (auto simp: grows_def broadcast_and_wait_acks_def split_beta frame)
qed (auto simp: grows_def send_def same_env_def frame send_line_grows)

text \<open>The files left alone: all but the configuration file and sysfs nodes.\<close>

definition touches :: "daemon \<Rightarrow> daemon \<Rightarrow> bool" where
  "touches d d' \<longleftrightarrow> m_path (cm d') = m_path (cm d) \<and>
     (\<forall>p. \<not> sysfs p \<and> p \<noteq> m_path (cm d) \<longrightarrow> files (world d') p = files (world d) p)"

interpretation touch: daemon_rel UNIV UNIV touches
proof (unfold_locales, goal_cases)
  case (14 d c)
  then show ?case by (auto simp: touches_def cm_reload_def split: sum.splits)
next
  case (15 n d c w)
  then show ?case
    by (auto simp: touches_def cm_set_active_def Let_def persist_active_other split: option.splits)
next
  case (7 d m w)
  then show ?case using broadcast_frame(2) [of encode_pre_sleep "srv d" "world d"] by (simp add: touches_def)
qed (auto simp: touches_def send_def same_env_files frame)

section \<open>Reachable states\<close>

lemma setup_ok: "daemon_setup path w bus_ok get_seat property lfd ifd bfd efd = Inr d \<Longrightarrow> daemon_ok d"
  by (auto simp: daemon_setup_def Let_def cm_new_def daemon_ok_def server_init_def new_server_def
      conns_ok_def unmarked_def dest!: cm_reload_ok split: sum.splits prod.splits if_splits option.splits)

lemma reachable_ok: "reachable d \<Longrightarrow> daemon_ok d"
proof (induction rule: reachable.induct)
  case start
  then show ?case by (rule setup_ok)
next
  case (step d sigs rs d')
  then show ?case using inv.turn_rel [OF step(2)] by simp
qed

text \<open>They are the states between two turns of a run.\<close>

lemma loop_append:
  "daemon_loop (ts @ ts') d = (case daemon_loop ts d of (Some e, d1) \<Rightarrow> (Some e, d1) | (None, d1) \<Rightarrow> daemon_loop ts' d1)"
  by (induction ts d rule: daemon_loop.induct) (auto split: prod.splits option.splits)

lemma reachable_loop:
  assumes "reachable d'"
  shows "\<exists>path w bus_ok get_seat property lfd ifd bfd efd d ts.
    daemon_setup path w bus_ok get_seat property lfd ifd bfd efd = Inr d \<and> daemon_loop ts d = (None, d')"
  using assms
proof (induction rule: reachable.induct)
  case (start path w bus_ok get_seat property lfd ifd bfd efd d)
  moreover have "daemon_loop [] d = (None, d)" by simp
  ultimately show ?case by blast
next
  case (step d sigs rs d')
  then obtain path w bus_ok get_seat property lfd ifd bfd efd d0 ts where
    s: "daemon_setup path w bus_ok get_seat property lfd ifd bfd efd = Inr d0" and "daemon_loop ts d0 = (None, d)"
    by blast
  then have "daemon_loop (ts @ [(sigs, rs)]) d0 = (None, d')" using step(2) by (simp add: loop_append)
  then show ?case using s by blast
qed

section \<open>Sending\<close>

lemma send_fields [simp]:
  "agents (send fd m d) = agents d" "srv (send fd m d) = srv d" "sess (send fd m d) = sess d"
  "cm (send fd m d) = cm d" "pm (send fd m d) = pm d" "dimmed (send fd m d) = dimmed d"
  "hw_fd (send fd m d) = hw_fd d" "cmds (world (send fd m d)) = cmds (world d)"
  "files (world (send fd m d)) = files (world d)"
  by (simp_all add: send_def frame)

lemma send_healthy:
  "wscript (world d) fd = [] \<Longrightarrow>
    wire (world (send fd m d)) = wire (world d) @ [(fd, m @ ''\<newline>'')]"
  by (simp add: send_def send_line_healthy)

lemma send_healthy_world:
  "wscript (world d) fd = [] \<Longrightarrow>
    send fd m d = d\<lparr>world := (world d)\<lparr>wire := wire (world d) @ [(fd, m @ ''\<newline>'')]\<rparr>\<rparr>"
  by (simp add: send_def send_line_healthy)

lemma lock_fields [simp]:
  "agents (send_lock_to_active_agent d) = agents d" "srv (send_lock_to_active_agent d) = srv d"
  "sess (send_lock_to_active_agent d) = sess d" "cm (send_lock_to_active_agent d) = cm d"
  "cmds (world (send_lock_to_active_agent d)) = cmds (world d)"
  by (simp_all add: send_lock_to_active_agent_def split: option.splits)

lemma suspend_cmds: "cmds (world (do_suspend a d)) = cmds (run_hw_action a (world d))"
  by (simp add: do_suspend_def Let_def split_beta run_hw_action_def frame split: option.splits)

section \<open>Who may dim and suspend\<close>

lemma has_any_inhibit_iff:
  "has_any_inhibit d \<longleftrightarrow> (\<exists>(fd, a) \<in> set (agents d). inhibits a \<noteq> [])"
  by (auto simp: has_any_inhibit_def list_ex_iff)

lemma active_agent_registered: "is_active_agent fd d \<Longrightarrow> map_of (agents d) fd \<noteq> None"
  by (auto simp: is_active_agent_def split: option.splits)

text \<open>A message of each kind, as the agent encodes it, reaches its handler.\<close>

lemma on_line_idle_dim:
  "on_line fd encode_idle_dim d = (if map_of (agents d) fd = None then (None, d) else on_idle_dim fd d)"
  by (simp add: on_line_def dispatch_def message_types Let_def)

lemma on_line_idle_sleep:
  "on_line fd encode_idle_sleep d =
    (None, if map_of (agents d) fd = None then d else on_idle_sleep fd d)"
  by (simp add: on_line_def dispatch_def message_types Let_def)

lemma on_line_active:
  "on_line fd encode_active d = (if map_of (agents d) fd = None then (None, d) else on_active fd d)"
  by (simp add: on_line_def dispatch_def message_types Let_def)

lemma on_line_inhibit:
  "on_line fd (encode_inhibit r) d = (None, on_inhibit fd (reason_msg T_INHIBIT r) d)"
  by (simp add: on_line_def dispatch_def message_types on_inhibit_def Let_def split: option.splits)

lemma on_line_uninhibit:
  "on_line fd (encode_uninhibit r) d = (None, on_uninhibit fd (reason_msg T_UNINHIBIT r) d)"
  by (simp add: on_line_def dispatch_def message_types on_uninhibit_def Let_def split: option.splits)

lemma on_line_hello:
  "on_line fd (encode_hello s u) d = (None, on_hello fd (hello_msg s u) d)"
  by (simp add: on_line_def dispatch_def Let_def)

lemma on_line_ctl: "on_line fd (encode_ctl c p) d = on_ctl fd (ctl_msg c p) d"
  by (simp add: on_line_def dispatch_def message_types Let_def)

lemmas on_line_messages = on_line_idle_dim on_line_idle_sleep on_line_active on_line_inhibit
  on_line_uninhibit on_line_hello on_line_ctl

definition may_suspend :: "int \<Rightarrow> daemon \<Rightarrow> bool" where
  "may_suspend fd d \<longleftrightarrow> is_active_agent fd d \<and> \<not> has_any_inhibit d \<and>
     (case d_active_profile d of None \<Rightarrow> False | Some p \<Rightarrow> 0 < sint (sleep_timeout p))"

text \<open>What an \<open>idle_sleep\<close> line does, in every state.\<close>

lemma suspend_when:
  "fst (on_line fd encode_idle_sleep d) = None \<and>
   cmds (world (snd (on_line fd encode_idle_sleep d))) =
     cmds (world d) @ (if may_suspend fd d then [''systemctl suspend''] else []) \<and>
   (may_suspend fd d \<or> snd (on_line fd encode_idle_sleep d) = d)"
  using active_agent_registered [of fd d]
  by (auto simp: on_line_idle_sleep on_idle_sleep_def may_suspend_def suspend_cmds run_suspend frame
      split: option.splits)

text \<open>
  C1: an \<open>idle_sleep\<close> line runs the suspend command if its sender is
  the agent of the active session, no agent holds an inhibitor and the active profile has a
  positive sleep timeout; otherwise it runs nothing at all and leaves the state as it was.
\<close>

theorem suspend_exactly_when:
  "fst (on_line fd encode_idle_sleep d) = None \<and>
   cmds (world (snd (on_line fd encode_idle_sleep d))) =
     cmds (world d) @ (if may_suspend fd d then [''systemctl suspend''] else []) \<and>
   (may_suspend fd d \<or> snd (on_line fd encode_idle_sleep d) = d)"
  by (rule suspend_when)

definition may_dim :: "int \<Rightarrow> daemon \<Rightarrow> bool" where
  "may_dim fd d \<longleftrightarrow> is_active_agent fd d \<and> \<not> has_any_inhibit d \<and> \<not> dimmed d \<and>
     d_active_profile d \<noteq> None"

lemma not_may_dim: "\<not> may_dim fd d \<Longrightarrow> on_line fd encode_idle_dim d = (None, d)"
  by (auto simp: on_line_idle_dim on_idle_dim_def may_dim_def split: option.splits)

text \<open>What dimming and restoring keep, so that rounds can be chained.\<close>

definition same_policy :: "daemon \<Rightarrow> daemon \<Rightarrow> bool" where
  "same_policy d d' \<longleftrightarrow> agents d' = agents d \<and> sess d' = sess d \<and> cm d' = cm d \<and> srv d' = srv d"

lemma same_policy_gates:
  assumes "same_policy d d'"
  shows "is_active_agent fd d' = is_active_agent fd d" "has_any_inhibit d' = has_any_inhibit d"
    "d_active_profile d' = d_active_profile d"
  using assms
  by (auto simp: same_policy_def is_active_agent_def has_any_inhibit_def d_active_profile_def
      cong: option.case_cong)

lemma dim_round:
  assumes b: "backlight (world d) base m c" and may: "may_dim fd d"
    and p: "d_active_profile d = Some p"
    and pct: "0 \<le> sint (dim_brightness_percent p)" "sint (dim_brightness_percent p) \<le> 100"
    and d1: "on_line fd encode_idle_dim d = (e1, d1)"
    and d2: "on_line fd encode_active d1 = (e2, d2)"
  shows "e1 = None" "dimmed d1"
    "backlight (world d1) base m (m * sint (dim_brightness_percent p) div 100)"
    "e2 = None" "\<not> dimmed d2" "backlight (world d2) base m (restored m c)"
    "same_policy d d2"
proof -
  have act: "is_active_agent fd d" "\<not> has_any_inhibit d" "\<not> dimmed d" using may by (auto simp: may_dim_def)
  note reg = active_agent_registered [OF act(1)]
  obtain e q w where dm: "dim p (pm d) (world d) = (e, q, w)" by (metis prod_cases3)
  obtain e' q' w' where um: "undim p q w = (e', q', w')" by (metis prod_cases3)
  note du = dim_then_undim [OF b pct dm um]
  have 1: "e1 = None" "d1 = d\<lparr>pm := q, world := w, dimmed := True\<rparr>"
    using d1 reg act p dm du(1) by (auto simp: on_line_idle_dim on_idle_dim_def)
  have pol: "same_policy d d1" by (simp add: 1 same_policy_def)
  have 2: "e2 = None" "d2 = d1\<lparr>pm := q', world := w', dimmed := False\<rparr>"
    using d2 reg act p um du(2) same_policy_gates [OF pol] 1
    by (auto simp: on_line_active on_active_def)
  show "e1 = None" "dimmed d1" "e2 = None" "\<not> dimmed d2" using 1 2 by simp_all
  show "backlight (world d1) base m (m * sint (dim_brightness_percent p) div 100)"
    "backlight (world d2) base m (restored m c)"
    using du(4,5) 1 2 by simp_all
  show "same_policy d d2" using 1 2 by (simp add: same_policy_def)
qed

text \<open>
  When the active session's agent reports idleness and later activity,
  with no inhibitor and a working backlight, the screen goes to the profile's dim level and
  comes back to within one per cent (and one step) below the brightness it had.
\<close>

lemma dim_and_restore:
  assumes "backlight (world d) base m c" "may_dim fd d" "d_active_profile d = Some p"
    and "0 \<le> sint (dim_brightness_percent p)" "sint (dim_brightness_percent p) \<le> 100"
    and "on_line fd encode_idle_dim d = (e1, d1)" "on_line fd encode_active d1 = (e2, d2)"
  shows "e1 = None \<and> dimmed d1 \<and>
    backlight (world d1) base m (m * sint (dim_brightness_percent p) div 100) \<and>
    e2 = None \<and> \<not> dimmed d2 \<and> backlight (world d2) base m (restored m c) \<and>
    restored m c \<le> c \<and> c - m div 100 - 1 \<le> restored m c"
proof -
  have "0 < m" "0 \<le> c" using assms(1) by (simp_all add: backlight_def)
  then show ?thesis using dim_round [OF assms] restored_le restored_ge by simp
qed

text \<open>A round of an idle period: dimmed by the idle message, restored by the active one.\<close>

definition idle_round :: "int \<Rightarrow> daemon \<Rightarrow> daemon" where
  "idle_round fd d = snd (on_line fd encode_active (snd (on_line fd encode_idle_dim d)))"

lemma idle_rounds:
  assumes "backlight (world d) base m c" "may_dim fd d" "d_active_profile d = Some p"
    and "0 \<le> sint (dim_brightness_percent p)" "sint (dim_brightness_percent p) \<le> 100"
  shows "backlight (world ((idle_round fd ^^ n) d)) base m ((restored m ^^ n) c) \<and>
    may_dim fd ((idle_round fd ^^ n) d) \<and> d_active_profile ((idle_round fd ^^ n) d) = Some p"
proof (induction n)
  case 0
  then show ?case using assms by simp
next
  case (Suc n)
  define x where "x = (idle_round fd ^^ n) d"
  obtain e1 x1 where 1: "on_line fd encode_idle_dim x = (e1, x1)" by fastforce
  obtain e2 x2 where 2: "on_line fd encode_active x1 = (e2, x2)" by fastforce
  have x: "backlight (world x) base m ((restored m ^^ n) c)" "may_dim fd x" "d_active_profile x = Some p"
    using Suc by (simp_all add: x_def)
  note r = dim_round [OF x assms(4,5) 1 2]
  have "idle_round fd x = x2" by (simp add: idle_round_def 1 2)
  then show ?case
    using r x same_policy_gates [OF r(7)] by (simp add: may_dim_def flip: x_def)
qed

text \<open>
  C37: on a backlight whose maximum shares no factor with 100, a hundred
  rounds of dimming and restoring leave the screen below one per cent, whatever the
  brightness below the maximum was at the start: each restore loses the fraction of a per
  cent that the reading cut off.
\<close>

theorem idle_rounds_darken:
  assumes "backlight (world d) base m c" "may_dim fd d" "d_active_profile d = Some p"
    and "0 \<le> sint (dim_brightness_percent p)" "sint (dim_brightness_percent p) \<le> 100"
    and "coprime m 100" "c < m"
  shows "\<exists>c'. backlight (world ((idle_round fd ^^ 100) d)) base m c' \<and> c' * 100 div m = 0"
proof -
  have "0 < m" "0 \<le> c" using assms(1) by (simp_all add: backlight_def)
  from drift_to_dark [OF this(1) assms(6) this(2) assms(7)]
  show ?thesis using idle_rounds [OF assms(1-5), of 100] by blast
qed

section \<open>Inhibitors\<close>

text \<open>
  The abstract view of the inhibitors: a set of pairs of a descriptor and a reason.  The
  messages are the set operations on it.
\<close>

definition abs_inhibits :: "daemon \<Rightarrow> (int \<times> string) set" where
  "abs_inhibits d = {(fd, r). \<exists>a. map_of (agents d) fd = Some a \<and> r \<in> set (inhibits a)}"

lemma set_set_insert [simp]: "set (set_insert x xs) = insert x (set xs)"
  using fst_omap_put [of x "()" "map (\<lambda>y. (y, ())) xs"] by (simp add: set_insert_def image_image)

lemma set_set_erase [simp]: "set (set_erase x xs) = set xs - {x}"
  by (auto simp: set_erase_def)

lemma abs_inhibits_put:
  "abs_inhibits (d\<lparr>agents := umap_put fd a (agents d)\<rparr>) =
    {(f, r) \<in> abs_inhibits d. f \<noteq> fd} \<union> Pair fd ` set (inhibits a)"
  by (auto simp: abs_inhibits_def map_of_umap_put split: if_splits)

lemma abs_inhibits_send [simp]: "abs_inhibits (send fd m d) = abs_inhibits d"
  by (simp add: abs_inhibits_def)

lemma send_config_fields [simp]: "agents (send_config fd d) = agents d"
  "cm (send_config fd d) = cm d" "sess (send_config fd d) = sess d" "srv (send_config fd d) = srv d"
  "dimmed (send_config fd d) = dimmed d" "pm (send_config fd d) = pm d"
  "cmds (world (send_config fd d)) = cmds (world d)" "files (world (send_config fd d)) = files (world d)"
  by (simp_all add: send_config_def Let_def)

lemma abs_inhibits_empty:
  assumes "umap_ok (agents d)"
  shows "has_any_inhibit d \<longleftrightarrow> abs_inhibits d \<noteq> {}"
proof -
  note e = umap.find_Some_entries [OF assms]
  have "has_any_inhibit d \<longleftrightarrow> (\<exists>fd a r. (fd, a) \<in> set (agents d) \<and> r \<in> set (inhibits a))"
    by (fastforce simp: has_any_inhibit_iff simp flip: ex_in_conv set_empty)
  also have "\<dots> \<longleftrightarrow> abs_inhibits d \<noteq> {}"
    unfolding abs_inhibits_def e by blast
  finally show ?thesis .
qed

text \<open>
  C2: on the set of (descriptor, reason) pairs, an inhibit line of a
  registered agent adds a pair, an uninhibit line removes it, registering (again) and
  disconnecting remove all of the descriptor's pairs.  While the set is not empty nobody's idle
  lines do anything; while it is empty those of the active session's agent suspend, if the
  profile has a sleep timeout, and dim, if the screen is not dimmed yet.
\<close>

theorem inhibitors_refine_set:
  assumes "daemon_ok d" "map_of (agents d) fd \<noteq> None"
  shows "abs_inhibits (snd (on_line fd (encode_inhibit r) d)) = insert (fd, r) (abs_inhibits d) \<and>
    abs_inhibits (snd (on_line fd (encode_uninhibit r) d)) = abs_inhibits d - {(fd, r)} \<and>
    abs_inhibits (snd (on_line fd (encode_hello s u) d)) = {p \<in> abs_inhibits d. fst p \<noteq> fd} \<and>
    abs_inhibits (on_disconnect fd d) = {p \<in> abs_inhibits d. fst p \<noteq> fd} \<and>
    (abs_inhibits d \<noteq> {} \<longrightarrow>
      (\<forall>g. on_line g encode_idle_dim d = (None, d) \<and> on_line g encode_idle_sleep d = (None, d))) \<and>
    (abs_inhibits d = {} \<longrightarrow> (\<forall>g p. is_active_agent g d \<longrightarrow> d_active_profile d = Some p \<longrightarrow>
      (0 < sint (sleep_timeout p) \<longrightarrow>
        cmds (world (snd (on_line g encode_idle_sleep d))) = cmds (world d) @ [''systemctl suspend'']) \<and>
      (\<not> dimmed d \<longrightarrow> (let (e, q, w) = dim p (pm d) (world d)
        in on_line g encode_idle_dim d = (e, d\<lparr>pm := q, world := w, dimmed := (e = None)\<rparr>)))))"
proof -
  obtain a where a: "map_of (agents d) fd = Some a" using assms(2) by blast
  have i: "abs_inhibits (snd (on_line fd (encode_inhibit r) d)) = insert (fd, r) (abs_inhibits d)"
    using a by (auto simp: on_line_inhibit on_inhibit_def abs_inhibits_put) (auto simp: abs_inhibits_def)
  have u: "abs_inhibits (snd (on_line fd (encode_uninhibit r) d)) = abs_inhibits d - {(fd, r)}"
    using a by (auto simp: on_line_uninhibit on_uninhibit_def abs_inhibits_put) (auto simp: abs_inhibits_def)
  have h: "abs_inhibits (snd (on_line fd (encode_hello s u) d)) = {p \<in> abs_inhibits d. fst p \<noteq> fd}"
    by (auto simp: on_line_hello on_hello_def abs_inhibits_def map_of_umap_put split: if_splits)
  have e: "abs_inhibits (on_disconnect fd d) = {p \<in> abs_inhibits d. fst p \<noteq> fd}"
    by (auto simp: on_disconnect_def abs_inhibits_def map_of_umap_erase split: if_splits)
  have has: "has_any_inhibit d \<longleftrightarrow> abs_inhibits d \<noteq> {}"
    using abs_inhibits_empty [of d] assms(1) by (simp add: daemon_ok_def)
  have held: "on_line g encode_idle_dim d = (None, d) \<and> on_line g encode_idle_sleep d = (None, d)"
    if "abs_inhibits d \<noteq> {}" for g
    using that has by (simp add: on_line_idle_dim on_idle_dim_def on_line_idle_sleep on_idle_sleep_def)
  have sleeps: "cmds (world (snd (on_line g encode_idle_sleep d))) = cmds (world d) @ [''systemctl suspend'']"
    if "abs_inhibits d = {}" "is_active_agent g d" "d_active_profile d = Some p" "0 < sint (sleep_timeout p)" for g p
    using suspend_when [of g d] that has by (simp add: may_suspend_def)
  have dims: "let (e, q, w) = dim p (pm d) (world d)
      in on_line g encode_idle_dim d = (e, d\<lparr>pm := q, world := w, dimmed := (e = None)\<rparr>)"
    if "abs_inhibits d = {}" "is_active_agent g d" "d_active_profile d = Some p" "\<not> dimmed d" for g p
  proof -
    obtain x q w where m: "dim p (pm d) (world d) = (x, q, w)" by (metis prod_cases3)
    have "on_line g encode_idle_dim d = (x, d\<lparr>pm := q, world := w, dimmed := (x = None)\<rparr>)"
      using that has m active_agent_registered [of g d]
      by (cases x) (auto simp: on_line_idle_dim on_idle_dim_def Let_def intro: daemon.equality)
    then show ?thesis using m by simp
  qed
  show ?thesis
    by (intro conjI impI allI i u h e sleeps dims)
      (use held in \<open>auto\<close>)
qed

section \<open>Registering\<close>

lemma ucast_uid: "(ucast (ucast (u :: u32) :: i64) :: u32) = u"
  by (rule bit_word_eqI) (simp add: bit_simps)

text \<open>
  The hello an agent sends registers it under its session and user with no inhibitor, leaves
  the other agents alone, and is answered with the active profile's timeouts.
\<close>

lemma handshake:
  assumes "wscript (world d) fd = []" "d_active_profile d = Some p"
    and "on_line fd (encode_hello s u) d = (e, d')"
  shows "e = None \<and>
    map_of (agents d') fd = Some \<lparr>session_id = s, uid = u, inhibits = []\<rparr> \<and>
    (\<forall>g. g \<noteq> fd \<longrightarrow> map_of (agents d') g = map_of (agents d) g) \<and>
    (\<exists>line msg. wire (world d') = wire (world d) @ [(fd, line @ ''\<newline>'')] \<and>
      decode line = Inr msg \<and> msg_type msg = T_CONFIG \<and>
      to_int (num msg ''dim_timeout'' 0) = dim_timeout p \<and>
      to_int (num msg ''sleep_timeout'' 0) = sleep_timeout p)"
proof -
  let ?d = "d\<lparr>agents := umap_put fd \<lparr>session_id = s, uid = u, inhibits = []\<rparr> (agents d)\<rparr>"
  have e: "e = None" "d' = send_config fd ?d"
    using assms(3) by (auto simp: on_line_hello on_hello_def ucast_uid)
  have w: "wire (world d') = wire (world d) @ [(fd, encode_config (dim_timeout p) (sleep_timeout p) @ ''\<newline>'')]"
    using assms(1,2) by (simp add: e send_config_def d_active_profile_def send_healthy)
  have g: "decode (encode_config (dim_timeout p) (sleep_timeout p)) =
      Inr (config_msg (dim_timeout p) (sleep_timeout p))" by simp
  show ?thesis
    unfolding w using g by (auto simp: e map_of_umap_put intro!: exI)
qed

section \<open>Before the hello\<close>

text \<open>
  A line from a descriptor that has not registered changes nothing unless it is a hello, a
  control request or cannot be decoded.
\<close>

lemma unregistered_ignored:
  assumes "map_of (agents d) fd = None" "decode line = Inr msg"
    and "msg_type msg \<noteq> T_HELLO" "msg_type msg \<noteq> T_CTL"
  shows "on_line fd line d = (None, d)"
  using assms by (simp add: on_line_def dispatch_def)

section \<open>The active session\<close>

text \<open>Serving clients and devices never changes the session taken for active.\<close>

definition same_session :: "daemon \<Rightarrow> daemon \<Rightarrow> bool" where
  "same_session d d' \<longleftrightarrow> sess d' = sess d"

interpretation session: update_rel UNIV UNIV same_session
  by unfold_locales (simp_all add: same_session_def send_def)

lemma session_of_all: "handle_all rs d = (e, d') \<Longrightarrow> sess d' = sess d"
  using session.handle_all_rel [of rs d e d'] by (simp add: same_session_def)

lemma session_of_turn:
  assumes "turn sigs rs d = (e, d')" "m_bus (sess d)"
  shows "sess d' = (sess d)\<lparr>m_active_session_id := last (m_active_session_id (sess d) # concat (map reported sigs))\<rparr>"
proof -
  have "sess d' = sess (d\<lparr>sess := sessions_poll sigs (sess d)\<rparr>)"
    using assms(1) unfolding turn_def by (rule session_of_all)
  also have "\<dots> = sessions_poll sigs (sess d)" by simp
  finally show ?thesis unfolding sessions_poll_last [OF assms(2)] .
qed

lemma session_of_loop:
  "daemon_loop ts d = (None, d') \<Longrightarrow> m_bus (sess d) \<Longrightarrow> sess d' = (sess d)\<lparr>m_active_session_id :=
    last (m_active_session_id (sess d) # concat (map reported (concat (map fst ts))))\<rparr>"
proof (induction ts d rule: daemon_loop.induct)
  case (2 sigs rs ts d)
  obtain d1 where 1: "turn sigs rs d = (None, d1)" "daemon_loop ts d1 = (None, d')"
    using 2(2) by (auto split: prod.splits option.splits)
  note d1 = session_of_turn [OF 1(1) 2(3)]
  have "m_bus (sess d1)" using 2(3) by (simp add: d1)
  note d' = 2(1) [OF 1(1) [symmetric] HOL.refl 1(2) this]
  show ?case
    unfolding d' d1 using last_Cons_snoc [of "m_active_session_id (sess d)" "concat (map reported sigs)"]
    by simp
qed simp

text \<open>
  C16: on a machine with the system bus, after any turns of the loop, whatever clients and
  devices do in them, the session the
  daemon takes for the active one is the last identifier logind has reported, or the one
  it had before if there is none: a client's line is handled with the reports of its own turn
  included.  The agents whose idle messages count are those registered under it, and none is
  while it is empty.
\<close>

theorem active_session_is_last_reported:
  assumes "m_bus (sess d)" "daemon_loop ts d = (None, d')"
    and "sid = last (m_active_session_id (sess d) # concat (map reported (concat (map fst ts))))"
  shows "m_active_session_id (sess d') = sid \<and>
    (\<forall>fd. is_active_agent fd d' \<longleftrightarrow>
      sid \<noteq> [] \<and> (\<exists>a. map_of (agents d') fd = Some a \<and> session_id a = sid)) \<and>
    (\<forall>sigs rs. turn sigs rs d' = handle_all rs
      (d'\<lparr>sess := (sess d')\<lparr>m_active_session_id := last (sid # concat (map reported sigs))\<rparr>\<rparr>))"
proof -
  note s = session_of_loop [OF assms(2,1)]
  have b: "m_bus (sess d')" "m_active_session_id (sess d') = sid" using assms(1,3) by (simp_all add: s)
  have "turn sigs rs d' = handle_all rs
      (d'\<lparr>sess := (sess d')\<lparr>m_active_session_id := last (sid # concat (map reported sigs))\<rparr>\<rparr>)" for sigs rs
    unfolding turn_def sessions_poll_last [OF b(1)] b(2) ..
  moreover have "is_active_agent fd d' \<longleftrightarrow>
      sid \<noteq> [] \<and> (\<exists>a. map_of (agents d') fd = Some a \<and> session_id a = sid)" for fd
    by (auto simp: is_active_agent_def is_active_def b(2) split: option.splits)
  ultimately show ?thesis using b(2) by blast
qed

section \<open>Lock routing\<close>

text \<open>
  A lock request goes to an agent of the active session if one is
  registered, else to the only agent if there is exactly one, else to nobody; an agent of
  an inactive session never gets it while another is registered.
\<close>

lemma lock_routing:
  assumes "daemon_ok d"
  shows "case lock_target d of
      Some fd \<Rightarrow> (\<exists>a. map_of (agents d) fd = Some a \<and>
        (is_active (sess d) (session_id a) \<or> agents d = [(fd, a)]))
    | None \<Rightarrow> length (agents d) \<noteq> 1 \<and> (\<forall>fd. \<not> is_active_agent fd d)"
proof (cases "List.find (\<lambda>(fd, a). is_active (sess d) (session_id a)) (agents d)")
  case None
  then have no: "\<forall>(fd, a) \<in> set (agents d). \<not> is_active (sess d) (session_id a)"
    by (auto simp: find_None_iff)
  then have none: "\<not> is_active_agent fd d" for fd
    by (auto simp: is_active_agent_def split: option.splits dest!: map_of_SomeD)
  show ?thesis
    using None none by (auto simp: lock_target_def split: list.splits option.splits)
next
  case (Some x)
  obtain fd a where x: "x = (fd, a)" by fastforce
  have "(fd, a) \<in> set (agents d)" "is_active (sess d) (session_id a)"
    using Some by (auto simp: x find_Some_iff) (metis nth_mem)
  then show ?thesis
    using assms Some umap.find_Some_entries [of "agents d" fd a] by (simp add: lock_target_def x daemon_ok_def)
qed

section \<open>Suspend and the agents\<close>

text \<open>
  C34: in every state the running daemon can reach, the suspend sequence sends
  at most the lock line and then runs the action at once: the \<open>pre_sleep\<close> broadcast goes to
  the connections marked as agents, and no operation ever marks one.
\<close>

theorem no_pre_sleep:
  assumes "reachable d"
  shows "do_suspend act d =
    (send_lock_to_active_agent d)\<lparr>world := run_hw_action act (world (send_lock_to_active_agent d))\<rparr>"
  using reachable_ok [OF assms]
  by (simp add: do_suspend_def daemon_ok_def broadcast_unmarked Let_def)

text \<open>
  C15: whatever the clients, the bus and the input devices do while the
  loop runs, the commands it runs are the four \<open>systemctl\<close> ones, nothing that was sent is
  taken back, and apart from its configuration file it writes only below \<open>/sys\<close>.
\<close>

theorem only_known_commands:
  assumes "daemon_loop ts d = (e, d')"
  shows "(\<exists>cs. cmds (world d') = cmds (world d) @ cs \<and> set cs \<subseteq> known_commands) \<and>
    prefix (wire (world d)) (wire (world d')) \<and>
    (\<forall>p. \<not> sysfs p \<and> p \<noteq> m_path (cm d) \<longrightarrow> files (world d') p = files (world d) p)"
  using grow.loop_rel [OF assms] touch.loop_rel [OF assms] by (simp add: grows_def touches_def)

text \<open>
  C14: in every state the running daemon can reach the agents and the
  connections have distinct descriptors, each connection is filed under its own descriptor,
  no connection is marked as an agent's, and the configuration has profiles, all of them
  named, and a name for the active one.
\<close>

theorem reachable_invariant: "reachable d \<Longrightarrow> daemon_ok d"
  using reachable_ok .

section \<open>Misbehaving and departing clients\<close>

lemma hello_nonempty: "encode_hello s u \<noteq> []"
  by (simp add: encode_hello_def dump_object_nonempty hello_object)

text \<open>
  C35: a line that cannot be decoded closes the sender's
  connection but leaves its registration: its inhibitors stay, and while they do, no message
  of any agent dims or suspends.  Lines that follow it in the same read are handled all the
  same: a hello among them registers the closed descriptor.
\<close>

theorem malformed_keeps_inhibitors:
  assumes "decode line = Inl x" "map_of (agents d) fd = Some a" "inhibits a \<noteq> []"
    and "on_line fd line d = (e, d')"
  shows "e = None \<and> \<not> has_fd (srv d') fd \<and> map_of (agents d') fd = Some a \<and>
    (\<forall>g. on_line g encode_idle_dim d' = (None, d') \<and> on_line g encode_idle_sleep d' = (None, d')) \<and>
    (\<forall>s u. line \<noteq> [] \<longrightarrow> (\<exists>d''. handle_lines fd [line, encode_hello s u] d = (None, d'') \<and>
      \<not> has_fd (srv d'') fd \<and>
      map_of (agents d'') fd = Some \<lparr>session_id = s, uid = u, inhibits = []\<rparr>))"
proof -
  have d': "e = None" "d' = epoll_del fd (drop_client fd d)" using assms by (auto simp: on_line_def)
  have ag: "agents d' = agents d" by (simp add: d')
  have inh: "has_any_inhibit d'"
    using map_of_SomeD [OF assms(2)] assms(3) by (auto simp: has_any_inhibit_iff ag)
  have gone: "\<not> has_fd (srv d') fd"
    by (simp add: d' drop_client_def close_client_def has_fd_def map_of_umap_erase)
  have "handle_lines fd [line, encode_hello s u] d = (None, on_hello fd (hello_msg s u) d')" if "line \<noteq> []" for s u
    using that assms(4) d'(1) by (simp add: on_line_hello hello_nonempty)
  then show ?thesis
    using d'(1) gone ag assms(2) inh
    by (auto simp: not_may_dim may_dim_def on_line_idle_sleep on_idle_sleep_def on_hello_def
        map_of_umap_put ucast_uid)
qed

text \<open>
  C36: when a client's last bytes and the end of its stream are read in one
  go, the lines among those bytes are never handled: whatever they say, the daemon only
  forgets the client, its registration and its inhibitors.
\<close>

theorem eof_discards_lines:
  assumes "has_fd (srv d) fd" "quiet rs" "handle_client fd (rs @ [Read_eof]) d = (e, d')"
  shows "e = None \<and> \<not> has_fd (srv d') fd \<and> agents d' = umap_erase fd (agents d) \<and>
    wire (world d') = wire (world d) \<and> cmds (world d') = cmds (world d) \<and>
    files (world d') = files (world d) \<and> cm d' = cm d \<and> closed (world d') = closed (world d) @ [fd]"
proof -
  obtain c where c: "map_of (m_conns (srv d)) fd = Some c" using assms(1) by (auto simp: has_fd_def)
  have f: "feed (rs @ [Read_eof]) (buf c) = (False, [], buf c @ payload rs, [])"
    by (rule feed_eof [OF assms(2)])
  show ?thesis
    using assms(3) c f
    by (auto simp: handle_client_def feed_client_def drop_client_def on_disconnect_def close_client_def
        has_fd_def map_of_umap_erase frame)
qed

section \<open>Buttons and the lid\<close>

text \<open>The action the active profile has for an event.\<close>

definition event_action :: "daemon \<Rightarrow> hw_event \<Rightarrow> string" where
  "event_action d e = (case d_active_profile d of None \<Rightarrow> []
     | Some p \<Rightarrow> (case e of LidClose \<Rightarrow> lid_close_action p | PowerButton \<Rightarrow> power_button_action p
                 | SleepButton \<Rightarrow> sleep_button_action p | LidOpen \<Rightarrow> []))"

definition commands_for :: "daemon \<Rightarrow> hw_event list \<Rightarrow> string list" where
  "commands_for d es = List.map_filter (\<lambda>e. hw_command (event_action d e)) es"

lemma run_hw_action_cmd:
  "cmds (run_hw_action a w) = cmds w @ (case hw_command a of None \<Rightarrow> [] | Some c \<Rightarrow> [c])"
  by (auto simp: run_hw_action_def hw_command_def frame)

lemma on_hw_event_cmds:
  "cmds (world (on_hw_event e d)) =
    cmds (world d) @ (case hw_command (event_action d e) of None \<Rightarrow> [] | Some c \<Rightarrow> [c]) \<and>
   cm (on_hw_event e d) = cm d"
  by (cases e)
    (auto simp: on_hw_event_def event_action_def suspend_cmds run_hw_action_cmd do_suspend_def
      hw_command_def Let_def split_beta frame split: option.splits)

lemma commands_for_Cons:
  "commands_for d (e # es) =
    (case hw_command (event_action d e) of None \<Rightarrow> [] | Some c \<Rightarrow> [c]) @ commands_for d es"
  by (simp add: commands_for_def map_filter_simps split: option.splits)

lemma fold_hw_events:
  "cmds (world (fold on_hw_event es d)) = cmds (world d) @ commands_for d es"
proof (induction es arbitrary: d)
  case Nil
  then show ?case by (simp add: commands_for_def map_filter_simps)
next
  case (Cons e es)
  have "event_action (on_hw_event e d) = event_action d"
    using on_hw_event_cmds [of e d] by (simp add: event_action_def d_active_profile_def fun_eq_iff)
  then show ?case
    using Cons [of "on_hw_event e d"] on_hw_event_cmds [of e d]
    by (simp add: commands_for_Cons commands_for_def split: option.splits)
qed

text \<open>
  The specification, over the records as the kernel writes them: the action the profile names
  for a record, and the command of an action.
\<close>

definition named_action :: "profile \<Rightarrow> input_event \<Rightarrow> string" where
  "named_action p ev =
     (if ev_type ev = 5 \<and> ev_code ev = 0 \<and> ev_value ev \<noteq> 0 then lid_close_action p
      else if (ev_type ev, ev_code ev, ev_value ev) = (1, 116, 1) then power_button_action p
      else if (ev_type ev, ev_code ev, ev_value ev) = (1, 142, 1) then sleep_button_action p
      else [])"

definition systemctl_table :: "(string \<times> string) list" where
  "systemctl_table = [(''suspend'', ''systemctl suspend''), (''hibernate'', ''systemctl hibernate''),
     (''hybrid-sleep'', ''systemctl hybrid-sleep''), (''poweroff'', ''systemctl poweroff'')]"

lemma record_command:
  "d_active_profile d = Some p \<Longrightarrow>
    (case classify ev of None \<Rightarrow> None | Some e \<Rightarrow> hw_command (event_action d e)) =
    map_of systemctl_table (named_action p ev)"
  by (auto simp: classify_def event_action_def named_action_def hw_command_def systemctl_table_def
      EV_SW_def EV_KEY_def SW_LID_def KEY_POWER_def KEY_SLEEP_def)

lemma commands_of_records:
  "commands_for d (List.map_filter classify evs) = (case d_active_profile d of
      None \<Rightarrow> []
    | Some p \<Rightarrow> List.map_filter (\<lambda>ev. map_of systemctl_table (named_action p ev)) evs)"
proof (cases "d_active_profile d")
  case None
  then have "event_action d e = []" for e by (simp add: event_action_def)
  then show ?thesis using None by (simp add: commands_for_def hw_command_def map_filter_def)
next
  case (Some p)
  have "commands_for d (List.map_filter classify evs) =
      List.map_filter (\<lambda>ev. map_of systemctl_table (named_action p ev)) evs"
  proof (induction evs)
    case Nil
    then show ?case by (simp add: commands_for_def map_filter_simps)
  next
    case (Cons ev evs)
    then show ?case
      using record_command [OF Some, of ev] by (cases "classify ev") (auto simp: map_filter_simps commands_for_Cons split: option.split)
  qed
  then show ?thesis using Some by simp
qed

text \<open>
  C17: when the input devices are readable, the commands run are those of
  the active profile's actions for the lid closings and button presses among the records, in
  order, one for each; releases, repeats, the lid opening, other keys, and actions that are
  empty, none, ignore or unknown run nothing.
\<close>

theorem buttons_run_actions:
  assumes "ready_fd r = hw_fd d" "\<not> is_listen_fd (srv d) (ready_fd r)" "\<not> has_fd (srv d) (ready_fd r)"
    and "handle_ready r d = (e, d')"
  shows "e = None \<and> cmds (world d') = cmds (world d) @ (case d_active_profile d of
      None \<Rightarrow> []
    | Some p \<Rightarrow> List.map_filter (\<lambda>ev. map_of systemctl_table (named_action p ev)) (concat (inputs r)))"
  using assms fold_hw_events [of "hw_poll (inputs r)" d] commands_of_records [of d "concat (inputs r)"]
  by (auto simp: handle_ready_def hw_poll_def)

end
