(* ===== verification/Ctl.thy ===== *)
theory Ctl
  imports Protocol World
begin

text \<open>
  \<open>src/ctl/main.cpp\<close>: the control tool.  Its arguments, the request it sends, the reply it
  waits for, what it prints and its exit code.
\<close>

section \<open>Receiving a line\<close>

text \<open>
  One turn of the wait: \<open>poll\<close> times out or fails, or the descriptor is readable and
  \<open>read\<close> gives some bytes (none for end of file or an error).
\<close>

datatype ctl_round = Timed_out | Readable string

fun recv_loop :: "ctl_round list \<Rightarrow> string \<Rightarrow> string" where
  "recv_loop [] acc = acc"
| "recv_loop (Timed_out # rs) acc = acc"
| "recv_loop (Readable d # rs) acc =
     (if d = [] then acc
      else if CHR ''\<newline>'' \<in> set (acc @ d) then acc @ d
      else recv_loop rs (acc @ d))"

definition recv_line :: "ctl_round list \<Rightarrow> string" where
  "recv_line rounds = takeWhile (\<lambda>c. c \<noteq> CHR ''\<newline>'') (recv_loop rounds [])"

section \<open>Arguments\<close>

record ctl_args =
  ctl_socket :: string
  ctl_cmd :: string
  ctl_profile :: string

datatype ctl_parse = Usage | Missing_name | Unknown_command string | Run ctl_args

text \<open>The option loop: the socket path and the arguments from the command on.\<close>

fun ctl_options :: "string list \<Rightarrow> string \<Rightarrow> string \<times> string list" where
  "ctl_options (a # b # as) sock =
     (if a = ''-s'' then ctl_options as b else (sock, a # b # as))"
| "ctl_options as sock = (sock, as)"

definition ctl_parse_args :: "string list \<Rightarrow> ctl_parse" where
  "ctl_parse_args args =
     (case ctl_options args SOCKET_PATH of
        (sock, []) \<Rightarrow> Usage
      | (sock, cmd # rest) \<Rightarrow>
          if cmd = ''status'' \<or> cmd = ''battery'' \<or> cmd = ''list-profiles'' then
            Run \<lparr>ctl_socket = sock, ctl_cmd = cmd, ctl_profile = []\<rparr>
          else if cmd = ''set-profile'' then
            (case rest of
               [] \<Rightarrow> Missing_name
             | name # _ \<Rightarrow> Run \<lparr>ctl_socket = sock, ctl_cmd = cmd, ctl_profile = name\<rparr>)
          else if cmd = ''reload-config'' \<or> cmd = ''list-inhibitors'' \<or> cmd = ''lock'' then
            Run \<lparr>ctl_socket = sock, ctl_cmd = cmd, ctl_profile = []\<rparr>
          else Unknown_command cmd)"

definition ctl_request :: "ctl_args \<Rightarrow> string" where
  "ctl_request a =
     (if ctl_cmd a = ''status'' then encode_ctl ''status'' []
      else if ctl_cmd a = ''battery'' then encode_ctl ''battery'' []
      else if ctl_cmd a = ''list-profiles'' then encode_ctl ''list_profiles'' []
      else if ctl_cmd a = ''set-profile'' then encode_ctl ''set_profile'' (ctl_profile a)
      else if ctl_cmd a = ''reload-config'' then encode_ctl ''reload_config'' []
      else if ctl_cmd a = ''list-inhibitors'' then encode_ctl ''list_inhibitors'' []
      else if ctl_cmd a = ''lock'' then encode_ctl ''lock'' []
      else [])"

section \<open>Output\<close>

definition show_i32 :: "i32 \<Rightarrow> string" where
  "show_i32 n = show_int (sint n)"

definition hours_minutes :: "i32 \<Rightarrow> string" where
  "hours_minutes n = show_i32 (sdiv32 n 60) @ ''h '' @ show_i32 (smod32 n 60) @ ''m'' @ ''\<newline>''"

definition print_status :: "json \<Rightarrow> string" where
  "print_status resp =
     (let bat_pct = to_int (num resp ''battery_percent'' (-1))
      in ''profile:        '' @ str resp ''active_profile'' [] @ ''\<newline>'' @
         ''dimmed:         '' @ (if flag resp ''dimmed'' False then ''yes'' else ''no'') @ ''\<newline>'' @
         ''active_session: '' @ str resp ''active_session'' [] @ ''\<newline>'' @
         ''battery:        '' @ str resp ''battery_status'' [] @
         (if 0 \<le> sint bat_pct then '' ('' @ show_i32 bat_pct @ ''%)'' else []) @ ''\<newline>'')"

definition print_battery :: "json \<Rightarrow> string" where
  "print_battery resp =
     (let tte = to_int (num resp ''time_to_empty_min'' (-1));
          ttf = to_int (num resp ''time_to_full_min'' (-1))
      in ''status:  '' @ str resp ''status'' [] @ ''\<newline>'' @
         (if flag resp ''present'' False then
            ''percent: '' @ show_i32 (to_int (num resp ''percent'' (-1))) @ ''%'' @ ''\<newline>'' @
            (if 0 \<le> sint tte then ''time_to_empty: '' @ hours_minutes tte else []) @
            (if 0 \<le> sint ttf then ''time_to_full:  '' @ hours_minutes ttf else [])
          else []))"

definition print_strings :: "json list \<Rightarrow> string" where
  "print_strings vs = concat (map (\<lambda>v. get_string v @ ''\<newline>'') vs)"

definition ctl_print :: "string \<Rightarrow> json \<Rightarrow> string" where
  "ctl_print cmd resp =
     (if cmd = ''status'' then print_status resp
      else if cmd = ''battery'' then print_battery resp
      else if cmd = ''list-inhibitors'' then
        (let inhibitors = get_array (index resp ''inhibitors'')
         in if inhibitors = [] then ''none'' @ ''\<newline>'' else print_strings inhibitors)
      else if cmd = ''list-profiles'' then print_strings (get_array (index resp ''profiles''))
      else ''ok'' @ ''\<newline>'')"

text \<open>From the reply on: the exit code, what goes to standard output and to standard error.\<close>

definition ctl_finish :: "string \<Rightarrow> string \<Rightarrow> int \<times> string \<times> string" where
  "ctl_finish cmd line =
     (if line = [] then (3, [], ''no response from daemon'' @ ''\<newline>'')
      else (case parse line of
              Inl _ \<Rightarrow> (3, [], ''malformed response: '' @ line @ ''\<newline>'')
            | Inr resp \<Rightarrow>
                if \<not> flag resp ''ok'' False
                then (4, [], ''error: '' @ str resp ''error'' ''unknown error'' @ ''\<newline>'')
                else (0, ctl_print cmd resp, [])))"

section \<open>The program\<close>

definition usage_text :: "string \<Rightarrow> string" where
  "usage_text argv0 = ''Usage:'' @ ''\<newline>'' @
     concat (map (\<lambda>c. ''  '' @ argv0 @ c @ ''\<newline>'')
       ['' status'', '' battery'', '' list-profiles'', '' list-inhibitors'', '' set-profile <name>'',
        '' reload-config'', '' lock'']) @
     ''\<newline>'' @ ''Options:'' @ ''\<newline>'' @ ''  -s <socket>    override socket path'' @ ''\<newline>''"

text \<open>
  \<open>main\<close>: \<open>connect\<close> gives the descriptor of a connection to a path, negative with the
  text for \<open>errno\<close> on failure; \<open>rounds\<close> is what the wait for the reply sees.
\<close>

definition ctl_main :: "string \<Rightarrow> string list \<Rightarrow> (string \<Rightarrow> int \<times> string) \<Rightarrow> ctl_round list \<Rightarrow> world \<Rightarrow>
    (int \<times> string \<times> string) \<times> world" where
  "ctl_main argv0 args connect rounds w =
     (case ctl_parse_args args of
        Usage \<Rightarrow> ((1, [], usage_text argv0), w)
      | Missing_name \<Rightarrow> ((1, [], ''set-profile requires <name>'' @ ''\<newline>''), w)
      | Unknown_command c \<Rightarrow> ((1, [], ''unknown command: '' @ c @ ''\<newline>'' @ usage_text argv0), w)
      | Run a \<Rightarrow>
          let (fd, err) = connect (ctl_socket a)
          in if fd < 0 then
               ((2, [], ''cannot connect to draind at '' @ ctl_socket a @ '': '' @ err @ ''\<newline>''), w)
             else let w1 = snd (send_line fd (ctl_request a) w)
                  in (ctl_finish (ctl_cmd a) (recv_line rounds), close_fd fd w1))"

section \<open>Lemmas\<close>

text \<open>A line that arrives in any non-empty pieces, with anything after it, is received.\<close>

lemma recv_loop_line:
  assumes "\<forall>d \<in> set ds. d \<noteq> []" "acc @ concat ds = line @ CHR ''\<newline>'' # rest"
    and "CHR ''\<newline>'' \<notin> set acc"
  shows "\<exists>r. recv_loop (map Readable ds @ rounds) acc = line @ CHR ''\<newline>'' # r \<or>
    CHR ''\<newline>'' \<in> set line"
  using assms
proof (induction ds arbitrary: acc)
  case Nil
  then show ?case by (metis append_Nil2 concat.simps(1) in_set_conv_decomp)
next
  case (Cons d ds)
  show ?case
  proof (cases "CHR ''\<newline>'' \<in> set (acc @ d)")
    case True
    then obtain x y where xy: "acc @ d = x @ CHR ''\<newline>'' # y" "CHR ''\<newline>'' \<notin> set x"
      by (meson split_list_first)
    have r: "recv_loop (map Readable (d # ds) @ rounds) acc = acc @ d" using True Cons.prems(1) by simp
    have eq: "x @ CHR ''\<newline>'' # (y @ concat ds) = line @ CHR ''\<newline>'' # rest"
      using Cons.prems(2) xy(1) by (metis append.assoc append_Cons concat.simps(2))
    show ?thesis
    proof (cases "CHR ''\<newline>'' \<in> set line")
      case False
      then have "takeWhile (\<lambda>c. c \<noteq> CHR ''\<newline>'') (x @ CHR ''\<newline>'' # (y @ concat ds)) = x"
        "takeWhile (\<lambda>c. c \<noteq> CHR ''\<newline>'') (line @ CHR ''\<newline>'' # rest) = line"
        using xy(2) by (auto intro!: takeWhile_append_stop)
      then have "x = line" using eq by simp
      then show ?thesis using r xy(1) by auto
    qed simp
  next
    case False
    then show ?thesis using Cons.IH [of "acc @ d"] Cons.prems by simp
  qed
qed

lemma recv_line_line:
  assumes "\<forall>d \<in> set ds. d \<noteq> []" "concat ds = line @ CHR ''\<newline>'' # rest" "CHR ''\<newline>'' \<notin> set line"
  shows "recv_line (map Readable ds @ rounds) = line"
proof -
  obtain r where "recv_loop (map Readable ds @ rounds) [] = line @ CHR ''\<newline>'' # r"
    using recv_loop_line [of ds "[]" line rest rounds] assms by auto
  then show ?thesis using assms(3) by (auto simp: recv_line_def intro!: takeWhile_append_stop)
qed

end
