(* ===== verification/Requests.thy ===== *)
theory Requests
  imports Daemon_Props Ctl
begin

text \<open>
  The control tool and the daemon together: what a request does to the daemon, the line it
  answers with, and what the tool makes of that line.
\<close>

section \<open>A descriptor that takes everything keeps taking everything\<close>

definition heals :: "int \<Rightarrow> daemon \<Rightarrow> daemon \<Rightarrow> bool" where
  "heals fd d d' \<longleftrightarrow> (wscript (world d) fd = [] \<longrightarrow> wscript (world d') fd = [])"

lemma send_line_heals: "wscript w fd = [] \<Longrightarrow> wscript (snd (send_line g m w)) fd = []"
  by (auto simp: send_line_def write_line_def split: prod.splits)

lemma send_all_heals: "wscript w fd = [] \<Longrightarrow> wscript (snd (send_all m fds w)) fd = []"
  by (induction fds arbitrary: w) (simp_all add: split_beta send_line_heals)

interpretation heal: daemon_rel UNIV UNIV "heals fd" for fd
proof (unfold_locales, goal_cases)
  case (15 n d c w)
  then show ?case
    by (auto simp: heals_def cm_set_active_def Let_def frame split: option.splits)
next
  case (7 d m w)
  then show ?case
    by (auto simp: heals_def broadcast_and_wait_acks_def split_beta send_all_heals)
qed (auto simp: heals_def same_env_def send_def frame send_line_heals)

section \<open>Replies\<close>

text \<open>The tool's end of an answer.\<close>

lemma encode_nonempty: "encode_ctl_reply v \<noteq> []"
  by (simp add: encode_ctl_reply_def assign_def)

lemma ctl_finish_reply:
  assumes "wf_json v \<and> no_double v"
  shows "ctl_finish cmd (encode_ctl_reply v) =
    (let resp = assign v ''type'' (JString T_CTL_REPLY)
     in if \<not> flag v ''ok'' False
        then (4, [], ''error: '' @ str v ''error'' ''unknown error'' @ ''\<newline>'')
        else (0, ctl_print cmd resp, []))"
  using decode_ctl_reply [of v] assms
  by (simp add: ctl_finish_def encode_nonempty decode_def Let_def field_access)

lemma ok_reply_fields: "flag ok_reply ''ok'' False" "flag (error_reply m) ''ok'' b = False"
  "str (error_reply m) ''error'' e = m"
  by (simp_all add: ok_reply_def error_reply_def reply_fields_def field_access)

lemma finish_ok:
  "cmd \<in> {''set-profile'', ''reload-config'', ''lock''} \<Longrightarrow>
    ctl_finish cmd (encode_ctl_reply ok_reply) = (0, ''ok'' @ ''\<newline>'', [])"
  by (auto simp: ctl_finish_reply replies_wf ok_reply_fields ctl_print_def)

lemma finish_error:
  "ctl_finish cmd (encode_ctl_reply (error_reply m)) = (4, [], ''error: '' @ m @ ''\<newline>'')"
  by (simp add: ctl_finish_reply replies_wf ok_reply_fields)

text \<open>The daemon's end: after what the request did, one more line to the sender.\<close>

lemma reply_line:
  assumes "heals fd d d1" "wscript (world d) fd = []"
  shows "wire (world (send fd m d1)) = wire (world d1) @ [(fd, m @ ''\<newline>'')]"
  using assms by (simp add: heals_def send_healthy)

section \<open>What the requests do\<close>

lemma broadcast_config_fields [simp]:
  "cm (broadcast_config d) = cm d" "dimmed (broadcast_config d) = dimmed d"
  "agents (broadcast_config d) = agents d"
proof -
  have "cm (fold send_config fds d) = cm d \<and> dimmed (fold send_config fds d) = dimmed d \<and>
      agents (fold send_config fds d) = agents d" for fds
    by (induction fds arbitrary: d) simp_all
  then show "cm (broadcast_config d) = cm d" "dimmed (broadcast_config d) = dimmed d"
    "agents (broadcast_config d) = agents d" by (simp_all add: broadcast_config_def)
qed

lemma set_active_found:
  assumes "set_active n d = (ok, e, d1)"
  shows "ok \<longleftrightarrow> find_profile (m_config (cm d)) n \<noteq> None" "\<not> ok \<Longrightarrow> e = None \<and> d1 = d"
    "ok \<Longrightarrow> m_active (cm d1) = n \<and> dimmed d1 = dimmed d \<and> agents d1 = agents d"
  using assms
  by (auto simp: set_active_def cm_set_active_def on_change_def Let_def
      split: option.splits prod.splits if_splits)

lemma set_active_returns:
  assumes "max_ok (world d)" "\<not> sysfs (m_path (cm d))" "set_active n d = (ok, e, d1)"
  shows "e = None"
proof (cases "find_profile (m_config (cm d)) n")
  case None
  then show ?thesis using assms(3) by (simp add: set_active_def cm_set_active_def)
next
  case (Some p)
  let ?c = "(cm d)\<lparr>m_active := n\<rparr>"
  have "files (persist_active ?c (world d)) (b @ ''/max_brightness'') = files (world d) (b @ ''/max_brightness'')"
    if "sysfs b" for b
    using sysfs_append [OF that, of "''/max_brightness''"] assms(2) by (intro persist_active_other) auto
  then have "max_ok (persist_active ?c (world d)) = max_ok (world d)" by (intro max_ok_keep) (simp_all add: frame)
  then show ?thesis
    using assms(1,3) Some apply_returns [of "persist_active ?c (world d)"]
    by (auto simp: set_active_def cm_set_active_def on_change_def Let_def split: option.splits prod.splits)
qed

text \<open>
  C18: a request for a profile that exists makes it the active one, and the tool prints ok and
  exits with 0, unless applying the profile throws, which it does not where the maximum of the
  backlight can be read (and the configuration file is not one of sysfs); for an unknown one
  nothing changes but the bytes sent, the reply alone, and the tool exits with 4 and the name,
  whatever characters it holds.
\<close>

theorem set_profile_request:
  assumes "wscript (world d) fd = []" "on_line fd (encode_ctl ''set_profile'' n) d = (e, d')"
  shows "if find_profile (m_config (cm d)) n \<noteq> None
    then (max_ok (world d) \<and> \<not> sysfs (m_path (cm d)) \<longrightarrow> e = None) \<and>
      (e = None \<longrightarrow> m_active (cm d') = n \<and>
        (\<exists>sent line. wire (world d') = wire (world d) @ sent @ [(fd, line @ ''\<newline>'')] \<and>
          ctl_finish ''set-profile'' line = (0, ''ok'' @ ''\<newline>'', [])))
    else e = None \<and>
      (\<exists>line. d' = d\<lparr>world := (world d)\<lparr>wire := wire (world d) @ [(fd, line @ ''\<newline>'')]\<rparr>\<rparr> \<and>
        ctl_finish ''set-profile'' line = (4, [], ''error: profile not found: '' @ n @ ''\<newline>''))"
proof -
  obtain ok e1 d1 where sa: "set_active n d = (ok, e1, d1)" by (metis prod_cases3)
  note f = set_active_found [OF sa]
  show ?thesis
  proof (cases "find_profile (m_config (cm d)) n")
    case None
    then have "\<not> ok" "e1 = None" "d1 = d" using f by auto
    then have "e = None" "d' = send fd (encode_ctl_reply (error_reply (''profile not found: '' @ n))) d"
      using assms(2) sa by (auto simp: on_line_ctl on_ctl_def)
    then show ?thesis
      using None send_healthy_world [OF assms(1)] finish_error [of "''set-profile''" "''profile not found: '' @ n"]
      by auto
  next
    case (Some p)
    then have ok: ok using f by auto
    have returns: "max_ok (world d) \<and> \<not> sysfs (m_path (cm d)) \<longrightarrow> e = None"
      using set_active_returns [OF _ _ sa] assms(2) sa ok by (auto simp: on_line_ctl on_ctl_def)
    have chosen: "m_active (cm d') = n \<and> (\<exists>sent line. wire (world d') = wire (world d) @ sent @ [(fd, line @ ''\<newline>'')] \<and>
        ctl_finish ''set-profile'' line = (0, ''ok'' @ ''\<newline>'', []))" if "e = None"
    proof -
      have d': "d' = send fd (encode_ctl_reply ok_reply) d1"
        using assms(2) sa ok that by (auto simp: on_line_ctl on_ctl_def split: option.splits)
      obtain sent where "wire (world d1) = wire (world d) @ sent"
        using grow.set_active_rel [OF sa] by (auto simp: grows_def prefix_def)
      then have "wire (world d') = wire (world d) @ sent @ [(fd, encode_ctl_reply ok_reply @ ''\<newline>'')]"
        using reply_line [OF heal.set_active_rel [OF sa] assms(1)] by (simp add: d')
      then show ?thesis using f(3) [OF ok] finish_ok [of "''set-profile''"] by (auto simp: d')
    qed
    show ?thesis using Some returns chosen by auto
  qed
qed

text \<open>
  When the configuration file cannot be loaded, a reload request
  leaves everything as it was, the profile in use included, and the tool prints the loader's
  reason and exits with 4.
\<close>

lemma failed_reload_keeps_state:
  assumes "wscript (world d) fd = []"
    and "load_config (files (world d) (m_path (cm d))) (m_path (cm d)) = Inl x"
    and "on_line fd (encode_ctl ''reload_config'' []) d = (e, d')"
  shows "e = None \<and> d' = d\<lparr>world := world d'\<rparr> \<and> files (world d') = files (world d) \<and>
    (\<exists>line. wire (world d') = wire (world d) @ [(fd, line @ ''\<newline>'')] \<and>
      ctl_finish ''reload-config'' line = (4, [], ''error: '' @ what x @ ''\<newline>''))"
proof -
  have "reload_config d = (Some x, d)" using assms(2) by (simp add: reload_config_def cm_reload_def)
  then have "e = None" "d' = send fd (encode_ctl_reply (error_reply (what x))) d"
    using assms(3) by (auto simp: on_line_ctl on_ctl_def)
  then show ?thesis
    using finish_error [of "''reload-config''" "what x"] send_healthy [OF assms(1)]
    by (auto simp: send_def frame)
qed

lemma status_fields:
  "flag (status_reply d) ''ok'' b = True"
  "str (status_reply d) ''active_profile'' s = m_active (cm d)"
  "flag (status_reply d) ''dimmed'' b = dimmed d"
  "str (status_reply d) ''active_session'' s = m_active_session_id (sess d)"
  "str (status_reply d) ''battery_status'' s = status_string (bat_status (battery_read (files (world d))))"
  "num (status_reply d) ''battery_percent'' n = to_i64 (percent (battery_read (files (world d))))"
  "wf_json (status_reply d)"
  by (simp_all add: status_reply_def reply_fields_def field_access Let_def)

text \<open>
  C22: a status request changes nothing but the bytes sent, and what the tool
  prints is the daemon's state: the active profile, whether it has dimmed, the active session,
  and the battery's status and charge, the charge left out when it is not known.
\<close>

theorem status_reported:
  assumes "wscript (world d) fd = []" "on_line fd (encode_ctl ''status'' []) d = (e, d')"
    and "bat = battery_read (files (world d))"
  shows "e = None \<and>
    (\<exists>line. d' = d\<lparr>world := (world d)\<lparr>wire := wire (world d) @ [(fd, line @ ''\<newline>'')]\<rparr>\<rparr> \<and>
      ctl_finish ''status'' line =
       (0, ''profile:        '' @ m_active (cm d) @ ''\<newline>'' @
           ''dimmed:         '' @ (if dimmed d then ''yes'' else ''no'') @ ''\<newline>'' @
           ''active_session: '' @ m_active_session_id (sess d) @ ''\<newline>'' @
           ''battery:        '' @ status_string (bat_status bat) @
           (if 0 \<le> sint (percent bat) then '' ('' @ show_int (sint (percent bat)) @ ''%)'' else []) @
           ''\<newline>'', []))"
proof -
  let ?l = "encode_ctl_reply (status_reply d)"
  have d': "e = None" "d' = send fd ?l d" using assms(2) by (auto simp: on_line_ctl on_ctl_def)
  have "ctl_finish ''status'' ?l =
     (0, ctl_print ''status'' (assign (status_reply d) ''type'' (JString T_CTL_REPLY)), [])"
    by (simp add: ctl_finish_reply replies_wf status_fields)
  then show ?thesis
    using d' send_healthy_world [OF assms(1), of ?l]
    by (auto simp: ctl_print_def print_status_def field_access status_fields show_i32_def
        assms(3) Let_def)
qed

lemma inhibitors_fields:
  "flag (inhibitors_reply d) ''ok'' b = True"
  "index (inhibitors_reply d) ''inhibitors'' = JArray (map JString (inhibitors d))"
  "wf_json (inhibitors_reply d)"
  by (simp_all add: inhibitors_reply_def reply_fields_def field_access)

lemma inhibitors_set: "set (inhibitors d) = {if session_id a = [] then r else session_id a @ '': '' @ r | g a r.
    (g, a) \<in> set (agents d) \<and> r \<in> set (inhibits a)}"
proof -
  define f where "f (a :: agent_state) r = (if session_id a = [] then r else session_id a @ '': '' @ r)" for a r
  have "set (inhibitors d) = {f a r | g a r. (g, a) \<in> set (agents d) \<and> r \<in> set (inhibits a)}"
    by (auto simp: inhibitors_def image_iff simp flip: f_def)
  then show ?thesis by (simp add: f_def)
qed

text \<open>
  C23: the tool lists exactly the inhibitors that hold off dimming and
  suspending, one per line with the session in front when it is known, and prints none exactly
  when nothing holds them off.
\<close>

theorem inhibitors_reported:
  assumes "wscript (world d) fd = []" "on_line fd (encode_ctl ''list_inhibitors'' []) d = (e, d')"
    and "daemon_ok d"
  shows "e = None \<and>
    set (inhibitors d) = {if session_id a = [] then r else session_id a @ '': '' @ r | g a r.
      map_of (agents d) g = Some a \<and> r \<in> set (inhibits a)} \<and>
    (\<exists>line. d' = d\<lparr>world := (world d)\<lparr>wire := wire (world d) @ [(fd, line @ ''\<newline>'')]\<rparr>\<rparr> \<and>
      ctl_finish ''list-inhibitors'' line =
       (0, if has_any_inhibit d then concat (map (\<lambda>i. i @ ''\<newline>'') (inhibitors d))
           else ''none'' @ ''\<newline>'', []))"
proof -
  let ?l = "encode_ctl_reply (inhibitors_reply d)"
  have d': "e = None" "d' = send fd ?l d" using assms(2) by (auto simp: on_line_ctl on_ctl_def)
  have ok: "umap_ok (agents d)" using assms(3) by (simp add: daemon_ok_def)
  have s: "set (inhibitors d) = {if session_id a = [] then r else session_id a @ '': '' @ r | g a r.
      map_of (agents d) g = Some a \<and> r \<in> set (inhibits a)}"
    unfolding umap.find_Some_entries [OF ok] by (rule inhibitors_set)
  have ne: "inhibitors d = [] \<longleftrightarrow> \<not> has_any_inhibit d"
    by (auto simp: inhibitors_def has_any_inhibit_iff)
  have "ctl_finish ''list-inhibitors'' ?l = (0, ctl_print ''list-inhibitors''
      (assign (inhibitors_reply d) ''type'' (JString T_CTL_REPLY)), [])"
    by (simp add: ctl_finish_reply replies_wf inhibitors_fields)
  also have "\<dots> = (0, if has_any_inhibit d then concat (map (\<lambda>i. i @ ''\<newline>'') (inhibitors d))
      else ''none'' @ ''\<newline>'', [])"
    using ne by (auto simp: ctl_print_def print_strings_def field_access inhibitors_fields comp_def)
  finally have f: "ctl_finish ''list-inhibitors'' ?l = \<dots>" .
  have "d' = d\<lparr>world := (world d)\<lparr>wire := wire (world d) @ [(fd, ?l @ ''\<newline>'')]\<rparr>\<rparr>"
    using d'(2) send_healthy_world [OF assms(1), of ?l] by simp
  then show ?thesis using d'(1) s f by blast
qed

definition known_requests :: "string set" where
  "known_requests = {''status'', ''set_profile'', ''list_profiles'', ''lock'', ''list_inhibitors'',
     ''reload_config'', ''battery''}"

lemma on_ctl_reply:
  assumes "on_ctl fd msg d = (None, d')"
    and P: "P d" "P (send_lock_to_active_agent d)"
      "\<And>n ok e d1. set_active n d = (ok, e, d1) \<Longrightarrow> P d1" "\<And>e d1. reload_config d = (e, d1) \<Longrightarrow> P d1"
  shows "\<exists>d1 r. P d1 \<and> d' = send fd (encode_ctl_reply r) d1"
proof -
  obtain ok e1 d1 where 1: "set_active (str msg ''profile'' []) d = (ok, e1, d1)" by (metis prod_cases3)
  obtain e2 d2 where 2: "reload_config d = (e2, d2)" by fastforce
  have "P d1" "P d2" using P(3) [OF 1] P(4) [OF 2] .
  have "\<exists>d0 r. d0 \<in> {d, send_lock_to_active_agent d, d1, d2} \<and> d' = send fd (encode_ctl_reply r) d0"
    using assms(1) unfolding on_ctl_def Let_def 1 2 prod.case
    by (simp split: if_splits option.splits) blast+
  then show ?thesis using P(1,2) \<open>P d1\<close> \<open>P d2\<close> by blast
qed

text \<open>
  Every request, known or not, is answered to its sender with one line as
  the last thing sent, unless it lets an exception out; an unknown one changes nothing and the
  tool would report it as an error.
\<close>

lemma requests_answered:
  assumes "wscript (world d) fd = []" "on_line fd (encode_ctl c p) d = (None, d')"
  shows "\<exists>sent reply. wire (world d') = wire (world d) @ sent @ [(fd, encode_ctl_reply reply @ ''\<newline>'')] \<and>
    (c \<notin> known_requests \<longrightarrow>
      sent = [] \<and> d' = d\<lparr>world := world d'\<rparr> \<and>
      ctl_finish cmd (encode_ctl_reply reply) = (4, [], ''error: unknown command: '' @ c @ ''\<newline>''))"
proof -
  have ans: "\<exists>sent reply. wire (world d') = wire (world d) @ sent @ [(fd, encode_ctl_reply reply @ ''\<newline>'')]"
    if "heals fd d d1" "grows d d1" "d' = send fd (encode_ctl_reply r) d1" for d1 r
    using reply_line [OF that(1) assms(1), of "encode_ctl_reply r"] that(2,3)
    by (auto simp: grows_def prefix_def)
  have step: "on_ctl fd (ctl_msg c p) d = (None, d')" using assms(2) by (simp add: on_line_ctl)
  show ?thesis
  proof (cases "c \<in> known_requests")
    case False
    then have "d' = send fd (encode_ctl_reply (error_reply (''unknown command: '' @ c))) d"
      using step by (auto simp: on_ctl_def known_requests_def)
    then show ?thesis
      using send_healthy [OF assms(1)] finish_error [of cmd "''unknown command: '' @ c"]
      by (auto simp: send_def intro!: exI [of _ "[]"])
  next
    case True
    have "\<exists>d1 r. (heals fd d d1 \<and> grows d d1) \<and> d' = send fd (encode_ctl_reply r) d1"
      by (rule on_ctl_reply [OF step])
        (simp_all add: heal.set_active_rel grow.set_active_rel heal.reload_rel grow.reload_rel)
    then show ?thesis using ans True by blast
  qed
qed

end
