(* ===== verification/Logger.thy ===== *)
theory Logger
  imports Prelude
begin

text \<open>
  \<open>src/shared/logger.hpp\<close>: the log levels, their tags, the parser of their names, and when
  an entry is written.  The order of the levels is the order of the enumeration.
\<close>

datatype log_level = LDebug | LInfo | LWarn | LError

fun level_rank :: "log_level \<Rightarrow> nat" where
  "level_rank LDebug = 0"
| "level_rank LInfo = 1"
| "level_rank LWarn = 2"
| "level_rank LError = 3"

lemma level_rank_inj: "level_rank a = level_rank b \<Longrightarrow> a = b"
  by (cases a; cases b) simp_all

instantiation log_level :: linorder
begin

definition less_eq_log_level :: "log_level \<Rightarrow> log_level \<Rightarrow> bool" where
  "less_eq_log_level a b \<longleftrightarrow> level_rank a \<le> level_rank b"

definition less_log_level :: "log_level \<Rightarrow> log_level \<Rightarrow> bool" where
  "less_log_level a b \<longleftrightarrow> level_rank a < level_rank b"

instance
  by standard (auto simp: less_eq_log_level_def less_log_level_def intro: level_rank_inj)

end

fun level_tag :: "log_level \<Rightarrow> string" where
  "level_tag LDebug = ''DEBUG''"
| "level_tag LInfo = ''INFO ''"
| "level_tag LWarn = ''WARN ''"
| "level_tag LError = ''ERROR''"

definition parse_log_level :: "string \<Rightarrow> log_level res" where
  "parse_log_level s =
     (if s = ''debug'' then Inr LDebug else if s = ''info'' then Inr LInfo
      else if s = ''warn'' then Inr LWarn else if s = ''error'' then Inr LError
      else Inl (Invalid_argument (''unknown log level: '' @ s)))"

text \<open>An entry under construction, and the four statements that start one.\<close>

record log_entry =
  entry_level :: log_level
  entry_text :: string

definition new_entry :: "log_level \<Rightarrow> log_entry" where
  "new_entry l = \<lparr>entry_level = l, entry_text = []\<rparr>"

definition LOG_DEBUG :: log_entry where "LOG_DEBUG = new_entry LDebug"
definition LOG_INFO :: log_entry where "LOG_INFO = new_entry LInfo"
definition LOG_WARN :: log_entry where "LOG_WARN = new_entry LWarn"
definition LOG_ERROR :: log_entry where "LOG_ERROR = new_entry LError"

text \<open>\<open>operator<<\<close>, for the text of its operand.\<close>

definition log_put :: "string \<Rightarrow> log_entry \<Rightarrow> log_entry" where
  "log_put v e = e\<lparr>entry_text := entry_text e @ v\<rparr>"

text \<open>
  The destructor: what is on standard error afterwards, for the time of day \<open>clock\<close>.  The
  lock makes the entry appear as a whole, which appending it says.
\<close>

definition end_entry :: "log_level \<Rightarrow> string \<Rightarrow> log_entry \<Rightarrow> string \<Rightarrow> string" where
  "end_entry g_log_level clock e err =
     (if entry_level e < g_log_level then err
      else err @ ''['' @ clock @ ''] '' @ level_tag (entry_level e) @ ''  '' @ entry_text e @ ''\<newline>'')"

text \<open>A statement \<open>LOG_X << a << b << ...\<close>.\<close>

lemma log_puts: "fold log_put vs e = e\<lparr>entry_text := entry_text e @ concat vs\<rparr>"
  by (induction vs arbitrary: e) (simp_all add: log_put_def)

text \<open>Raising the level only ever silences entries.\<close>

lemma end_entry_mono:
  "g \<le> g' \<Longrightarrow> end_entry g clock e err = err \<Longrightarrow> end_entry g' clock e err = err"
  by (auto simp: end_entry_def split: if_splits)

lemma level_tag_length: "length (level_tag l) = 5"
  by (cases l) simp_all

end
