(* ===== verification/Idle_Monitor.thy ===== *)
theory Idle_Monitor
  imports Prelude
begin

text \<open>
  \<open>src/agent/idle_monitor.hpp\<close> and \<open>input_idle_monitor.cpp\<close>: the interface of the idle
  monitors and the one that watches input devices with a timer.  The three callbacks are
  the events a monitor emits; it keeps no other link to the agent.
\<close>

datatype idle_event = On_dim | On_sleep | On_active

text \<open>
  What the agent relies on: once both timeouts are switched off, nothing the monitor is fed
  makes it report dimming or sleeping.
\<close>

locale idle_source =
  fixes set_timeouts :: "i32 \<Rightarrow> i32 \<Rightarrow> 's \<Rightarrow> 's"
    and feed_event :: "'i \<Rightarrow> 's \<Rightarrow> idle_event list \<times> 's"
    and off :: "'s \<Rightarrow> bool"
  assumes off_set: "sint d \<le> 0 \<Longrightarrow> sint s \<le> 0 \<Longrightarrow> off (set_timeouts d s m)"
    and off_event: "off m \<Longrightarrow> off (snd (feed_event i m))"
    and off_silent: "off m \<Longrightarrow> set (fst (feed_event i m)) \<subseteq> {On_active}"
begin

text \<open>All pending events of one call of \<open>poll\<close>.\<close>

primrec poll_all :: "'i list \<Rightarrow> 's \<Rightarrow> idle_event list \<times> 's" where
  "poll_all [] m = ([], m)"
| "poll_all (i # is) m =
     (let (o1, m1) = feed_event i m; (o2, m2) = poll_all is m1 in (o1 @ o2, m2))"

lemma poll_off:
  "off m \<Longrightarrow> off (snd (poll_all is m)) \<and> set (fst (poll_all is m)) \<subseteq> {On_active}"
proof (induction "is" arbitrary: m)
  case Nil
  then show ?case by simp
next
  case (Cons i "is")
  from Cons.IH [OF off_event [OF Cons.prems, of i]] off_silent [OF Cons.prems, of i]
  show ?case by (auto simp: Let_def split_beta)
qed

lemma switched_off:
  "sint d \<le> 0 \<Longrightarrow> sint s \<le> 0 \<Longrightarrow> set (fst (poll_all is (set_timeouts d s m))) \<subseteq> {On_active}"
  using poll_off off_set by blast

end

section \<open>The monitor of input devices\<close>

text \<open>
  \<open>i_timer\<close> is the last expiry handed to \<open>timerfd_settime\<close>, seconds and nanoseconds;
  \<open>i_watched\<close> the descriptors in the monitor's own epoll set.
\<close>

record input_idle =
  i_epoll_fd :: int
  i_timer_fd :: int
  i_dim_ms :: i32
  i_sleep_ms :: i32
  i_dimmed :: bool
  i_sleeping :: bool
  i_last_event_ms :: u64
  i_timer :: "(i32 \<times> i64) option"
  i_watched :: "int list"

definition new_input_idle :: input_idle where
  "new_input_idle = \<lparr>i_epoll_fd = -1, i_timer_fd = -1, i_dim_ms = 0, i_sleep_ms = 0,
     i_dimmed = False, i_sleeping = False, i_last_event_ms = 0, i_timer = None, i_watched = []\<rparr>"

definition mono_ms :: "i64 \<Rightarrow> i64 \<Rightarrow> u64" where
  "mono_ms tv_sec tv_nsec = ucast tv_sec * 1000 + ucast (sdiv64 tv_nsec 1000000)"

text \<open>The \<open>itimerspec\<close> for a delay in milliseconds.\<close>

definition timer_value :: "i32 \<Rightarrow> i32 \<times> i64" where
  "timer_value ms = (sdiv32 ms 1000, to_i64 (smod32 ms 1000) * 1000000)"

definition reset_idle_timer :: "input_idle \<Rightarrow> input_idle" where
  "reset_idle_timer m =
     (if i_timer_fd m < 0 then m
      else let first_ms = (if 0 < sint (i_dim_ms m) then i_dim_ms m
                           else if 0 < sint (i_sleep_ms m) then i_sleep_ms m else 0)
           in if sint first_ms \<le> 0 then m
              else m\<lparr>i_timer := Some (timer_value first_ms), i_dimmed := False, i_sleeping := False\<rparr>)"

definition i_set_timeouts :: "i32 \<Rightarrow> i32 \<Rightarrow> input_idle \<Rightarrow> input_idle" where
  "i_set_timeouts dim_ms sleep_ms m =
     reset_idle_timer (m\<lparr>i_dim_ms := dim_ms, i_sleep_ms := sleep_ms\<rparr>)"

text \<open>\<open>entries\<close>: the directory's names with the descriptor \<open>open\<close> returns for each.\<close>

definition open_input_devices :: "(string \<times> int) list option \<Rightarrow> input_idle \<Rightarrow> bool \<times> input_idle" where
  "open_input_devices entries m =
     (case entries of
        None \<Rightarrow> (False, m)
      | Some ds \<Rightarrow>
          let fds = map snd (filter (\<lambda>(name, fd). take 5 name = ''event'' \<and> 0 \<le> fd) ds)
          in (fds \<noteq> [], m\<lparr>i_watched := i_watched m @ fds\<rparr>))"

definition i_init :: "i32 \<Rightarrow> i32 \<Rightarrow> int \<Rightarrow> int \<Rightarrow> (string \<times> int) list option \<Rightarrow> u64 \<Rightarrow> input_idle \<Rightarrow>
    bool \<times> input_idle" where
  "i_init dim_ms sleep_ms epoll_fd timer_fd entries now m =
     (let m1 = m\<lparr>i_dim_ms := dim_ms, i_sleep_ms := sleep_ms, i_epoll_fd := epoll_fd\<rparr>
      in if epoll_fd < 0 then (False, m1)
         else let m2 = m1\<lparr>i_timer_fd := timer_fd\<rparr>
              in if timer_fd < 0 then (False, m2)
                 else let m3 = snd (open_input_devices entries
                            (m2\<lparr>i_watched := i_watched m2 @ [timer_fd]\<rparr>))
                      in (True, reset_idle_timer (m3\<lparr>i_last_event_ms := now\<rparr>)))"

text \<open>\<open>~InputIdleMonitor\<close>: the descriptors closed, in order.\<close>

definition i_destroy :: "input_idle \<Rightarrow> int list" where
  "i_destroy m = (if 0 \<le> i_timer_fd m then [i_timer_fd m] else []) @
     (if 0 \<le> i_epoll_fd m then [i_epoll_fd m] else [])"

definition on_timeout :: "u64 \<Rightarrow> input_idle \<Rightarrow> idle_event list \<times> input_idle" where
  "on_timeout now m =
     (let elapsed = (ucast (now - i_last_event_ms m) :: i32)
      in if \<not> i_sleeping m \<and> 0 < sint (i_sleep_ms m) \<and> sint (i_sleep_ms m) \<le> sint elapsed then
           ([On_sleep], m\<lparr>i_sleeping := True\<rparr>)
         else if \<not> i_dimmed m \<and> 0 < sint (i_dim_ms m) \<and> sint (i_dim_ms m) \<le> sint elapsed then
           (let m1 = m\<lparr>i_dimmed := True\<rparr>
            in ([On_dim],
                if 0 < sint (i_sleep_ms m1) \<and> \<not> i_sleeping m1 then
                  (let remain_ms = i_sleep_ms m1 - elapsed
                   in m1\<lparr>i_timer := Some (timer_value (if sint remain_ms < 1 then 1 else remain_ms))\<rparr>)
                else m1))
         else ([], m))"

text \<open>A ready descriptor of the monitor, with the monotonic clock when it is handled.\<close>

datatype input_ready = Timer_ready u64 | Device_ready u64

fun i_handle :: "input_ready \<Rightarrow> input_idle \<Rightarrow> idle_event list \<times> input_idle" where
  "i_handle (Timer_ready now) m = on_timeout now m"
| "i_handle (Device_ready now) m =
     (let was_idle = i_dimmed m \<or> i_sleeping m;
          m1 = reset_idle_timer (m\<lparr>i_last_event_ms := now\<rparr>)
      in (if was_idle then [On_active] else [], m1))"

fun i_poll :: "input_ready list \<Rightarrow> input_idle \<Rightarrow> idle_event list \<times> input_idle" where
  "i_poll [] m = ([], m)"
| "i_poll (r # rs) m =
     (let (out, m1) = i_handle r m; (out', m2) = i_poll rs m1 in (out @ out', m2))"

definition i_off :: "input_idle \<Rightarrow> bool" where
  "i_off m \<longleftrightarrow> sint (i_dim_ms m) \<le> 0 \<and> sint (i_sleep_ms m) \<le> 0"

lemma reset_timeouts [simp]:
  "i_dim_ms (reset_idle_timer m) = i_dim_ms m" "i_sleep_ms (reset_idle_timer m) = i_sleep_ms m"
  "i_timer_fd (reset_idle_timer m) = i_timer_fd m"
  "i_last_event_ms (reset_idle_timer m) = i_last_event_ms m"
  by (simp_all add: reset_idle_timer_def Let_def)

interpretation input: idle_source i_set_timeouts i_handle i_off
proof (unfold_locales, goal_cases)
  case (1 d s m)
  then show ?case by (simp add: i_off_def i_set_timeouts_def)
next
  case (2 m i)
  then show ?case by (cases i) (auto simp: i_off_def on_timeout_def Let_def)
next
  case (3 m i)
  then show ?case by (cases i) (auto simp: i_off_def on_timeout_def Let_def)
qed

lemma i_poll_all: "i_poll rs m = input.poll_all rs m"
  by (induction rs arbitrary: m) simp_all

subsection \<open>What it reports\<close>

text \<open>A delay below 2^31 ms is what the signed 32-bit \<open>elapsed\<close> shows of it.\<close>

lemma elapsed_after: "(ucast (of_nat a :: u64) :: i32) = of_nat a"
  by (rule bit_word_eqI) (simp add: bit_simps)

lemma sint_of_nat_small: "a < 2 ^ 31 \<Longrightarrow> sint (of_nat a :: i32) = int a"
  using sint_of_int32 [of "int a"] by (simp add: fits32_def)

text \<open>Armed: a timer, both thresholds in order, nothing reported since the last input.\<close>

definition i_idle_since :: "u64 \<Rightarrow> input_idle \<Rightarrow> bool" where
  "i_idle_since t m \<longleftrightarrow> 0 \<le> i_timer_fd m \<and> 0 < sint (i_dim_ms m) \<and> i_last_event_ms m = t \<and>
     \<not> i_dimmed m \<and> \<not> i_sleeping m"

lemma idle_cycle_run:
  assumes m: "i_idle_since t m"
    and a: "sint (i_dim_ms m) \<le> int a" "int a < sint (i_sleep_ms m)"
    and b: "sint (i_sleep_ms m) \<le> int b" "b < 2 ^ 31"
    and d: "i_handle (Timer_ready (t + of_nat a)) m = (out1, m1)"
    and sl: "i_handle (Timer_ready (t + of_nat b)) m1 = (out2, m2)"
    and act: "i_handle (Device_ready t') m2 = (out3, m3)"
  shows "out1 = [On_dim] \<and> i_timer m1 = Some (timer_value (i_sleep_ms m - of_nat a)) \<and>
    sint (i_sleep_ms m - of_nat a) = sint (i_sleep_ms m) - int a \<and>
    out2 = [On_sleep] \<and> out3 = [On_active] \<and> i_idle_since t' m3 \<and>
    i_timer m3 = Some (timer_value (i_dim_ms m)) \<and>
    i_dim_ms m3 = i_dim_ms m \<and> i_sleep_ms m3 = i_sleep_ms m"
proof -
  have small: "a < 2 ^ 31" using a b by linarith
  note el = elapsed_after sint_of_nat_small [OF small] sint_of_nat_small [OF b(2)]
  have left: "sint (i_sleep_ms m - of_nat a) = sint (i_sleep_ms m) - int a"
  proof -
    have "fits32 (sint (i_sleep_ms m) - int a)"
      using fits32_sint [of "i_sleep_ms m"] a by (simp add: fits32_def)
    then show ?thesis using sint_of_int32 [of "sint (i_sleep_ms m) - int a"] by simp
  qed
  have m1: "out1 = [On_dim] \<and> m1 = m\<lparr>i_dimmed := True,
      i_timer := Some (timer_value (i_sleep_ms m - of_nat a))\<rparr>"
    using d m a left by (simp add: i_idle_since_def on_timeout_def Let_def el)
  have m2: "out2 = [On_sleep] \<and> m2 = m1\<lparr>i_sleeping := True\<rparr>"
    using sl m m1 a b by (simp add: i_idle_since_def on_timeout_def Let_def el)
  then have "out3 = [On_active] \<and> m3 = reset_idle_timer (m2\<lparr>i_last_event_ms := t'\<rparr>)"
    using act by (simp add: Let_def)
  then show ?thesis
    using m m1 m2 left by (simp add: i_idle_since_def reset_idle_timer_def)
qed

text \<open>
  C26: with a dim timeout below the sleep timeout, when the timer is handled at
  least the dim but less than the sleep timeout after the last input, again at least the sleep
  timeout after it, and an input follows, the monitor reports dimming, sleeping and activity,
  once each and in this order; in between it asks for exactly the time that is left, and
  afterwards it is armed with the dim timeout as before.
\<close>

theorem idle_cycle:
  assumes m: "i_idle_since t m"
    and a: "sint (i_dim_ms m) \<le> int a" "int a < sint (i_sleep_ms m)"
    and b: "sint (i_sleep_ms m) \<le> int b" "b < 2 ^ 31"
    and d: "i_handle (Timer_ready (t + of_nat a)) m = (out1, m1)"
    and sl: "i_handle (Timer_ready (t + of_nat b)) m1 = (out2, m2)"
    and act: "i_handle (Device_ready t') m2 = (out3, m3)"
  shows "out1 = [On_dim] \<and> i_timer m1 = Some (timer_value (i_sleep_ms m - of_nat a)) \<and>
    sint (i_sleep_ms m - of_nat a) = sint (i_sleep_ms m) - int a \<and>
    out2 = [On_sleep] \<and> out3 = [On_active] \<and> i_idle_since t' m3 \<and>
    i_timer m3 = Some (timer_value (i_dim_ms m)) \<and>
    i_dim_ms m3 = i_dim_ms m \<and> i_sleep_ms m3 = i_sleep_ms m"
  by (rule idle_cycle_run [OF assms])

text \<open>
  With a sleep timeout not above the dim timeout the timer is still
  armed with the dim timeout, so the sleep report comes only after that, and dimming is not
  reported at all before the next input.
\<close>

lemma sleep_waits_for_dim:
  assumes "0 \<le> i_timer_fd m" "0 < sint s" "sint s \<le> sint d"
    and m': "m' = i_set_timeouts d s m" "i_last_event_ms m = t"
    and b: "sint d \<le> int b" "b < 2 ^ 31"
  shows "i_timer m' = Some (timer_value d) \<and>
    i_handle (Timer_ready (t + of_nat b)) m' = ([On_sleep], m'\<lparr>i_sleeping := True\<rparr>) \<and>
    i_timer (snd (i_handle (Timer_ready (t + of_nat b)) m')) = i_timer m'"
  using assms
  by (simp add: i_set_timeouts_def reset_idle_timer_def on_timeout_def elapsed_after
      sint_of_nat_small Let_def)

text \<open>
  Giving a monitor new timeouts makes it forget that it reported dimming or sleeping, so the
  next input is not reported as activity: whoever was told to dim is not told to stop.
\<close>

lemma new_timeouts_forget_idle:
  assumes "0 \<le> i_timer_fd m" "0 < sint d \<or> 0 < sint s"
  shows "fst (i_handle (Device_ready t) (i_set_timeouts d s m)) = []"
  using assms by (auto simp: i_set_timeouts_def reset_idle_timer_def Let_def)

end
