(* ===== verification/Wayland_Idle.thy ===== *)
theory Wayland_Idle
  imports Idle_Monitor "HOL-Library.Multiset"
begin

text \<open>
  \<open>src/agent/wayland_idle_monitor.cpp\<close>: the idle monitor of a Wayland compositor.  The
  objects the client library returns are numbers (\<open>None\<close> for a null pointer); the
  notifications made and destroyed are kept as a trace.
\<close>

datatype wl_request = Get_notification int u32 | Destroy_notification int

record wayland_idle =
  w_display :: bool
  w_registry :: bool
  w_notifier :: "int option"
  w_seat :: "int option"
  w_notif_dim :: "int option"
  w_notif_sleep :: "int option"
  w_requests :: "wl_request list"

definition new_wayland_idle :: wayland_idle where
  "new_wayland_idle = \<lparr>w_display = False, w_registry = False, w_notifier = None, w_seat = None,
     w_notif_dim = None, w_notif_sleep = None, w_requests = []\<rparr>"

definition destroy_notifications :: "wayland_idle \<Rightarrow> wayland_idle" where
  "destroy_notifications m =
     (let m1 = (case w_notif_sleep m of
                  Some n \<Rightarrow> m\<lparr>w_requests := w_requests m @ [Destroy_notification n],
                              w_notif_sleep := None\<rparr>
                | None \<Rightarrow> m)
      in (case w_notif_dim m1 of
            Some n \<Rightarrow> m1\<lparr>w_requests := w_requests m1 @ [Destroy_notification n], w_notif_dim := None\<rparr>
          | None \<Rightarrow> m1))"

text \<open>\<open>got\<close>: what the library returns for the dim and for the sleep notification.\<close>

definition create_notifications ::
    "int option \<times> int option \<Rightarrow> i32 \<Rightarrow> i32 \<Rightarrow> wayland_idle \<Rightarrow> bool \<times> wayland_idle" where
  "create_notifications got dim_ms sleep_ms m =
     (let m0 = destroy_notifications m;
          (dim_ok, m1) =
            (if 0 < sint dim_ms then
               (case fst got of
                  None \<Rightarrow> (False, m0)
                | Some n \<Rightarrow> (True, m0\<lparr>w_notif_dim := Some n,
                               w_requests := w_requests m0 @ [Get_notification n (ucast dim_ms)]\<rparr>))
             else (True, m0))
      in if \<not> dim_ok then (False, m1)
         else if 0 < sint sleep_ms then
           (case snd got of
              None \<Rightarrow> (False, m1)
            | Some n \<Rightarrow> (True, m1\<lparr>w_notif_sleep := Some n,
                           w_requests := w_requests m1 @ [Get_notification n (ucast sleep_ms)]\<rparr>))
         else (True, m1))"

definition w_set_timeouts :: "int option \<times> int option \<Rightarrow> i32 \<Rightarrow> i32 \<Rightarrow> wayland_idle \<Rightarrow> wayland_idle" where
  "w_set_timeouts got dim_ms sleep_ms m = snd (create_notifications got dim_ms sleep_ms m)"

text \<open>
  The registry's globals during the round trip: the interface's name and what binding it
  returns.  The last of each kind is kept.
\<close>

fun bind_globals :: "(string \<times> int option) list \<Rightarrow> int option \<times> int option \<Rightarrow>
    int option \<times> int option" where
  "bind_globals [] ctx = ctx"
| "bind_globals ((iface, obj) # gs) (notifier, seat) =
     (if iface = ''ext_idle_notifier_v1'' then bind_globals gs (obj, seat)
      else if iface = ''wl_seat'' then bind_globals gs (notifier, obj)
      else bind_globals gs (notifier, seat))"

definition w_init :: "bool \<Rightarrow> bool \<Rightarrow> (string \<times> int option) list \<Rightarrow> int option \<times> int option \<Rightarrow>
    i32 \<Rightarrow> i32 \<Rightarrow> wayland_idle \<Rightarrow> bool \<times> wayland_idle" where
  "w_init wayland_display connect_ok globals got dim_ms sleep_ms m =
     (if \<not> wayland_display then (False, m)
      else if \<not> connect_ok then (False, m\<lparr>w_display := False\<rparr>)
      else let (notifier, seat) = bind_globals globals (None, None);
               m1 = m\<lparr>w_display := True, w_registry := True, w_notifier := notifier, w_seat := seat\<rparr>
           in if notifier = None then (False, m1)
              else if seat = None then (False, m1)
              else create_notifications got dim_ms sleep_ms m1)"

text \<open>\<open>~WaylandIdleMonitor\<close>: the state, and the library objects destroyed after the notifications.\<close>

datatype wl_object = Notifier int | Seat int | Registry | Display

definition w_destroy :: "wayland_idle \<Rightarrow> wayland_idle \<times> wl_object list" where
  "w_destroy m =
     (destroy_notifications m,
      (case w_notifier m of Some n \<Rightarrow> [Notifier n] | None \<Rightarrow> []) @
      (case w_seat m of Some n \<Rightarrow> [Seat n] | None \<Rightarrow> []) @
      (if w_registry m then [Registry] else []) @
      (if w_display m then [Display] else []))"

definition w_fd :: "int \<Rightarrow> wayland_idle \<Rightarrow> int" where
  "w_fd display_fd m = (if w_display m then display_fd else -1)"

text \<open>The events of a notification that \<open>poll\<close> dispatches.\<close>

datatype wl_event = Idled int | Resumed int

fun on_notification :: "wl_event \<Rightarrow> wayland_idle \<Rightarrow> idle_event list \<times> wayland_idle" where
  "on_notification (Idled n) m =
     (if w_notif_dim m = Some n then ([On_dim], m)
      else if w_notif_sleep m = Some n then ([On_sleep], m)
      else ([], m))"
| "on_notification (Resumed n) m = ([On_active], m)"

fun w_poll :: "wl_event list \<Rightarrow> wayland_idle \<Rightarrow> idle_event list \<times> wayland_idle" where
  "w_poll [] m = ([], m)"
| "w_poll (e # es) m =
     (let (out, m1) = on_notification e m; (out', m2) = w_poll es m1 in (out @ out', m2))"

section \<open>Lemmas\<close>

definition w_off :: "wayland_idle \<Rightarrow> bool" where
  "w_off m \<longleftrightarrow> w_notif_dim m = None \<and> w_notif_sleep m = None"

lemma destroy_off [simp]:
  "w_notif_dim (destroy_notifications m) = None" "w_notif_sleep (destroy_notifications m) = None"
  by (simp_all add: destroy_notifications_def Let_def split: option.splits)

interpretation wayland: idle_source "w_set_timeouts got" on_notification w_off for got
proof (unfold_locales, goal_cases)
  case (1 d s m)
  then show ?case by (simp add: w_set_timeouts_def create_notifications_def w_off_def)
next
  case (2 m i)
  then show ?case by (cases i) (auto simp: w_off_def)
next
  case (3 m i)
  then show ?case by (cases i) (auto simp: w_off_def)
qed

lemma w_poll_all: "w_poll es m = wayland.poll_all es m"
  by (induction es arbitrary: m) simp_all

text \<open>The notifications alive at the compositor, by the trace of requests.\<close>

fun live :: "wl_request list \<Rightarrow> (int \<times> u32) list \<Rightarrow> (int \<times> u32) list" where
  "live [] l = l"
| "live (Get_notification n t # rs) l = live rs (l @ [(n, t)])"
| "live (Destroy_notification n # rs) l = live rs (filter (\<lambda>(k, t). k \<noteq> n) l)"

lemma live_append: "live (a @ b) l = live b (live a l)"
  by (induction a l rule: live.induct) simp_all

text \<open>The monitor's two fields are exactly the notifications alive.\<close>

definition w_ok :: "wayland_idle \<Rightarrow> bool" where
  "w_ok m \<longleftrightarrow> map fst (live (w_requests m) []) =
     (case w_notif_dim m of Some n \<Rightarrow> [n] | None \<Rightarrow> []) @
     (case w_notif_sleep m of Some n \<Rightarrow> [n] | None \<Rightarrow> [])"

lemma new_wayland_ok: "w_ok new_wayland_idle"
  by (simp add: w_ok_def new_wayland_idle_def)

lemma destroy_live: "w_ok m \<Longrightarrow> live (w_requests (destroy_notifications m)) [] = []"
  by (auto simp: w_ok_def destroy_notifications_def live_append Let_def map_eq_Cons_conv
      split: option.splits)

text \<open>New timeouts replace whatever was there.\<close>

lemma create_live:
  assumes "w_ok m" "create_notifications got d s m = (ok, m')"
  shows "w_ok m' \<and> (\<forall>(n, t) \<in> set (live (w_requests m') []). t = ucast d \<or> t = ucast s) \<and>
    (ok \<longrightarrow> map snd (live (w_requests m') []) =
      (if 0 < sint d then [ucast d] else []) @ (if 0 < sint s then [ucast s] else []))"
proof -
  have l: "live (w_requests (destroy_notifications m)) [] = []" by (rule destroy_live [OF assms(1)])
  have n: "w_notif_dim (destroy_notifications m) = None" "w_notif_sleep (destroy_notifications m) = None"
    by simp_all
  show ?thesis
    using assms(2) l n
    by (auto simp: create_notifications_def w_ok_def live_append Let_def split: if_splits option.splits)
qed

text \<open>
  C30: whatever the library returns, setting new timeouts leaves
  at the compositor no notification but those for the new timeouts, each of them with the
  monitor's own pointer to it; with working calls there is one per positive timeout.
\<close>

theorem wayland_no_stale_notification:
  assumes "w_ok m" "create_notifications got d s m = (ok, m')"
  shows "w_ok m' \<and> (\<forall>(n, t) \<in> set (live (w_requests m') []). t = ucast d \<or> t = ucast s) \<and>
    (ok \<longrightarrow> map snd (live (w_requests m') []) =
      (if 0 < sint d then [ucast d] else []) @ (if 0 < sint s then [ucast s] else []))"
  by (rule create_live [OF assms])

end
