(* ===== verification/Mpris.thy ===== *)
theory Mpris
  imports Prelude
begin

text \<open>
  \<open>src/agent/mpris_monitor.cpp\<close>: the media players on the session bus.  The bus is given by
  what it answers: \<open>ask u\<close> is the playback status of the player \<open>u\<close>, \<open>None\<close> when the
  property cannot be read, \<open>Some None\<close> when the reply holds no string.  The two callbacks
  are installed together; an event is emitted only once they are.
\<close>

type_synonym bus = "string \<Rightarrow> string option option"

datatype mpris_event = M_inhibit | M_uninhibit

record mpris =
  m_open :: bool
  m_wk_to_unique :: "(string \<times> string) list"
  m_unique_to_wk :: "(string \<times> string) list"
  m_playing :: "string list"
  m_inhibiting :: bool
  m_callbacks :: bool

definition k_inhibit_reason :: string where "k_inhibit_reason = ''mpris-playing''"

definition new_mpris :: mpris where
  "new_mpris = \<lparr>m_open = False, m_wk_to_unique = [], m_unique_to_wk = [], m_playing = [],
     m_inhibiting = False, m_callbacks = False\<rparr>"

definition is_mpris_name :: "string \<Rightarrow> bool" where
  "is_mpris_name name \<longleftrightarrow> take 23 name = ''org.mpris.MediaPlayer2.''"

definition set_player_playing :: "string \<Rightarrow> bool \<Rightarrow> mpris \<Rightarrow> mpris_event list \<times> mpris" where
  "set_player_playing unique playing m =
     (let m1 = m\<lparr>m_playing := (if playing then List.insert unique (m_playing m)
                               else filter (\<lambda>u. u \<noteq> unique) (m_playing m))\<rparr>;
          any_playing = (m_playing m1 \<noteq> [])
      in if any_playing \<and> \<not> m_inhibiting m1 then
           (if m_callbacks m1 then [M_inhibit] else [], m1\<lparr>m_inhibiting := True\<rparr>)
         else if \<not> any_playing \<and> m_inhibiting m1 then
           (if m_callbacks m1 then [M_uninhibit] else [], m1\<lparr>m_inhibiting := False\<rparr>)
         else ([], m1))"

definition query_playback_status :: "bus \<Rightarrow> string \<Rightarrow> mpris \<Rightarrow> mpris_event list \<times> mpris" where
  "query_playback_status ask unique m =
     (case ask unique of
        Some (Some status) \<Rightarrow> set_player_playing unique (status = ''Playing'') m
      | _ \<Rightarrow> ([], m))"

definition add_player :: "bus \<Rightarrow> string \<Rightarrow> string \<Rightarrow> mpris \<Rightarrow> mpris_event list \<times> mpris" where
  "add_player ask well_known unique m =
     query_playback_status ask unique
       (m\<lparr>m_wk_to_unique := umap_put well_known unique (m_wk_to_unique m),
          m_unique_to_wk := umap_put unique well_known (m_unique_to_wk m)\<rparr>)"

definition remove_player :: "string \<Rightarrow> mpris \<Rightarrow> mpris_event list \<times> mpris" where
  "remove_player well_known m =
     (case map_of (m_wk_to_unique m) well_known of
        None \<Rightarrow> ([], m)
      | Some unique \<Rightarrow>
          set_player_playing unique False
            (m\<lparr>m_wk_to_unique := umap_erase well_known (m_wk_to_unique m),
               m_unique_to_wk := umap_erase unique (m_unique_to_wk m)\<rparr>))"

section \<open>Signals\<close>

text \<open>A string of the message that is missing is \<open>None\<close>.\<close>

definition handle_name_owner_changed ::
    "bus \<Rightarrow> string option \<Rightarrow> string option \<Rightarrow> mpris \<Rightarrow> mpris_event list \<times> mpris" where
  "handle_name_owner_changed ask name new_owner m =
     (case name of
        None \<Rightarrow> ([], m)
      | Some sname \<Rightarrow>
          if \<not> is_mpris_name sname then ([], m)
          else (case new_owner of
                  Some (c # cs) \<Rightarrow> add_player ask sname (c # cs) m
                | _ \<Rightarrow> remove_player sname m))"

text \<open>
  The changed properties: the key, and the value if it is a string variant (\<open>None\<close> for one
  that cannot be entered; it is then not skipped, leaving the entry fails, and no further
  entry can be entered).
\<close>

fun scan_changed :: "string \<Rightarrow> (string option \<times> string option option) list \<Rightarrow> mpris \<Rightarrow>
    mpris_event list \<times> mpris" where
  "scan_changed unique [] m = ([], m)"
| "scan_changed unique ((key, v) # es) m =
     (if key = Some ''PlaybackStatus'' then
        (case v of
           None \<Rightarrow> ([], m)
         | Some None \<Rightarrow> scan_changed unique es m
         | Some (Some val) \<Rightarrow>
             let (out, m1) = set_player_playing unique (val = ''Playing'') m;
                 (out', m2) = scan_changed unique es m1
             in (out @ out', m2))
      else scan_changed unique es m)"

definition handle_properties_changed ::
    "string option \<Rightarrow> string option \<Rightarrow> (string option \<times> string option option) list option \<Rightarrow>
     mpris \<Rightarrow> mpris_event list \<times> mpris" where
  "handle_properties_changed sender iface changed m =
     (case sender of
        None \<Rightarrow> ([], m)
      | Some unique \<Rightarrow>
          if map_of (m_unique_to_wk m) unique = None then ([], m)
          else if iface \<noteq> Some ''org.mpris.MediaPlayer2.Player'' then ([], m)
          else (case changed of None \<Rightarrow> ([], m) | Some es \<Rightarrow> scan_changed unique es m))"

datatype bus_signal =
    Name_owner_changed bus "string option" "string option"
  | Properties_changed "string option" "string option" "(string option \<times> string option option) list option"

fun handle_signal :: "bus_signal \<Rightarrow> mpris \<Rightarrow> mpris_event list \<times> mpris" where
  "handle_signal (Name_owner_changed ask name owner) m = handle_name_owner_changed ask name owner m"
| "handle_signal (Properties_changed sender iface changed) m =
     handle_properties_changed sender iface changed m"

fun process_signals :: "bus_signal list \<Rightarrow> mpris \<Rightarrow> mpris_event list \<times> mpris" where
  "process_signals [] m = ([], m)"
| "process_signals (s # ss) m =
     (let (out, m1) = handle_signal s m; (out', m2) = process_signals ss m1 in (out @ out', m2))"

definition mpris_poll :: "bus_signal list \<Rightarrow> mpris \<Rightarrow> mpris_event list \<times> mpris" where
  "mpris_poll ss m = (if \<not> m_open m then ([], m) else process_signals ss m)"

section \<open>Start\<close>

text \<open>The names on the bus, each with its owner (\<open>None\<close> for a failed call or no string).\<close>

fun scan_names :: "bus \<Rightarrow> (string \<times> string option) list \<Rightarrow> mpris \<Rightarrow>
    mpris_event list \<times> mpris" where
  "scan_names ask [] m = ([], m)"
| "scan_names ask ((name, owner) # ns) m =
     (if \<not> is_mpris_name name then scan_names ask ns m
      else (case owner of
              None \<Rightarrow> scan_names ask ns m
            | Some unique \<Rightarrow>
                let (out, m1) = add_player ask name unique m;
                    (out', m2) = scan_names ask ns m1
                in (out @ out', m2)))"

definition scan_existing_players :: "bus \<Rightarrow> (string \<times> string option) list option \<Rightarrow> mpris \<Rightarrow>
    mpris_event list \<times> mpris" where
  "scan_existing_players ask names m =
     (case names of None \<Rightarrow> ([], m) | Some ns \<Rightarrow> scan_names ask ns m)"

text \<open>
  \<open>names\<close> is \<open>None\<close> when the names cannot be listed; \<open>matches\<close> says which of the two
  subscriptions succeed.
\<close>

definition mpris_init :: "bool \<Rightarrow> bool \<times> bool \<Rightarrow> bus \<Rightarrow> (string \<times> string option) list option \<Rightarrow> mpris \<Rightarrow>
    bool \<times> mpris_event list \<times> mpris" where
  "mpris_init bus_ok matches ask names m =
     (if \<not> bus_ok then (False, [], m)
      else let m1 = m\<lparr>m_open := True\<rparr>
           in if \<not> fst matches then (False, [], m1)
              else if \<not> snd matches then (False, [], m1)
              else (True, scan_existing_players ask names m1))"

definition mpris_bus_fd :: "int \<Rightarrow> mpris \<Rightarrow> int" where
  "mpris_bus_fd sd_bus_get_fd m = (if m_open m then sd_bus_get_fd else -1)"

definition set_callbacks :: "mpris \<Rightarrow> mpris" where
  "set_callbacks m = m\<lparr>m_callbacks := True\<rparr>"

section \<open>What every handler keeps\<close>

lemma insert_nonempty [simp]: "List.insert x xs \<noteq> []"
  by (auto simp: List.insert_def)

text \<open>
  A relation between a state, the events emitted and the state after them, that composes,
  holds of the one operation that changes who plays and does not look at the name maps,
  holds of every handler.
\<close>

locale mpris_trace =
  fixes T :: "mpris \<Rightarrow> mpris_event list \<Rightarrow> mpris \<Rightarrow> bool"
  assumes T_refl: "T m [] m"
    and T_trans: "T m1 out m2 \<Longrightarrow> T m2 out' m3 \<Longrightarrow> T m1 (out @ out') m3"
    and T_set: "set_player_playing u p m = (out, m') \<Longrightarrow> T m out m'"
    and T_maps: "T m [] (m\<lparr>m_wk_to_unique := a, m_unique_to_wk := b\<rparr>)"
    and T_open: "T m [] (m\<lparr>m_open := True\<rparr>)"
begin

lemma T_maps_then: "T (m\<lparr>m_wk_to_unique := a, m_unique_to_wk := b\<rparr>) out m' \<Longrightarrow> T m out m'"
  using T_trans [OF T_maps [where m = m and a = a and b = b], of out m'] by simp

lemma T_query: "query_playback_status ask u m = (out, m') \<Longrightarrow> T m out m'"
  by (auto simp: query_playback_status_def T_refl T_set split: option.splits)

lemma T_add: "add_player ask n u m = (out, m') \<Longrightarrow> T m out m'"
  unfolding add_player_def by (rule T_maps_then, rule T_query)

lemma T_remove: "remove_player n m = (out, m') \<Longrightarrow> T m out m'"
  by (auto simp: remove_player_def T_refl split: option.splits intro: T_maps_then T_set)

lemma T_owner: "handle_name_owner_changed ask n w m = (out, m') \<Longrightarrow> T m out m'"
  by (auto simp: handle_name_owner_changed_def T_refl T_add T_remove
      split: option.splits if_splits list.splits)

lemma T_scan_changed: "scan_changed u es m = (out, m') \<Longrightarrow> T m out m'"
proof (induction u es m arbitrary: out m' rule: scan_changed.induct)
  case (2 unique key v es m)
  then show ?case
    by (auto simp: T_refl split: if_splits option.splits prod.splits)
      (metis T_set T_trans)+
qed (simp add: T_refl)

lemma T_properties: "handle_properties_changed sd i c m = (out, m') \<Longrightarrow> T m out m'"
  by (auto simp: handle_properties_changed_def T_refl T_scan_changed split: option.splits if_splits)

lemma T_signal: "handle_signal s m = (out, m') \<Longrightarrow> T m out m'"
  by (cases s) (auto simp: T_owner T_properties)

lemma T_signals: "process_signals ss m = (out, m') \<Longrightarrow> T m out m'"
  by (induction ss arbitrary: m out m')
    (auto simp: T_refl split: prod.splits intro: T_trans T_signal)

lemma T_poll: "mpris_poll ss m = (out, m') \<Longrightarrow> T m out m'"
  by (auto simp: mpris_poll_def T_refl T_signals split: if_splits)

lemma T_scan_names: "scan_names ask ns m = (out, m') \<Longrightarrow> T m out m'"
proof (induction ask ns m arbitrary: out m' rule: scan_names.induct)
  case (2 ask name owner ns m)
  then show ?case
    by (auto simp: T_refl split: if_splits option.splits prod.splits) (metis T_add T_trans)+
qed (simp add: T_refl)

lemma T_scan: "scan_existing_players ask names m = (out, m') \<Longrightarrow> T m out m'"
  by (auto simp: scan_existing_players_def T_refl T_scan_names split: option.splits)

lemma T_init: "mpris_init b ms ask ns m = (ok, out, m') \<Longrightarrow> T m out m'"
  using T_trans [OF T_open [of m]] T_scan
  by (fastforce simp: mpris_init_def Let_def T_refl T_open split: if_splits option.splits)

end

text \<open>The events tell a listener whether to inhibit, and none is repeated.\<close>

fun alternates :: "bool \<Rightarrow> mpris_event list \<Rightarrow> bool" where
  "alternates b [] = True"
| "alternates b (e # es) = ((e = M_inhibit) \<noteq> b \<and> alternates (e = M_inhibit) es)"

fun listener :: "bool \<Rightarrow> mpris_event list \<Rightarrow> bool" where
  "listener b [] = b"
| "listener b (e # es) = listener (e = M_inhibit) es"

lemma listener_append [simp]: "listener b (x @ y) = listener (listener b x) y"
  by (induction x arbitrary: b) simp_all

lemma alternates_append:
  "alternates b x \<Longrightarrow> alternates (listener b x) y \<Longrightarrow> alternates b (x @ y)"
  by (induction b x rule: alternates.induct) auto

definition tells :: "mpris \<Rightarrow> mpris_event list \<Rightarrow> mpris \<Rightarrow> bool" where
  "tells m out m' \<longleftrightarrow> m_callbacks m' = m_callbacks m \<and>
     (if m_callbacks m then alternates (m_inhibiting m) out \<and>
        listener (m_inhibiting m) out = m_inhibiting m' else out = [])"

definition knows :: "mpris \<Rightarrow> bool" where
  "knows m \<longleftrightarrow> m_inhibiting m = (m_playing m \<noteq> []) \<and> distinct (m_playing m)"

interpretation tell: mpris_trace tells
proof (unfold_locales, goal_cases)
  case (2 m1 out m2 out' m3)
  then show ?case by (auto simp: tells_def alternates_append split: if_splits)
next
  case (3 u p m out m')
  then show ?case by (auto simp: tells_def set_player_playing_def Let_def split: if_splits)
qed (auto simp: tells_def)

lemma set_player_knows:
  assumes "knows m"
  shows "knows (snd (set_player_playing u p m))"
  using assms by (simp add: knows_def set_player_playing_def Let_def)

interpretation know: mpris_trace "\<lambda>m out m'. knows m \<longrightarrow> knows m'"
proof (unfold_locales, goal_cases)
  case (3 u p m out m')
  then show ?case using set_player_knows [of m u p] by simp
qed (auto simp: knows_def)

lemma mpris_poll_view:
  assumes "knows m" "m_callbacks m" "mpris_poll ss m = (out, m')"
  shows "knows m' \<and> m_callbacks m' \<and> alternates (m_playing m \<noteq> []) out \<and>
    listener (m_playing m \<noteq> []) out = (m_playing m' \<noteq> [])"
  using assms tell.T_poll [OF assms(3)] know.T_poll [OF assms(3)] by (auto simp: tells_def knows_def)


lemma set_player_members:
  "set (m_playing (snd (set_player_playing u p m))) =
    (if p then insert u (set (m_playing m)) else set (m_playing m) - {u})"
  by (auto simp: set_player_playing_def Let_def filter_empty_conv)

lemma set_player_maps [simp]:
  "m_wk_to_unique (snd (set_player_playing u p m)) = m_wk_to_unique m"
  "m_unique_to_wk (snd (set_player_playing u p m)) = m_unique_to_wk m"
  by (simp_all add: set_player_playing_def Let_def)

lemma query_members:
  "set (m_playing (snd (query_playback_status ask u m))) =
    (case ask u of Some (Some st) \<Rightarrow>
       if st = ''Playing'' then insert u (set (m_playing m)) else set (m_playing m) - {u}
     | _ \<Rightarrow> set (m_playing m))"
  by (auto simp: query_playback_status_def set_player_members split: option.splits)

lemma add_members:
  "set (m_playing (snd (add_player ask n u m))) =
    (case ask u of Some (Some st) \<Rightarrow>
       if st = ''Playing'' then insert u (set (m_playing m)) else set (m_playing m) - {u}
     | _ \<Rightarrow> set (m_playing m))"
  by (simp add: add_player_def query_members split: option.splits)

lemma scan_keeps_playing:
  assumes "ask u = Some (Some ''Playing'')"
  shows "u \<in> set (m_playing m) \<or> (\<exists>n. (n, Some u) \<in> set ns \<and> is_mpris_name n) \<Longrightarrow>
    u \<in> set (m_playing (snd (scan_names ask ns m)))"
proof (induction ns arbitrary: m)
  case Nil
  then show ?case by simp
next
  case (Cons x ns)
  obtain n w where x: "x = (n, w)" by fastforce
  show ?case
  proof (cases "is_mpris_name n \<and> w \<noteq> None")
    case True
    then obtain v where v: "w = Some v" by blast
    have "u \<in> set (m_playing (snd (add_player ask n v m))) \<or>
        (\<exists>n. (n, Some u) \<in> set ns \<and> is_mpris_name n)"
      using Cons.prems assms by (auto simp: x v add_members split: option.splits)
    from Cons.IH [OF this] show ?thesis using True by (simp add: x v split_beta)
  next
    case False
    then show ?thesis using Cons by (auto simp: x split: option.splits)
  qed
qed

text \<open>
  C39: a player that is already playing when the monitor starts is
  found, but the callbacks are only installed afterwards: no inhibit call is made for it, nor
  for any other player before an uninhibit call, which comes when all have stopped.
\<close>

theorem playing_at_start_unheard:
  assumes "mpris_init bus_ok matches ask (Some ns) new_mpris = (True, out, m)"
    and "(n, Some u) \<in> set ns" "is_mpris_name n" "ask u = Some (Some ''Playing'')"
    and "mpris_poll ss (set_callbacks m) = (out', m')"
  shows "out = [] \<and> u \<in> set (m_playing m) \<and> m_inhibiting m \<and>
    (out' = [] \<and> m_playing m' \<noteq> [] \<or> hd out' = M_uninhibit)"
proof -
  have t: "tells new_mpris out m" by (rule tell.T_init [OF assms(1)])
  have "knows new_mpris" by (simp add: knows_def new_mpris_def)
  then have k: "knows m" using know.T_init [OF assms(1)] by blast
  have u: "u \<in> set (m_playing m)"
    using assms(1) scan_keeps_playing [where ask = ask and u = u and ns = ns, OF assms(4)] assms(2,3)
    by (auto simp: mpris_init_def scan_existing_players_def Let_def split: if_splits) (metis snd_conv)
  have c: "knows (set_callbacks m)" "m_callbacks (set_callbacks m)" "m_playing (set_callbacks m) = m_playing m"
    using k by (simp_all add: knows_def set_callbacks_def)
  have ne: "m_playing m \<noteq> []" using u by auto
  have r: "alternates True out'" "listener True out' = (m_playing m' \<noteq> [])"
    using mpris_poll_view [OF c(1,2) assms(5)] ne by (simp_all add: c(3))
  have "out = []" using t by (simp add: tells_def new_mpris_def)
  moreover have "m_inhibiting m" using k ne by (simp add: knows_def)
  moreover have "out' = [] \<and> m_playing m' \<noteq> [] \<or> hd out' = M_uninhibit"
  proof (cases out')
    case Nil
    then show ?thesis using r(2) by simp
  next
    case (Cons e es)
    then show ?thesis using r(1) by (cases e) simp_all
  qed
  ultimately show ?thesis using u by simp
qed

lemma set_player_other:
  assumes "m_inhibiting m" "a \<in> set (m_playing m)" "u \<noteq> a"
  shows "fst (set_player_playing u p m) = [] \<and> m_inhibiting (snd (set_player_playing u p m)) \<and>
    a \<in> set (m_playing (snd (set_player_playing u p m)))"
  using assms by (auto simp: set_player_playing_def Let_def filter_empty_conv)

lemma add_other:
  assumes "m_inhibiting m" "a \<in> set (m_playing m)" "u \<noteq> a"
  shows "fst (add_player ask n u m) = [] \<and> m_inhibiting (snd (add_player ask n u m)) \<and>
    a \<in> set (m_playing (snd (add_player ask n u m)))"
  using assms
  by (simp add: add_player_def query_playback_status_def set_player_other split: option.splits)

lemma add_wk: "m_wk_to_unique (snd (add_player ask n u m)) = umap_put n u (m_wk_to_unique m)"
  by (simp add: add_player_def query_playback_status_def split: option.splits)

lemma remove_other:
  assumes "m_inhibiting m" "a \<in> set (m_playing m)" "map_of (m_wk_to_unique m) n = Some u" "u \<noteq> a"
  shows "fst (remove_player n m) = [] \<and> a \<in> set (m_playing (snd (remove_player n m))) \<and>
    m_wk_to_unique (snd (remove_player n m)) = umap_erase n (m_wk_to_unique m)"
  using assms by (simp add: remove_player_def set_player_other)

text \<open>
  When a player's name passes from one connection to
  another without being released, the old connection is never taken off the list of the
  playing: after the name is gone too it still inhibits.
\<close>

lemma replaced_owner_keeps_playing:
  assumes "knows m" "m_callbacks m" "a \<in> set (m_playing m)" "is_mpris_name n"
    and "map_of (m_wk_to_unique m) n = Some a" "b \<noteq> a" "b \<noteq> []"
    and "handle_name_owner_changed ask (Some n) (Some b) m = (out1, m1)"
    and "handle_name_owner_changed ask' (Some n) (Some []) m1 = (out2, m2)"
  shows "map_of (m_wk_to_unique m2) n = None \<and> a \<in> set (m_playing m2) \<and> out1 = [] \<and> out2 = []"
proof -
  have inh: "m_inhibiting m" using assms(1,3) by (auto simp: knows_def)
  have 1: "add_player ask n b m = (out1, m1)"
    using assms by (cases b) (simp_all add: handle_name_owner_changed_def)
  have 2: "remove_player n m1 = (out2, m2)"
    using assms by (simp add: handle_name_owner_changed_def)
  have s1: "out1 = [] \<and> m_inhibiting m1 \<and> a \<in> set (m_playing m1)"
    using add_other [OF inh assms(3), of b ask n] assms(6) 1 by simp
  have wk: "map_of (m_wk_to_unique m1) n = Some b"
    using add_wk [of ask n b m] by (simp add: 1 map_of_umap_put)
  show ?thesis
    using remove_other [of m1 a n b] s1 wk assms(6) 2 by (simp add: map_of_umap_erase)
qed

end
