(* ===== verification/Agent.thy ===== *)
theory Agent
  imports Protocol World Wayland_Idle Mpris
begin

text \<open>
  \<open>src/agent/agent.cpp\<close>: the user session's agent.  It connects to the daemon, watches
  idleness through one of the two monitors and the media players, and runs the commands the
  daemon asks for.  What the environment decides (attempts to connect, forks, what the
  monitors are fed) is part of the state or an argument.
\<close>

section \<open>State\<close>

datatype monitor = Wayland wayland_idle | Input input_idle

record agent_options =
  socket_path :: string
  opt_session_id :: string
  lock_cmd :: string
  before_sleep_cmd :: string
  opt_uid :: u32

text \<open>
  \<open>attempts\<close>: what happens in the coming calls of \<open>connect_unix\<close>, the descriptor \<open>socket\<close> returns and
  whether \<open>connect\<close> succeeds, each with whether the process has been told to quit after it; when
  they run out, it has.  \<open>forks\<close>: whether the
  coming forks succeed (they do when the list has run out).  \<open>agent_watched\<close> is what is in the
  epoll set \<open>epoll_fd\<close>.
\<close>

record agent =
  opts :: agent_options
  daemon_fd :: int
  daemon_buf :: string
  idle :: "monitor option"
  mpris :: mpris
  world :: world
  attempts :: "(int \<times> bool \<times> bool) list"
  forks :: "bool list"
  agent_epoll_fd :: int
  agent_watched :: "int list"

definition new_agent :: "agent_options \<Rightarrow> world \<Rightarrow> (int \<times> bool \<times> bool) list \<Rightarrow> bool list \<Rightarrow> agent" where
  "new_agent o' w as fs = \<lparr>opts = (if socket_path o' = [] then o'\<lparr>socket_path := SOCKET_PATH\<rparr> else o'),
     daemon_fd = -1, daemon_buf = [], idle = None, mpris = new_mpris, world = w, attempts = as,
     forks = fs, agent_epoll_fd = -1, agent_watched = []\<rparr>"

definition agent_watch :: "int \<Rightarrow> agent \<Rightarrow> agent" where
  "agent_watch fd a =
     a\<lparr>agent_watched := epoll_ctl_add (agent_epoll_fd a) fd (agent_watched a)\<rparr>"

definition agent_unwatch :: "int \<Rightarrow> agent \<Rightarrow> agent" where
  "agent_unwatch fd a = a\<lparr>agent_watched := epoll_ctl_del fd (agent_watched a)\<rparr>"

definition agent_send :: "string \<Rightarrow> agent \<Rightarrow> agent" where
  "agent_send msg a =
     (if daemon_fd a < 0 then a else a\<lparr>world := snd (send_line (daemon_fd a) msg (world a))\<rparr>)"

section \<open>Connecting\<close>

text \<open>The loop of \<open>connect_to_daemon\<close>: whether the process has been told to quit, and the state.\<close>

fun connect_loop :: "(int \<times> bool \<times> bool) list \<Rightarrow> agent \<Rightarrow> bool \<times> agent" where
  "connect_loop [] a = (True, a\<lparr>attempts := []\<rparr>)"
| "connect_loop ((sock, ok, quit) # as) a =
     (let (fd, calls) = connect_unix sock ok (socket_path (opts a));
          a1 = a\<lparr>daemon_fd := fd, world := if Close \<in> set calls then close_fd sock (world a) else world a\<rparr>
      in if 0 \<le> fd then (quit, a1\<lparr>attempts := as\<rparr>)
         else if quit then (True, a1\<lparr>attempts := as\<rparr>)
         else connect_loop as a1)"

definition connect_to_daemon :: "agent \<Rightarrow> agent" where
  "connect_to_daemon a =
     (let (quit, a1) = connect_loop (attempts a) a
      in if quit then a1
         else agent_send (encode_hello (opt_session_id (opts a1)) (opt_uid (opts a1)))
                (agent_watch (daemon_fd a1) a1))"

definition on_daemon_disconnect :: "agent \<Rightarrow> agent" where
  "on_daemon_disconnect a =
     (let a1 = agent_unwatch (daemon_fd a) a
      in connect_to_daemon
           (a1\<lparr>world := close_fd (daemon_fd a) (world a), daemon_fd := -1, daemon_buf := []\<rparr>))"

section \<open>The idle monitor\<close>

fun mon_set_timeouts :: "int option \<times> int option \<Rightarrow> i32 \<Rightarrow> i32 \<Rightarrow> monitor \<Rightarrow> monitor" where
  "mon_set_timeouts g d s (Wayland w) = Wayland (w_set_timeouts g d s w)"
| "mon_set_timeouts g d s (Input i) = Input (i_set_timeouts d s i)"

fun mon_fd :: "int \<Rightarrow> monitor \<Rightarrow> int" where
  "mon_fd display_fd (Wayland w) = w_fd display_fd w"
| "mon_fd display_fd (Input i) = i_epoll_fd i"

text \<open>What the environment answers when a monitor is set up or given new timeouts.\<close>

record mon_env =
  have_wayland :: bool
  wayland_display :: bool
  display_ok :: bool
  display_fd :: int
  globals :: "(string \<times> int option) list"
  got :: "int option \<times> int option"
  mon_epoll_fd :: int
  mon_timer_fd :: int
  devices :: "(string \<times> int) list option"
  clock :: u64

text \<open>
  A monitor's destructor closes its descriptors: that of the one in use when it is replaced, that
  of an input monitor whose \<open>init\<close> fails.
\<close>

fun mon_destroy :: "monitor \<Rightarrow> int list" where
  "mon_destroy (Wayland w) = []"
| "mon_destroy (Input i) = i_destroy i"

definition drop_monitor :: "mon_env \<Rightarrow> agent \<Rightarrow> agent" where
  "drop_monitor e a =
     (case idle a of
        None \<Rightarrow> a
      | Some m \<Rightarrow>
          let old_fd = mon_fd (display_fd e) m;
              a1 = if 0 \<le> old_fd then agent_unwatch old_fd a else a
          in a1\<lparr>idle := None, world := close_all (mon_destroy m) (world a)\<rparr>)"

definition choose_monitor :: "mon_env \<Rightarrow> i32 \<Rightarrow> i32 \<Rightarrow> monitor option \<times> int list" where
  "choose_monitor e dim_ms sleep_ms =
     (let (wok, wl) = (if have_wayland e
                       then w_init (wayland_display e) (display_ok e) (globals e) (got e) dim_ms sleep_ms
                              new_wayland_idle
                       else (False, new_wayland_idle))
      in if wok then (Some (Wayland wl), [])
         else let (iok, inp) = i_init dim_ms sleep_ms (mon_epoll_fd e) (mon_timer_fd e) (devices e)
                                 (clock e) new_input_idle
              in if iok then (Some (Input inp), mon_destroy (Wayland wl))
                 else (None, mon_destroy (Input inp) @ mon_destroy (Wayland wl)))"

definition install_monitor :: "mon_env \<Rightarrow> monitor \<Rightarrow> agent \<Rightarrow> agent" where
  "install_monitor e m a =
     (let ifd = mon_fd (display_fd e) m;
          a1 = if 0 \<le> ifd then agent_watch ifd a else a
      in a1\<lparr>idle := Some m\<rparr>)"

definition setup_idle_monitor :: "mon_env \<Rightarrow> i32 \<Rightarrow> i32 \<Rightarrow> agent \<Rightarrow> agent" where
  "setup_idle_monitor e dim_ms sleep_ms a =
     (let a1 = drop_monitor e a;
          (mon, given_back) = choose_monitor e dim_ms sleep_ms;
          a2 = a1\<lparr>world := close_all given_back (world a1)\<rparr>
      in case mon of
           None \<Rightarrow> a2
         | Some m \<Rightarrow> install_monitor e m a2)"

text \<open>What \<open>poll\<close> finds: the events of the compositor, or the ready descriptors.\<close>

datatype mon_input = From_wayland wl_event | From_input input_ready

fun mon_feed :: "mon_input \<Rightarrow> monitor \<Rightarrow> idle_event list \<times> monitor" where
  "mon_feed (From_wayland e) (Wayland w) = map_prod id Wayland (on_notification e w)"
| "mon_feed (From_input r) (Input i) = map_prod id Input (i_handle r i)"
| "mon_feed _ m = ([], m)"

fun mon_poll :: "mon_input list \<Rightarrow> monitor \<Rightarrow> idle_event list \<times> monitor" where
  "mon_poll [] m = ([], m)"
| "mon_poll (i # is) m =
     (let (o1, m1) = mon_feed i m; (o2, m2) = mon_poll is m1 in (o1 @ o2, m2))"

text \<open>The callbacks the agent installs.\<close>

fun idle_line :: "idle_event \<Rightarrow> string" where
  "idle_line On_dim = encode_idle_dim"
| "idle_line On_sleep = encode_idle_sleep"
| "idle_line On_active = encode_active"

fun mpris_line :: "mpris_event \<Rightarrow> string" where
  "mpris_line M_inhibit = encode_inhibit k_inhibit_reason"
| "mpris_line M_uninhibit = encode_uninhibit k_inhibit_reason"

definition send_lines :: "string list \<Rightarrow> agent \<Rightarrow> agent" where
  "send_lines ls a = fold agent_send ls a"

definition idle_poll :: "mon_input list \<Rightarrow> agent \<Rightarrow> agent" where
  "idle_poll is a =
     (case idle a of
        None \<Rightarrow> a
      | Some m \<Rightarrow> let (out, m1) = mon_poll is m
                  in send_lines (map idle_line out) (a\<lparr>idle := Some m1\<rparr>))"

definition agent_mpris_poll :: "bus_signal list \<Rightarrow> agent \<Rightarrow> agent" where
  "agent_mpris_poll ss a =
     (let (out, m1) = mpris_poll ss (mpris a)
      in send_lines (map mpris_line out) (a\<lparr>mpris := m1\<rparr>))"

section \<open>Messages from the daemon\<close>

definition take_fork :: "agent \<Rightarrow> bool \<times> agent" where
  "take_fork a = (case forks a of [] \<Rightarrow> (True, a) | b # bs \<Rightarrow> (b, a\<lparr>forks := bs\<rparr>))"

text \<open>
  Running a command in a child: nothing when it is empty or the fork fails.  The agent waits
  for \<open>before_sleep_cmd\<close> only, and only logs how it ended.
\<close>

definition run_child :: "string \<Rightarrow> agent \<Rightarrow> agent" where
  "run_child cmd a =
     (if cmd = [] then a
      else let (ok, a1) = take_fork a
           in if ok then a1\<lparr>world := run_system (c_str cmd) (world a1)\<rparr> else a1)"

definition run_lock_cmd :: "agent \<Rightarrow> agent" where
  "run_lock_cmd a = run_child (lock_cmd (opts a)) a"

definition run_before_sleep_cmd :: "agent \<Rightarrow> agent" where
  "run_before_sleep_cmd a = run_child (before_sleep_cmd (opts a)) a"

definition on_daemon_line :: "mon_env \<Rightarrow> string \<Rightarrow> agent \<Rightarrow> agent" where
  "on_daemon_line e line a =
     (case decode line of
        Inl _ \<Rightarrow> a
      | Inr msg \<Rightarrow>
          let type = msg_type msg
          in if type = T_CONFIG then
               (let dim = to_int (num msg ''dim_timeout'' 0) * 1000;
                    sleep = to_int (num msg ''sleep_timeout'' 0) * 1000
                in (case idle a of
                      Some m \<Rightarrow> a\<lparr>idle := Some (mon_set_timeouts (got e) dim sleep m)\<rparr>
                    | None \<Rightarrow> setup_idle_monitor e dim sleep a))
             else if type = T_LOCK then run_lock_cmd a
             else if type = T_PRE_SLEEP then agent_send encode_ack (run_before_sleep_cmd a)
             else a)"

section \<open>The loop\<close>

record agent_ready =
  a_fd :: int
  a_reads :: "rd list"
  a_env :: mon_env
  a_inputs :: "mon_input list"

definition handle_daemon_lines :: "mon_env \<Rightarrow> string list \<Rightarrow> agent \<Rightarrow> agent" where
  "handle_daemon_lines e ls a = fold (on_daemon_line e) (filter (\<lambda>l. l \<noteq> []) ls) a"

text \<open>One ready descriptor: whether the loop is left, and the state.\<close>

definition agent_handle :: "agent_ready \<Rightarrow> agent \<Rightarrow> bool \<times> agent" where
  "agent_handle r a =
     (if a_fd r = daemon_fd a then
        (let (ok, ls, buf, _) = feed (a_reads r) (daemon_buf a)
         in if \<not> ok then (True, on_daemon_disconnect (a\<lparr>daemon_buf := buf\<rparr>))
            else (False, handle_daemon_lines (a_env r) ls (a\<lparr>daemon_buf := buf\<rparr>)))
      else (case idle a of
              Some m \<Rightarrow> if a_fd r = mon_fd (display_fd (a_env r)) m
                        then (False, idle_poll (a_inputs r) a) else (False, a)
            | None \<Rightarrow> (False, a)))"

fun agent_handle_all :: "agent_ready list \<Rightarrow> agent \<Rightarrow> bool \<times> agent" where
  "agent_handle_all [] a = (False, a)"
| "agent_handle_all (r # rs) a =
     (let (left, a1) = agent_handle r a
      in if left then (True, a1) else agent_handle_all rs a1)"

definition agent_turn :: "bus_signal list \<Rightarrow> agent_ready list \<Rightarrow> agent \<Rightarrow> bool \<times> agent" where
  "agent_turn ss rs a = agent_handle_all rs (agent_mpris_poll ss a)"

text \<open>
  The loop for the turns the environment offers: the exit code once it has been left, or
  \<open>None\<close> while it still runs when the turns have been used up.
\<close>

fun agent_loop :: "(bus_signal list \<times> agent_ready list) list \<Rightarrow> agent \<Rightarrow> int option \<times> agent" where
  "agent_loop [] a = (None, a)"
| "agent_loop ((ss, rs) # ts) a =
     (let (left, a1) = agent_turn ss rs a
      in if left then (Some 0, a1) else agent_loop ts a1)"

text \<open>\<open>run\<close> up to the loop.\<close>

definition agent_start :: "bool \<Rightarrow> bool \<times> bool \<Rightarrow> bus \<Rightarrow> (string \<times> string option) list option \<Rightarrow>
    int \<Rightarrow> int \<Rightarrow> agent \<Rightarrow> agent" where
  "agent_start bus_ok matches ask names bus_desc epoll_desc a =
     (let a1 = connect_to_daemon (a\<lparr>agent_epoll_fd := epoll_desc\<rparr>);
          (ok, out, m) = mpris_init bus_ok matches ask names (mpris a1);
          a2 = send_lines (map mpris_line out) (a1\<lparr>mpris := m\<rparr>);
          mfd = mpris_bus_fd bus_desc m
      in if \<not> ok then a2
         else let a3 = a2\<lparr>mpris := set_callbacks m\<rparr> in if 0 \<le> mfd then agent_watch mfd a3 else a3)"

section \<open>Lemmas\<close>

definition mon_off :: "monitor \<Rightarrow> bool" where
  "mon_off m = (case m of Wayland w \<Rightarrow> w_off w | Input i \<Rightarrow> i_off i)"

interpretation mon: idle_source "mon_set_timeouts g" mon_feed mon_off for g
proof (unfold_locales, goal_cases)
  case (1 d s m)
  then show ?case by (cases m) (simp_all add: mon_off_def wayland.off_set input.off_set)
next
  case (2 m i)
  then show ?case
    using wayland.off_event input.off_event by (cases "(i, m)" rule: mon_feed.cases) (auto simp: mon_off_def)
next
  case (3 m i)
  then show ?case
    using wayland.off_silent input.off_silent by (cases "(i, m)" rule: mon_feed.cases) (auto simp: mon_off_def)
qed

lemma mon_poll_all: "mon_poll is m = mon.poll_all is m"
  by (induction "is" arbitrary: m) simp_all

lemma agent_watch_fields [simp]:
  "opts (agent_watch fd a) = opts a" "daemon_fd (agent_watch fd a) = daemon_fd a"
  "daemon_buf (agent_watch fd a) = daemon_buf a" "idle (agent_watch fd a) = idle a"
  "mpris (agent_watch fd a) = mpris a" "attempts (agent_watch fd a) = attempts a"
  "forks (agent_watch fd a) = forks a" "world (agent_watch fd a) = world a"
  "agent_epoll_fd (agent_watch fd a) = agent_epoll_fd a"
  "agent_watched (agent_watch fd a) = epoll_ctl_add (agent_epoll_fd a) fd (agent_watched a)"
  by (simp_all add: agent_watch_def)

lemma agent_send_fields [simp]:
  "opts (agent_send l a) = opts a" "daemon_fd (agent_send l a) = daemon_fd a"
  "daemon_buf (agent_send l a) = daemon_buf a" "idle (agent_send l a) = idle a"
  "mpris (agent_send l a) = mpris a" "attempts (agent_send l a) = attempts a"
  "forks (agent_send l a) = forks a" "cmds (world (agent_send l a)) = cmds (world a)"
  "closed (world (agent_send l a)) = closed (world a)"
  "agent_epoll_fd (agent_send l a) = agent_epoll_fd a" "agent_watched (agent_send l a) = agent_watched a"
  by (simp_all add: agent_send_def frame)

lemma run_child_fields [simp]:
  "opts (run_child c a) = opts a" "daemon_fd (run_child c a) = daemon_fd a"
  "daemon_buf (run_child c a) = daemon_buf a" "idle (run_child c a) = idle a"
  "mpris (run_child c a) = mpris a" "attempts (run_child c a) = attempts a"
  "wire (world (run_child c a)) = wire (world a)" "wscript (world (run_child c a)) = wscript (world a)"
  "agent_epoll_fd (run_child c a) = agent_epoll_fd a" "agent_watched (run_child c a) = agent_watched a"
  by (auto simp: run_child_def take_fork_def Let_def frame split: list.splits)

lemma send_lines_fields [simp]:
  "opts (send_lines ls a) = opts a" "daemon_fd (send_lines ls a) = daemon_fd a"
  "daemon_buf (send_lines ls a) = daemon_buf a" "idle (send_lines ls a) = idle a"
  "mpris (send_lines ls a) = mpris a" "attempts (send_lines ls a) = attempts a"
  "cmds (world (send_lines ls a)) = cmds (world a)"
  "agent_epoll_fd (send_lines ls a) = agent_epoll_fd a" "agent_watched (send_lines ls a) = agent_watched a"
  by (induction ls arbitrary: a) (simp_all add: send_lines_def)

lemma send_lines_wire:
  "wscript (world a) (daemon_fd a) = [] \<Longrightarrow> 0 \<le> daemon_fd a \<Longrightarrow>
    wire (world (send_lines ls a)) = wire (world a) @ map (\<lambda>l. (daemon_fd a, l @ ''\<newline>'')) ls \<and>
    wscript (world (send_lines ls a)) = wscript (world a)"
  by (induction ls arbitrary: a) (simp_all add: send_lines_def agent_send_def send_line_healthy)

text \<open>What setting up an idle monitor changes.\<close>

lemma drop_monitor_None [simp]: "idle a = None \<Longrightarrow> drop_monitor e a = a"
  by (simp add: drop_monitor_def)

lemma install_monitor_eq: "install_monitor e m a = a\<lparr>agent_watched :=
    epoll_ctl_add (agent_epoll_fd a) (mon_fd (display_fd e) m) (agent_watched a), idle := Some m\<rparr>"
  by (simp add: install_monitor_def Let_def agent_watch_def epoll_ctl_add_def)

lemma drop_monitor_fields [simp]:
  "opts (drop_monitor e a) = opts a" "daemon_fd (drop_monitor e a) = daemon_fd a"
  "daemon_buf (drop_monitor e a) = daemon_buf a" "mpris (drop_monitor e a) = mpris a"
  "wire (world (drop_monitor e a)) = wire (world a)" "wscript (world (drop_monitor e a)) = wscript (world a)"
  "cmds (world (drop_monitor e a)) = cmds (world a)" "agent_epoll_fd (drop_monitor e a) = agent_epoll_fd a"
  "attempts (drop_monitor e a) = attempts a"
  by (simp_all add: drop_monitor_def agent_unwatch_def Let_def split: option.split)

lemma setup_idle_monitor_fields [simp]:
  "opts (setup_idle_monitor e ds ss a) = opts a" "daemon_fd (setup_idle_monitor e ds ss a) = daemon_fd a"
  "daemon_buf (setup_idle_monitor e ds ss a) = daemon_buf a"
  "mpris (setup_idle_monitor e ds ss a) = mpris a" "attempts (setup_idle_monitor e ds ss a) = attempts a"
  "wire (world (setup_idle_monitor e ds ss a)) = wire (world a)"
  "wscript (world (setup_idle_monitor e ds ss a)) = wscript (world a)"
  "cmds (world (setup_idle_monitor e ds ss a)) = cmds (world a)"
  "agent_epoll_fd (setup_idle_monitor e ds ss a) = agent_epoll_fd a"
  by (simp_all add: setup_idle_monitor_def install_monitor_eq Let_def split: option.split prod.split)

lemma setup_first:
  assumes "idle a = None" "choose_monitor e ds ss = (mon, fds)"
  shows "setup_idle_monitor e ds ss a = (case mon of
      None \<Rightarrow> a\<lparr>world := close_all fds (world a)\<rparr>
    | Some m \<Rightarrow> a\<lparr>agent_watched :=
        epoll_ctl_add (agent_epoll_fd a) (mon_fd (display_fd e) m) (agent_watched a), idle := Some m,
        world := close_all fds (world a)\<rparr>)"
  using assms by (simp add: setup_idle_monitor_def install_monitor_eq split: option.split)

text \<open>
  Attempts that fail, each without a socket or with one that is not connected, and the sockets
  they open and close again; none of them is told to quit.
\<close>

definition failing :: "(int \<times> bool) list \<Rightarrow> bool" where
  "failing bad \<longleftrightarrow> (\<forall>(sock, ok) \<in> set bad. sock < 0 \<or> \<not> ok)"

definition retries :: "(int \<times> bool) list \<Rightarrow> (int \<times> bool \<times> bool) list" where
  "retries bad = map (\<lambda>(sock, ok). (sock, ok, False)) bad"

definition sockets :: "(int \<times> bool) list \<Rightarrow> int list" where
  "sockets bad = filter (\<lambda>sock. 0 \<le> sock) (map fst bad)"

lemma connect_loop_step [simp]:
  "connect_loop ((sock, ok, quit) # as) a =
    (if 0 \<le> sock \<and> ok then (quit, a\<lparr>daemon_fd := sock, attempts := as\<rparr>)
     else let a1 = a\<lparr>daemon_fd := -1, world := close_all (sockets [(sock, ok)]) (world a)\<rparr>
          in if quit then (True, a1\<lparr>attempts := as\<rparr>) else connect_loop as a1)"
  by (auto simp: connect_unix_def sockets_def close_fd_def)

declare connect_loop.simps(2) [simp del]

text \<open>After any number of failed attempts the agent is connected and has said hello.\<close>

lemma connect_loop_retry:
  assumes "failing bad" "0 \<le> fd"
  shows "connect_loop (retries bad @ (fd, True, quit) # as) a = (quit, a\<lparr>daemon_fd := fd, attempts := as,
    world := (world a)\<lparr>closed := closed (world a) @ sockets bad\<rparr>\<rparr>)"
  using assms
proof (induction bad arbitrary: a)
  case Nil
  then show ?case by (simp add: retries_def sockets_def)
next
  case (Cons x bad)
  obtain sock ok where x: "x = (sock, ok)" by fastforce
  have "failing bad" "sock < 0 \<or> \<not> ok" using Cons(2) by (auto simp: failing_def x)
  then show ?case
    using Cons(1) [OF _ Cons(3)] by (auto simp: x retries_def sockets_def)
qed

lemma connect_after_retries:
  assumes "attempts a = retries bad @ (fd, True, False) # as"
    and "failing bad" "0 \<le> fd" "wscript (world a) fd = []"
  shows "connect_to_daemon a = a\<lparr>daemon_fd := fd, attempts := as,
    agent_watched := epoll_ctl_add (agent_epoll_fd a) fd (agent_watched a),
    world := (world a)\<lparr>closed := closed (world a) @ sockets bad, wire := wire (world a) @
      [(fd, encode_hello (opt_session_id (opts a)) (opt_uid (opts a)) @ ''\<newline>'')]\<rparr>\<rparr>"
  using connect_loop_retry [OF assms(2,3)] assms
  by (simp add: connect_to_daemon_def agent_watch_def agent_send_def send_line_healthy)

lemma agent_connects:
  assumes "attempts a = retries bad @ (fd, True, False) # as"
    and "failing bad" "0 \<le> fd" "wscript (world a) fd = []"
    and "connect_to_daemon a = a'"
  shows "daemon_fd a' = fd \<and> attempts a' = as \<and> idle a' = idle a \<and> mpris a' = mpris a \<and>
    (\<exists>line msg. wire (world a') = wire (world a) @ [(fd, line @ ''\<newline>'')] \<and>
      CHR ''\<newline>'' \<notin> set line \<and> decode line = Inr msg \<and> msg_type msg = T_HELLO \<and>
      str msg ''session_id'' [] = opt_session_id (opts a) \<and> num msg ''uid'' 0 = ucast (opt_uid (opts a)))"
proof -
  let ?h = "encode_hello (opt_session_id (opts a)) (opt_uid (opts a))"
  have "decode ?h = Inr (hello_msg (opt_session_id (opts a)) (opt_uid (opts a)))" "CHR ''\<newline>'' \<notin> set ?h"
    by (simp_all add: framing)
  then show ?thesis
    using connect_after_retries [OF assms(1-4)] assms(5) by fastforce
qed

text \<open>
  C40: when the daemon closes the connection the agent reconnects and
  says hello again, but then its loop returns and the program exits with 0; the inhibitor a
  playing media player holds is not announced to the new daemon.
\<close>

theorem lost_daemon_ends_agent:
  assumes "mpris_poll ss (mpris a) = ([], m)" "a_fd r = daemon_fd a" "a_reads r = rs @ [Read_eof]" "quiet rs"
    and "attempts a = retries bad @ (fd, True, False) # as" "failing bad" "0 \<le> fd"
    and "wscript (world a) fd = []"
    and "agent_loop ((ss, r # rest) # turns) a = (code, a')"
  shows "code = Some 0 \<and> daemon_fd a' = fd \<and> mpris a' = m \<and>
    closed (world a') = closed (world a) @ daemon_fd a # sockets bad \<and>
    wire (world a') = wire (world a) @
      [(fd, encode_hello (opt_session_id (opts a)) (opt_uid (opts a)) @ ''\<newline>'')]"
proof -
  define b where "b = a\<lparr>mpris := m, daemon_buf := daemon_buf a @ payload rs\<rparr>"
  have "agent_handle r (a\<lparr>mpris := m\<rparr>) = (True, on_daemon_disconnect b)"
    using feed_eof [OF assms(4), of "[]" "daemon_buf a"] assms(2,3)
    by (simp add: agent_handle_def b_def)
  then have "code = Some 0 \<and> a' = on_daemon_disconnect b"
    using assms(1,9) by (simp add: agent_turn_def agent_mpris_poll_def send_lines_def)
  moreover have "on_daemon_disconnect b = b\<lparr>daemon_fd := fd, daemon_buf := [], attempts := as,
      agent_watched := epoll_ctl_add (agent_epoll_fd a) fd (epoll_ctl_del (daemon_fd a) (agent_watched a)),
      world := (close_fd (daemon_fd a) (world a))\<lparr>closed := closed (world a) @ daemon_fd a # sockets bad, wire := wire (world a) @
        [(fd, encode_hello (opt_session_id (opts a)) (opt_uid (opts a)) @ ''\<newline>'')]\<rparr>\<rparr>"
    using connect_after_retries [of "b\<lparr>agent_watched := epoll_ctl_del (daemon_fd a) (agent_watched a),
      world := close_fd (daemon_fd b) (world b), daemon_fd := -1, daemon_buf := []\<rparr>" bad fd as] assms(5-8)
    by (simp add: on_daemon_disconnect_def agent_unwatch_def b_def frame)
  ultimately show ?thesis by (simp add: b_def frame)
qed

text \<open>
  A lock line runs the lock command, once and without an answer; a pre-sleep
  line runs the pre-sleep command and then sends the acknowledgement; an undecodable line does
  nothing.
\<close>

lemma commands_obeyed:
  assumes "forks a = []" "0 \<le> daemon_fd a" "wscript (world a) (daemon_fd a) = []"
  shows "world (on_daemon_line e encode_lock a) = (world a)\<lparr>cmds := cmds (world a) @
      (if lock_cmd (opts a) = [] then [] else [c_str (lock_cmd (opts a))])\<rparr> \<and>
    world (on_daemon_line e encode_pre_sleep a) = (world a)\<lparr>cmds := cmds (world a) @
      (if before_sleep_cmd (opts a) = [] then [] else [c_str (before_sleep_cmd (opts a))]),
      wire := wire (world a) @ [(daemon_fd a, encode_ack @ ''\<newline>'')]\<rparr> \<and>
    (\<forall>line x. decode line = Inl x \<longrightarrow> on_daemon_line e line a = a)"
proof -
  have run: "run_child cmd a = a\<lparr>world := (world a)\<lparr>cmds := cmds (world a) @
      (if cmd = [] then [] else [c_str cmd])\<rparr>\<rparr>" for cmd
    using assms(1) by (simp add: run_child_def take_fork_def run_system_def)
  show ?thesis
    using assms(2,3)
    by (auto simp: on_daemon_line_def message_types Let_def run_lock_cmd_def run_before_sleep_cmd_def
        run agent_send_def send_line_healthy)
qed

text \<open>
  After a configuration with both timeouts zero, whichever monitor
  the agent has and whatever it is fed, the agent never reports dimming or sleeping: all it can
  send is that the user is active.
\<close>

lemma switched_off_stays_silent:
  assumes "idle a = Some m" "0 \<le> daemon_fd a" "wscript (world a) (daemon_fd a) = []"
    and "a' = idle_poll is (on_daemon_line e (encode_config 0 0) a)"
  shows "\<exists>n. wire (world a') = wire (world a) @ replicate n (daemon_fd a, encode_active @ ''\<newline>'')"
proof -
  let ?m = "mon_set_timeouts (got e) 0 0 m"
  have cfg: "on_daemon_line e (encode_config 0 0) a = a\<lparr>idle := Some ?m\<rparr>"
    using assms(1) by (simp add: on_daemon_line_def)
  obtain out m1 where p: "mon_poll is ?m = (out, m1)" by fastforce
  have out: "set out \<subseteq> {On_active}"
    using mon.switched_off [of 0 0 "is" "got e" m] p by (simp add: mon_poll_all)
  have lines: "map (\<lambda>l. (daemon_fd a, l @ ''\<newline>'')) (map idle_line out) =
      replicate (length out) (daemon_fd a, encode_active @ ''\<newline>'')"
    using out by (induction out) auto
  have "a' = send_lines (map idle_line out) (a\<lparr>idle := Some m1\<rparr>)"
    using assms(4) p by (simp add: cfg idle_poll_def)
  then show ?thesis
    using send_lines_wire [of "a\<lparr>idle := Some m1\<rparr>" "map idle_line out"] assms(2,3) lines by auto
qed

end
