(* ===== verification/Agent_Steps.thy ===== *)
theory Agent_Steps
  imports Agent
begin

text \<open>
  What holds of one update of the agent's state holds of its handlers, turns and loop.
\<close>

text \<open>
  A relation between agent states that every elementary update stays in, with monitors set
  up in the environments \<open>E\<close>.
\<close>

locale agent_rel =
  fixes E :: "mon_env set" and A :: "agent \<Rightarrow> agent \<Rightarrow> bool"
  assumes refl: "A a a"
    and trans: "A a a1 \<Longrightarrow> A a1 a2 \<Longrightarrow> A a a2"
    and send: "A a (agent_send l a)"
    and players: "A a (a\<lparr>mpris := p\<rparr>)"
    and buffered: "A a (a\<lparr>daemon_buf := b\<rparr>)"
    and child: "A a (run_child c a)"
    and polled: "idle a = Some m \<Longrightarrow> A a (a\<lparr>idle := Some (snd (mon_poll is m))\<rparr>)"
    and timeouts: "idle a = Some m \<Longrightarrow> A a (a\<lparr>idle := Some (mon_set_timeouts g d s m)\<rparr>)"
    and installed: "idle a = None \<Longrightarrow> e \<in> E \<Longrightarrow> A a (setup_idle_monitor e d s a)"
begin

lemma sends: "A a (send_lines ls a)"
proof -
  have "A a (fold agent_send ls a)" by (induction ls arbitrary: a) (auto intro: refl trans [OF send])
  then show ?thesis by (simp add: send_lines_def)
qed

lemma mpris_rel: "A a (agent_mpris_poll ss a)"
  by (auto simp: agent_mpris_poll_def split: prod.split intro: trans [OF players sends])

lemma idle_rel: "A a (idle_poll is a)"
  using trans [OF polled sends]
  by (auto simp: idle_poll_def split_beta split: option.split intro: refl)

lemma line_rel: "e \<in> E \<Longrightarrow> A a (on_daemon_line e l a)"
  by (auto simp: on_daemon_line_def Let_def run_lock_cmd_def run_before_sleep_cmd_def
      split: sum.split option.split intro: refl timeouts installed child trans [OF child send])

lemma lines_rel: "e \<in> E \<Longrightarrow> A a (handle_daemon_lines e ls a)"
proof -
  assume e: "e \<in> E"
  have "A a (fold (on_daemon_line e) ms a)" for ms
    by (induction ms arbitrary: a) (auto intro: refl trans [OF line_rel [OF e]])
  then show ?thesis by (simp add: handle_daemon_lines_def)
qed

lemma handle_rel: "agent_handle r a = (False, a') \<Longrightarrow> a_env r \<in> E \<Longrightarrow> A a a'"
  using trans [OF buffered lines_rel [of "a_env r"]]
  by (auto simp: agent_handle_def split: if_splits prod.splits option.splits intro: refl idle_rel)

lemma all_rel: "agent_handle_all rs a = (False, a') \<Longrightarrow> \<forall>r \<in> set rs. a_env r \<in> E \<Longrightarrow> A a a'"
  by (induction rs a rule: agent_handle_all.induct)
    (auto split: prod.splits if_splits intro: refl trans [OF handle_rel])

lemma turn_rel: "agent_turn ss rs a = (False, a') \<Longrightarrow> \<forall>r \<in> set rs. a_env r \<in> E \<Longrightarrow> A a a'"
  using trans [OF mpris_rel all_rel] by (simp add: agent_turn_def)

lemma loop_rel:
  "agent_loop ts a = (None, a') \<Longrightarrow> \<forall>(ss, rs) \<in> set ts. \<forall>r \<in> set rs. a_env r \<in> E \<Longrightarrow> A a a'"
  by (induction ts a rule: agent_loop.induct)
    (auto split: prod.splits if_splits intro: refl trans [OF turn_rel])

end

text \<open>For one, the loop never changes the options it was started with nor the connection.\<close>

interpretation options: agent_rel UNIV "\<lambda>a a'. opts a' = opts a \<and> daemon_fd a' = daemon_fd a"
  by unfold_locales simp_all

lemma connect_loop_fields [simp]:
  "opts (snd (connect_loop as a)) = opts a" "idle (snd (connect_loop as a)) = idle a"
  "daemon_buf (snd (connect_loop as a)) = daemon_buf a"
proof (induction as arbitrary: a)
  case (Cons x as)
  { case 1 then show ?case using Cons(1) by (cases x) (simp add: Let_def) }
  { case 2 then show ?case using Cons(2) by (cases x) (simp add: Let_def) }
  { case 3 then show ?case using Cons(3) by (cases x) (simp add: Let_def) }
qed simp_all

lemma agent_start_fields:
  "opts (agent_start b ms ask names bfd efd a) = opts a" "idle (agent_start b ms ask names bfd efd a) = idle a"
  "daemon_buf (agent_start b ms ask names bfd efd a) = daemon_buf a"
  by (simp_all add: agent_start_def connect_to_daemon_def Let_def split_beta)

end
