(* ===== verification/Programs.thy ===== *)
theory Programs
  imports Logger Daemon Agent_Steps
begin

text \<open>
  \<open>src/daemon/main.cpp\<close>, \<open>src/agent/main.cpp\<close> and \<open>src/agent/agent_config.cpp\<close>: the
  command lines of the daemon and the agent and the agent's own configuration.
\<close>

section \<open>The daemon's command line\<close>

record daemon_options =
  config_path :: string
  foreground :: bool
  d_log_level :: log_level

definition default_daemon_options :: daemon_options where
  "default_daemon_options = \<lparr>config_path = ''/etc/draind/draind.json'', foreground = False,
     d_log_level = LInfo\<rparr>"

text \<open>A command line that is refused: the text for standard error; the exit code is 1.\<close>

definition invalid_level :: "exn \<Rightarrow> string" where
  "invalid_level e = ''invalid log level: '' @ what e @ ''\<newline>''"

definition daemon_usage :: "string \<Rightarrow> string" where
  "daemon_usage argv0 = ''Usage: '' @ argv0 @ '' [-f] [-c <config>] [-l debug|info|warn|error]'' @ ''\<newline>''"

fun daemon_args :: "string \<Rightarrow> string list \<Rightarrow> daemon_options \<Rightarrow> string + daemon_options" where
  "daemon_args argv0 [] o' = Inr o'"
| "daemon_args argv0 (a # as) o' =
     (if a = ''-f'' \<or> a = ''--foreground'' then daemon_args argv0 as (o'\<lparr>foreground := True\<rparr>)
      else (case as of
              [] \<Rightarrow> Inl (daemon_usage argv0)
            | b # bs \<Rightarrow>
                if a = ''-c'' \<or> a = ''--config'' then daemon_args argv0 bs (o'\<lparr>config_path := b\<rparr>)
                else if a = ''-l'' \<or> a = ''--log-level'' then
                  (case parse_log_level b of
                     Inl e \<Rightarrow> Inl (invalid_level e)
                   | Inr l \<Rightarrow> daemon_args argv0 bs (o'\<lparr>d_log_level := l\<rparr>))
                else Inl (daemon_usage argv0)))"

section \<open>The agent's command line\<close>

definition agent_usage :: "string \<Rightarrow> string" where
  "agent_usage argv0 = ''Usage: '' @ argv0 @ '' [-s <socket>] [-l debug|info|warn|error]'' @ ''\<newline>''"

fun agent_args :: "string \<Rightarrow> string list \<Rightarrow> agent_options \<times> log_level \<Rightarrow>
    string + agent_options \<times> log_level" where
  "agent_args argv0 [] o' = Inr o'"
| "agent_args argv0 (a # as) o' =
     (case as of
        [] \<Rightarrow> Inl (agent_usage argv0)
      | b # bs \<Rightarrow>
          if a = ''-s'' \<or> a = ''--socket'' then
            agent_args argv0 bs ((fst o')\<lparr>socket_path := b\<rparr>, snd o')
          else if a = ''-l'' \<or> a = ''--log-level'' then
            (case parse_log_level b of
               Inl e \<Rightarrow> Inl (invalid_level e)
             | Inr l \<Rightarrow> agent_args argv0 bs (fst o', l))
          else Inl (agent_usage argv0))"

section \<open>The agent's configuration\<close>

record agent_config =
  cfg_lock_cmd :: string
  cfg_before_sleep_cmd :: string

definition load_agent_config :: "(string \<Rightarrow> string option) \<Rightarrow> string \<Rightarrow> agent_config option res" where
  "load_agent_config fs path =
     (case fs path of
        None \<Rightarrow> Inr None
      | Some text \<Rightarrow>
          (case parse text of
             Inl e \<Rightarrow> Inl (Runtime_error (''agent config parse error in '' @ path @ '': '' @ what e))
           | Inr root \<Rightarrow> Inr (Some \<lparr>cfg_lock_cmd = str root ''lock_cmd'' [],
                                   cfg_before_sleep_cmd = str root ''before_sleep_cmd'' []\<rparr>)))"

definition env_str :: "(string \<Rightarrow> string option) \<Rightarrow> string \<Rightarrow> string" where
  "env_str env key = (case env key of Some v \<Rightarrow> v | None \<Rightarrow> [])"

definition user_config_path :: "(string \<Rightarrow> string option) \<Rightarrow> string option \<Rightarrow> string" where
  "user_config_path env pw_dir =
     (let base = env_str env ''XDG_CONFIG_HOME'';
          base = (if base = [] then
                    (let home = env_str env ''HOME'';
                         home = (if home = [] then (case pw_dir of Some d \<Rightarrow> d | None \<Rightarrow> home) else home)
                     in home @ ''/.config'')
                  else base)
      in base @ ''/draind/draind-agent.json'')"

definition SYSTEM_AGENT_CONFIG :: string where
  "SYSTEM_AGENT_CONFIG = ''/etc/xdg/draind/draind-agent.json''"

text \<open>The user's file, else the system's; an unreadable or absent one leaves the defaults.\<close>

definition agent_commands :: "(string \<Rightarrow> string option) \<Rightarrow> string \<Rightarrow> agent_options \<Rightarrow> agent_options" where
  "agent_commands fs user_cfg o' =
     (let apply_cfg = (\<lambda>c. o'\<lparr>lock_cmd := cfg_lock_cmd c, before_sleep_cmd := cfg_before_sleep_cmd c\<rparr>)
      in (case load_agent_config fs user_cfg of
            Inl _ \<Rightarrow> o'
          | Inr (Some c) \<Rightarrow> apply_cfg c
          | Inr None \<Rightarrow>
              (case load_agent_config fs SYSTEM_AGENT_CONFIG of
                 Inl _ \<Rightarrow> o'
               | Inr (Some c) \<Rightarrow> apply_cfg c
               | Inr None \<Rightarrow> o')))"

text \<open>
  \<open>main\<close> of the agent up to \<open>run\<close>: the options it runs with, or the text of a refusal
  (empty for a logged one).  \<open>logind\<close> is the session systemd gives for the process.
\<close>

definition agent_main :: "string \<Rightarrow> string list \<Rightarrow> u32 \<Rightarrow> (string \<Rightarrow> string option) \<Rightarrow> string option \<Rightarrow>
    string option \<Rightarrow> (string \<Rightarrow> string option) \<Rightarrow> string + agent_options \<times> log_level" where
  "agent_main argv0 args user env logind pw_dir fs =
     (let sid = env_str env ''XDG_SESSION_ID'';
          sid = (if sid = [] then (case logind of Some s \<Rightarrow> s | None \<Rightarrow> []) else sid);
          o' = \<lparr>socket_path = [], opt_session_id = sid, lock_cmd = [], before_sleep_cmd = [],
                opt_uid = user\<rparr>
      in (case agent_args argv0 args (o', LInfo) of
            Inl e \<Rightarrow> Inl e
          | Inr (o1, l) \<Rightarrow>
              if user = 0 then Inl []
              else Inr (agent_commands fs (user_config_path env pw_dir) o1, l)))"

section \<open>From the files to the commands\<close>

text \<open>
  The command the user has configured under \<open>key\<close>: the system's file counts only when the user
  has none, and a file that is not JSON configures nothing.
\<close>

definition configured_command :: "(string \<Rightarrow> string option) \<Rightarrow> string \<Rightarrow> string \<Rightarrow> string" where
  "configured_command fs user_cfg key =
     (case (if fs user_cfg = None then fs SYSTEM_AGENT_CONFIG else fs user_cfg) of
        None \<Rightarrow> []
      | Some text \<Rightarrow> (case parse text of Inl _ \<Rightarrow> [] | Inr root \<Rightarrow> str root key []))"

definition shell :: "string \<Rightarrow> string list" where
  "shell cmd = (if cmd = [] then [] else [c_str cmd])"

lemma agent_args_commands:
  "agent_args argv0 as o' = Inr o1 \<Longrightarrow>
    lock_cmd (fst o1) = lock_cmd (fst o') \<and> before_sleep_cmd (fst o1) = before_sleep_cmd (fst o')"
proof (induction argv0 "as" o' arbitrary: o1 rule: agent_args.induct)
  case (2 argv0 a "as" o')
  then show ?case by (cases "as") (auto split: if_splits sum.splits)
qed simp

lemma agent_main_commands:
  assumes "agent_main argv0 args user env logind pw_dir fs = Inr (o', l)"
  shows "user \<noteq> 0" "lock_cmd o' = configured_command fs (user_config_path env pw_dir) ''lock_cmd''"
    "before_sleep_cmd o' = configured_command fs (user_config_path env pw_dir) ''before_sleep_cmd''"
proof -
  obtain o0 o1 where a: "agent_args argv0 args (o0, LInfo) = Inr (o1, l)" "lock_cmd o0 = []" "before_sleep_cmd o0 = []"
    and o': "o' = agent_commands fs (user_config_path env pw_dir) o1" and "user \<noteq> 0"
    using assms by (auto simp: agent_main_def Let_def split: sum.splits prod.splits if_splits)
  show "user \<noteq> 0" by fact
  have "lock_cmd o1 = []" "before_sleep_cmd o1 = []" using agent_args_commands [OF a(1)] a(2,3) by simp_all
  then show "lock_cmd o' = configured_command fs (user_config_path env pw_dir) ''lock_cmd''"
    "before_sleep_cmd o' = configured_command fs (user_config_path env pw_dir) ''before_sleep_cmd''"
    by (auto simp: o' agent_commands_def load_agent_config_def configured_command_def Let_def
        split: option.split sum.split)
qed

text \<open>
  C24: from the files to the commands.  An agent that its \<open>main\<close> has started (not as
  root), and that has run for any turns, answers a lock line by running the \<open>lock_cmd\<close> of the
  user's file, or of the system's when the user has none; a pre-sleep line by running the
  \<open>before_sleep_cmd\<close> and then acknowledging; where none is configured or the file is not JSON it
  runs nothing, but acknowledges all the same.
\<close>

theorem configured_commands_run:
  assumes "agent_main argv0 args user env logind pw_dir fs = Inr (o', l)"
    and "agent_start bus_ok matches ask names bfd efd (new_agent o' w as fks) = a1"
    and "agent_loop ts a1 = (None, a)"
    and "forks a = []" "0 \<le> daemon_fd a" "wscript (Agent.world a) (daemon_fd a) = []"
    and "cmd = configured_command fs (user_config_path env pw_dir)"
  shows "user \<noteq> 0 \<and>
    Agent.world (on_daemon_line e encode_lock a) =
      (Agent.world a)\<lparr>cmds := cmds (Agent.world a) @ shell (cmd ''lock_cmd'')\<rparr> \<and>
    Agent.world (on_daemon_line e encode_pre_sleep a) =
      (Agent.world a)\<lparr>cmds := cmds (Agent.world a) @ shell (cmd ''before_sleep_cmd''),
        wire := wire (Agent.world a) @ [(daemon_fd a, encode_ack @ ''\<newline>'')]\<rparr>"
proof -
  have "opts a = opts (new_agent o' w as fks)"
    using options.loop_rel [OF assms(3)] assms(2) by (auto simp: agent_start_fields)
  then have "lock_cmd (opts a) = lock_cmd o'" "before_sleep_cmd (opts a) = before_sleep_cmd o'"
    by (simp_all add: new_agent_def)
  then show ?thesis
    using commands_obeyed [OF assms(4-6)] agent_main_commands [OF assms(1)] assms(7) by (auto simp: shell_def)
qed

end
