(* ===== verification/System.thy ===== *)
theory System
  imports Requests Programs
begin

text \<open>
  The daemon and an agent together, over the bytes they exchange.  Names that both have are
  written with the theory: \<open>Daemon.world\<close> and \<open>Agent.world\<close>.
\<close>

section \<open>A line arrives at the daemon\<close>

text \<open>One complete line, cut into any reads, reaches \<open>on_line\<close> once the buffer was empty.\<close>

lemma feed_line:
  assumes "quiet rs" "payload rs = l @ ''\<newline>''" "CHR ''\<newline>'' \<notin> set l"
  shows "feed (rs @ [Read_again]) [] = (True, [l], [], [])"
proof -
  have "split_lines (l @ ''\<newline>'') = ([l], [])"
    using split_lines_messages [of "[l]" "[]"] assms(3) by simp
  then show ?thesis using feed_quiet [OF assms(1), of "[]" "[]"] assms(2) by simp
qed

lemma handle_client_line:
  assumes "quiet rs" "payload rs = l @ ''\<newline>''" "CHR ''\<newline>'' \<notin> set l" "l \<noteq> []"
    and "map_of (m_conns (srv d)) fd = Some c" "buf c = []"
  shows "handle_client fd (rs @ [Read_again]) d =
    on_line fd l (d\<lparr>srv := srv d\<lparr>m_conns := umap_put fd c (m_conns (srv d))\<rparr>\<rparr>)"
proof -
  have same: "c\<lparr>buf := []\<rparr> = c" using assms(6) by (cases c) simp
  have "feed_client fd (rs @ [Read_again]) (srv d) =
      Some (True, [l], srv d\<lparr>m_conns := umap_put fd c (m_conns (srv d))\<rparr>)"
    using feed_line [OF assms(1-3)] assms(5,6) by (simp add: feed_client_def same)
  then show ?thesis
    using assms(4) by (auto simp: handle_client_def split: option.splits prod.splits)
qed

section \<open>The handshake\<close>

text \<open>
  The handshake end to end.  After any number of failed attempts the agent
  connects and says hello; the daemon, reading those bytes in whatever pieces, registers it
  under its session and user and answers; and the agent, reading the answer in whatever pieces,
  has a monitor with the active profile's timeouts in milliseconds.
\<close>

lemma agent_registers:
  assumes attempts: "attempts a = retries bad @ (afd, True, False) # as"
      "failing bad" "0 \<le> afd" "wscript (Agent.world a) afd = []"
    and fresh: "idle a = None" "daemon_buf a = []" "connect_to_daemon a = a1"
    and daemon: "map_of (m_conns (srv d)) fd = Some c" "buf c = []" "wscript (Daemon.world d) fd = []"
      "d_active_profile d = Some p"
    and bytes: "quiet rs" "wire (Agent.world a1) = wire (Agent.world a) @ [(afd, payload rs)]"
    and d': "handle_client fd (rs @ [Read_again]) d = (e, d')"
    and answer: "quiet rs'" "wire (Daemon.world d') = wire (Daemon.world d) @ [(fd, payload rs')]"
    and ready: "a_fd r = afd" "a_reads r = rs' @ [Read_again]"
      "\<not> have_wayland (a_env r)" "0 \<le> mon_epoll_fd (a_env r)" "0 \<le> mon_timer_fd (a_env r)"
    and a2: "agent_handle r a1 = (left, a2)"
  shows "e = None \<and>
    map_of (agents d') fd = Some \<lparr>session_id = opt_session_id (opts a), uid = opt_uid (opts a), inhibits = []\<rparr> \<and>
    \<not> left \<and> (\<exists>m. idle a2 = Some (Input m) \<and> i_dim_ms m = dim_timeout p * 1000 \<and>
      i_sleep_ms m = sleep_timeout p * 1000)"
proof -
  let ?h = "encode_hello (opt_session_id (opts a)) (opt_uid (opts a))"
  let ?c = "encode_config (dim_timeout p) (sleep_timeout p)"
  let ?d = "d\<lparr>srv := srv d\<lparr>m_conns := umap_put fd c (m_conns (srv d))\<rparr>\<rparr>"
  note a1 = connect_after_retries [OF attempts]
  have h: "payload rs = ?h @ ''\<newline>''" using a1 fresh(3) bytes(2) by auto
  have one: "CHR ''\<newline>'' \<notin> set ?h" "?h \<noteq> []" "CHR ''\<newline>'' \<notin> set ?c" "?c \<noteq> []"
    by (simp_all add: framing) (simp_all add: encoders dump_object_nonempty hello_object config_msg_def)
  have "on_line fd ?h ?d = (e, d')"
    using handle_client_line [OF bytes(1) h one(1,2) daemon(1,2)] d' by simp
  then have hello: "e = None" "d' = send_config fd (?d\<lparr>agents := umap_put fd
      \<lparr>session_id = opt_session_id (opts a), uid = opt_uid (opts a), inhibits = []\<rparr> (agents d)\<rparr>)"
    by (auto simp: on_line_hello on_hello_def ucast_uid)
  then have "wire (Daemon.world d') = wire (Daemon.world d) @ [(fd, ?c @ ''\<newline>'')]"
    using daemon(3,4) by (simp add: send_config_def d_active_profile_def send_healthy)
  then have "payload rs' = ?c @ ''\<newline>''" using answer(2) by simp
  note f = feed_line [OF answer(1) this one(3)]
  have "daemon_fd a1 = afd" "daemon_buf a1 = []" "idle a1 = None"
    using a1 fresh by auto
  then have "(left, a2) = (False, setup_idle_monitor (a_env r) (dim_timeout p * 1000)
      (sleep_timeout p * 1000) (a1\<lparr>daemon_buf := []\<rparr>))"
    using a2 f ready one(4)
    by (simp add: agent_handle_def handle_daemon_lines_def on_daemon_line_def)
  moreover have "\<exists>m. idle (setup_idle_monitor (a_env r) ds ss x) = Some (Input m) \<and>
      i_dim_ms m = ds \<and> i_sleep_ms m = ss" for ds ss x
    using ready(3-5)
    by (auto simp: setup_idle_monitor_def choose_monitor_def install_monitor_eq i_init_def open_input_devices_def Let_def split: option.splits)
  ultimately show ?thesis using hello by (auto simp: map_of_umap_put)
qed

section \<open>Changing the profile while the screen is dimmed\<close>

text \<open>
  C38: a profile change while the screen is dimmed leaves the
  daemon in the dimmed state although the brightness is the new profile's; the agent, given
  the new timeouts, does not report the next input; and until it does report activity every
  further request to dim is ignored.
\<close>

theorem profile_change_strands_dimming:
  assumes "dimmed d" "on_line fd (encode_ctl ''set_profile'' n) d = (None, d')"
    and "d_active_profile d' = Some p" "0 < sint (dim_timeout p * 1000)"
    and "idle a = Some (Input m)" "0 \<le> i_timer_fd m"
    and "a' = idle_poll [From_input (Device_ready t)]
           (on_daemon_line e (encode_config (dim_timeout p) (sleep_timeout p)) a)"
  shows "dimmed d' \<and> wire (Agent.world a') = wire (Agent.world a) \<and>
    (\<forall>g. on_line g encode_idle_dim d' = (None, d'))"
proof -
  obtain ok x d1 where sa: "set_active n d = (ok, x, d1)" by (metis prod_cases3)
  have "dimmed d1" using set_active_found [OF sa] assms(1) by (cases ok) auto
  moreover have "dimmed d' = dimmed d1"
    using assms(2) sa by (auto simp: on_line_ctl on_ctl_def split: option.splits)
  ultimately have dim: "dimmed d'" by simp
  have "on_daemon_line e (encode_config (dim_timeout p) (sleep_timeout p)) a =
      a\<lparr>idle := Some (Input (i_set_timeouts (dim_timeout p * 1000) (sleep_timeout p * 1000) m))\<rparr>"
    using assms(5) by (simp add: on_daemon_line_def)
  moreover have "fst (i_handle (Device_ready t)
      (i_set_timeouts (dim_timeout p * 1000) (sleep_timeout p * 1000) m)) = []"
    using new_timeouts_forget_idle [OF assms(6)] assms(4) by blast
  ultimately have "wire (Agent.world a') = wire (Agent.world a)"
    using assms(7) by (simp add: idle_poll_def split_beta send_lines_def)
  then show ?thesis using dim not_may_dim by (simp add: may_dim_def)
qed

end
