(* ===== verification/Demo.thy ===== *)
theory Demo
  imports System
begin

text \<open>
  A concrete machine, daemon and agent, on which the properties' hypotheses hold: a laptop with
  one backlight (maximum 937), one frequency policy and a discharging battery, a daemon with two
  profiles and two connections, and the agent of session 3.
\<close>

section \<open>The machine\<close>

definition demo_profile :: profile where
  "demo_profile = default_profile\<lparr>prof_name := ''balanced'', cpu_governor := ''powersave'',
     cpu_epp := ''power'', brightness_percent := 80\<rparr>"

definition demo_saver :: profile where
  "demo_saver = default_profile\<lparr>prof_name := ''saver'', brightness_percent := 40\<rparr>"

definition demo_config :: config where
  "demo_config = \<lparr>active_profile = ''balanced'', profiles = [demo_profile, demo_saver]\<rparr>"

definition demo_path :: string where "demo_path = ''/etc/draind/draind.json''"
definition demo_backlight :: string where "demo_backlight = ''/sys/class/backlight/intel''"
definition demo_bat :: string where "demo_bat = ''/sys/class/power_supply/BAT0''"

definition demo_files :: "string \<Rightarrow> string option" where
  "demo_files = [demo_path \<mapsto> dump_pretty (config_json demo_config),
     demo_backlight @ ''/max_brightness'' \<mapsto> show_int 937,
     demo_backlight @ ''/brightness'' \<mapsto> show_int 500,
     demo_bat @ ''/present'' \<mapsto> ''1'', demo_bat @ ''/status'' \<mapsto> ''Discharging'' @ ''\<newline>'',
     demo_bat @ ''/energy_now'' \<mapsto> show_int 30 @ ''\<newline>'', demo_bat @ ''/energy_full'' \<mapsto> show_int 50 @ ''\<newline>'',
     demo_bat @ ''/power_now'' \<mapsto> show_int 7 @ ''\<newline>'']"

definition demo_world :: World.world where
  "demo_world = \<lparr>files = demo_files,
     dirs = [''/sys/class/backlight'' \<mapsto> [''.'', ''..'', ''intel''],
             ''/sys/devices/system/cpu/cpufreq'' \<mapsto> [''policy0'']],
     no_write = (\<lambda>p. False), refuses = (\<lambda>p t. False), wscript = (\<lambda>fd. []), wire = [], cmds = [],
     closed = [], polls = [Deadline]\<rparr>"

lemmas demo_texts = demo_path_def demo_backlight_def demo_bat_def

lemma demo_world_fields [simp]:
  "wscript demo_world fd = []" "wire demo_world = []" "cmds demo_world = []" "closed demo_world = []"
  "no_write demo_world p = False" "refuses demo_world p t = False" "files demo_world = demo_files"
  by (simp_all add: demo_world_def)

lemma demo_file_values:
  "demo_files demo_path = Some (dump_pretty (config_json demo_config))"
  "demo_files (demo_backlight @ ''/max_brightness'') = Some (show_int 937)"
  "demo_files (demo_backlight @ ''/brightness'') = Some (show_int 500)"
  "demo_files (demo_bat @ ''/status'') = Some (''Discharging'' @ ''\<newline>'')"
  "demo_files (demo_bat @ ''/energy_now'') = Some (show_int 30 @ ''\<newline>'')"
  "demo_files (demo_bat @ ''/energy_full'') = Some (show_int 50 @ ''\<newline>'')"
  "demo_files (demo_bat @ ''/power_now'') = Some (show_int 7 @ ''\<newline>'')"
  by (simp_all add: demo_files_def demo_texts)

lemma demo_backlight_works: "backlight demo_world demo_backlight 937 500"
proof -
  have p: "find_backlight_path demo_world = demo_backlight"
    by (simp add: demo_world_def find_backlight_path_def demo_backlight_def)
  show ?thesis
    unfolding backlight_def p
    by (simp add: demo_file_values fits32_def) (simp add: demo_backlight_def)
qed

lemma demo_policies: "cpu_policy_paths demo_world = [''/sys/devices/system/cpu/cpufreq/policy0'']"
  by (simp add: demo_world_def cpu_policy_paths_def)

lemma demo_config_ok: "config_ok demo_config"
  by (simp add: config_ok_def demo_config_def demo_profile_def demo_saver_def)

lemma demo_parse: "parse (dump_pretty (config_json demo_config)) = Inr (config_json demo_config)"
  by (simp add: parse_dump_pretty)

lemma demo_load: "load_config (Some (dump_pretty (config_json demo_config))) path = Inr demo_config"
  by (rule load_parsed_config [OF demo_parse]) (simp_all add: demo_config_ok)

lemma demo_profile_fields [simp]:
  "prof_name demo_profile = ''balanced''" "brightness_percent demo_profile = 80"
  "dim_brightness_percent demo_profile = 20" "dim_timeout demo_profile = 300"
  "sleep_timeout demo_profile = 600" "cpu_governor demo_profile = ''powersave''"
  "cpu_epp demo_profile = ''power''" "lid_close_action demo_profile = ''suspend''"
  by (simp_all add: demo_profile_def default_profile_def)

section \<open>The daemon\<close>

definition demo_cm :: config_manager where
  "demo_cm = \<lparr>m_path = demo_path, m_config = demo_config, m_active = ''balanced''\<rparr>"

lemma demo_cm_ok: "cm_ok demo_cm"
  by (simp add: cm_ok_def demo_cm_def demo_config_ok)

lemma demo_active: "cm_active_profile demo_cm = Some demo_profile"
  by (simp add: cm_active_profile_def demo_cm_def demo_config_def find_profile_def)

definition demo_conn :: "int \<Rightarrow> connection" where
  "demo_conn fd = \<lparr>conn_fd = fd, buf = [], is_agent = False, is_ctl = False\<rparr>"

definition demo_daemon :: "(int \<times> agent_state) list \<Rightarrow> daemon" where
  "demo_daemon ags = \<lparr>cm = demo_cm, pm = new_power,
     sess = \<lparr>m_bus = True, m_seat0_path = ''/seat0'', m_active_session_id = ''3''\<rparr>,
     srv = \<lparr>m_listen_fd = 4, m_conns = [(7, demo_conn 7), (8, demo_conn 8)]\<rparr>, hw_fd = 5,
     epoll_fd = 9, watched = [4, 6, 5, 7, 8], agents = ags, dimmed = False, world = demo_world\<rparr>"

definition demo_agents :: "(int \<times> agent_state) list" where
  "demo_agents = [(7, \<lparr>session_id = ''3'', uid = 1000, inhibits = []\<rparr>)]"

definition playing_agents :: "(int \<times> agent_state) list" where
  "playing_agents = [(7, \<lparr>session_id = ''3'', uid = 1000, inhibits = [''mpris-playing'']\<rparr>)]"

lemma demo_daemon_fields [simp]:
  "cm (demo_daemon ags) = demo_cm" "agents (demo_daemon ags) = ags"
  "Daemon.world (demo_daemon ags) = demo_world" "dimmed (demo_daemon ags) = False"
  "m_active_session_id (sess (demo_daemon ags)) = ''3''" "hw_fd (demo_daemon ags) = 5"
  "map_of (m_conns (srv (demo_daemon ags))) 8 = Some (demo_conn 8)"
  "has_fd (srv (demo_daemon ags)) 8" "\<not> has_fd (srv (demo_daemon ags)) 5"
  "\<not> is_listen_fd (srv (demo_daemon ags)) 5"
  "d_active_profile (demo_daemon ags) = Some demo_profile"
  by (simp_all add: demo_daemon_def d_active_profile_def demo_active has_fd_def is_listen_fd_def)

lemma demo_ok: "umap_ok ags \<Longrightarrow> daemon_ok (demo_daemon ags)"
  by (simp add: daemon_ok_def demo_cm_ok) (simp add: demo_daemon_def demo_conn_def conns_ok_def
      unmarked_def umap_ok_def)

lemma demo_may_dim: "may_dim 7 (demo_daemon demo_agents)"
  by (simp add: may_dim_def is_active_agent_def has_any_inhibit_def demo_agents_def is_active_def)

section \<open>A daemon that has started\<close>

definition demo_boot :: daemon where
  "demo_boot = \<lparr>cm = demo_cm, pm = new_power,
     sess = new_sessions, srv = \<lparr>m_listen_fd = 4, m_conns = []\<rparr>, hw_fd = 5, epoll_fd = -1,
     watched = [], agents = [], dimmed = False, world = snd (apply_profile demo_profile demo_world)\<rparr>"

definition demo_started :: daemon where
  "demo_started = watch_all 6 9 demo_boot"

lemma demo_setup_bus:
  "daemon_setup demo_path demo_world b gs pr 4 5 6 9 =
    Inr (watch_all 6 9 (demo_boot\<lparr>sess := snd (sessions_init b gs pr new_sessions)\<rparr>))"
proof -
  have "cm_new demo_world demo_path = Inr demo_cm"
    by (simp add: cm_new_def cm_reload_def demo_file_values demo_load demo_cm_def)
      (simp add: demo_config_def)
  moreover obtain w1 where "apply_profile demo_profile demo_world = (None, w1)"
    using apply_backlight(1) [OF demo_backlight_works, of demo_profile]
    by (cases "apply_profile demo_profile demo_world") simp
  ultimately show ?thesis
    by (simp add: daemon_setup_def server_init_def new_server_def d_active_profile_def
        demo_active demo_boot_def Let_def split_beta)
qed

lemma demo_setup: "daemon_setup demo_path demo_world False None None 4 5 6 9 = Inr demo_started"
  unfolding demo_setup_bus by (simp add: sessions_init_def demo_started_def demo_boot_def)

lemma demo_reachable: "reachable demo_started"
  by (rule reachable.start [OF demo_setup])

text \<open>The same with the session bus, which gives session 3 as the active one.\<close>

definition demo_seated :: daemon where
  "demo_seated = watch_all 6 9
     (demo_boot\<lparr>sess := snd (sessions_init True (Some (Some ''/seat0'')) (Some (Some ''3'')) new_sessions)\<rparr>)"

lemma demo_seated_setup:
  "daemon_setup demo_path demo_world True (Some (Some ''/seat0'')) (Some (Some ''3'')) 4 5 6 9 = Inr demo_seated"
  unfolding demo_setup_bus demo_seated_def ..

section \<open>The agent\<close>

definition demo_input :: input_idle where
  "demo_input = new_input_idle\<lparr>i_epoll_fd := 10, i_timer_fd := 11, i_dim_ms := 300000,
     i_sleep_ms := 600000\<rparr>"

definition demo_env :: mon_env where
  "demo_env = \<lparr>have_wayland = False, wayland_display = False, display_ok = False, display_fd = -1, globals = [],
     got = (None, None), mon_epoll_fd = 10, mon_timer_fd = 11, devices = Some [(''event0'', 12)],
     clock = 0\<rparr>"

definition demo_agent :: agent where
  "demo_agent = \<lparr>opts = \<lparr>socket_path = SOCKET_PATH, opt_session_id = ''3'', lock_cmd = ''swaylock'',
       before_sleep_cmd = ''sync'', opt_uid = 1000\<rparr>,
     daemon_fd = 3, daemon_buf = [], idle = Some (Input demo_input), mpris = new_mpris,
     world = demo_world, attempts = [(-1, False, False), (3, True, False)], forks = [],
     agent_epoll_fd = 9, agent_watched = [3, 10]\<rparr>"

lemma demo_agent_fields [simp]:
  "daemon_fd demo_agent = 3" "daemon_buf demo_agent = []" "idle demo_agent = Some (Input demo_input)"
  "Agent.world demo_agent = demo_world" "mpris demo_agent = new_mpris" "forks demo_agent = []"
  "attempts demo_agent = [(-1, False, False), (3, True, False)]" "opt_session_id (opts demo_agent) = ''3''"
  "opt_uid (opts demo_agent) = 1000"
  by (simp_all add: demo_agent_def)

end
