(* ===== verification/Delivery.thy ===== *)
theory Delivery
  imports Daemon_Props
begin

text \<open>
  How lines reach the daemon.  The handlers of decodable lines neither read nor change the
  connections, so that it makes no difference into which pieces a client's bytes are cut;
  and serving one client leaves the connection and the registration of another alone.
\<close>

section \<open>Handlers and the connections\<close>

text \<open>The facts that move a change of the connections out of a handler.\<close>

named_theorems servers

definition with_srv :: "server \<Rightarrow> daemon \<Rightarrow> daemon" where
  "with_srv s d = d\<lparr>srv := s\<rparr>"

abbreviation put_srv :: "server \<Rightarrow> outcome \<Rightarrow> outcome" where
  "put_srv s \<equiv> map_prod id (with_srv s)"

lemma with_srv_fields [servers]:
  "cm (with_srv s d) = cm d" "pm (with_srv s d) = pm d" "sess (with_srv s d) = sess d"
  "hw_fd (with_srv s d) = hw_fd d" "epoll_fd (with_srv s d) = epoll_fd d" "watched (with_srv s d) = watched d"
  "agents (with_srv s d) = agents d" "dimmed (with_srv s d) = dimmed d"
  "world (with_srv s d) = world d" "srv (with_srv s d) = s"
  "(with_srv s d)\<lparr>cm := c\<rparr> = with_srv s (d\<lparr>cm := c\<rparr>)"
  "(with_srv s d)\<lparr>pm := q\<rparr> = with_srv s (d\<lparr>pm := q\<rparr>)"
  "(with_srv s d)\<lparr>agents := ags\<rparr> = with_srv s (d\<lparr>agents := ags\<rparr>)"
  "(with_srv s d)\<lparr>dimmed := b\<rparr> = with_srv s (d\<lparr>dimmed := b\<rparr>)"
  "(with_srv s d)\<lparr>world := w\<rparr> = with_srv s (d\<lparr>world := w\<rparr>)"
  by (simp_all add: with_srv_def)

lemma with_srv_views [servers]:
  "d_active_profile (with_srv s d) = d_active_profile d"
  "is_active_agent fd (with_srv s d) = is_active_agent fd d"
  "has_any_inhibit (with_srv s d) = has_any_inhibit d"
  "lock_target (with_srv s d) = lock_target d"
  "status_reply (with_srv s d) = status_reply d"
  "profiles_reply (with_srv s d) = profiles_reply d"
  "inhibitors_reply (with_srv s d) = inhibitors_reply d"
  "battery_reply (with_srv s d) = battery_reply d"
  by (simp_all add: servers d_active_profile_def is_active_agent_def has_any_inhibit_def lock_target_def
      status_reply_def profiles_reply_def inhibitors_reply_def inhibitors_def battery_reply_def
      cong: option.case_cong)

lemma send_with_srv [servers]: "send fd m (with_srv s d) = with_srv s (send fd m d)"
  by (simp add: send_def servers)

lemma send_config_with_srv [servers]: "send_config fd (with_srv s d) = with_srv s (send_config fd d)"
  by (simp add: send_config_def servers Let_def)

lemma broadcast_with_srv [servers]: "broadcast_config (with_srv s d) = with_srv s (broadcast_config d)"
proof -
  have "fold send_config fds (with_srv s d) = with_srv s (fold send_config fds d)" for fds
    by (induction fds arbitrary: d) (simp_all add: servers)
  then show ?thesis by (simp add: broadcast_config_def servers)
qed

lemma lock_with_srv [servers]:
  "send_lock_to_active_agent (with_srv s d) = with_srv s (send_lock_to_active_agent d)"
  by (simp add: send_lock_to_active_agent_def servers split: option.splits)

lemma suspend_with_srv [servers]:
  "agent_fds s = agent_fds (srv d) \<Longrightarrow> do_suspend a (with_srv s d) = with_srv s (do_suspend a d)"
  by (simp add: do_suspend_def servers broadcast_and_wait_acks_def Let_def split_beta)

lemma change_with_srv [servers]: "on_change (with_srv s d) = put_srv s (on_change d)"
  by (simp add: on_change_def servers Let_def split: option.splits prod.splits)

lemma reload_with_srv [servers]: "reload_config (with_srv s d) = put_srv s (reload_config d)"
  by (simp add: reload_config_def servers split: sum.splits)

lemma set_active_with_srv [servers]:
  "set_active n (with_srv s d) = map_prod id (put_srv s) (set_active n d)"
  by (simp add: set_active_def servers Let_def split: prod.splits)

lemma hello_with_srv [servers]: "on_hello fd m (with_srv s d) = with_srv s (on_hello fd m d)"
  by (simp add: on_hello_def servers)

lemma inhibit_with_srv [servers]:
  "on_inhibit fd m (with_srv s d) = with_srv s (on_inhibit fd m d)"
  "on_uninhibit fd m (with_srv s d) = with_srv s (on_uninhibit fd m d)"
  by (simp_all add: on_inhibit_def on_uninhibit_def servers split: option.splits)

lemma idle_with_srv [servers]:
  "on_idle_dim fd (with_srv s d) = put_srv s (on_idle_dim fd d)"
  "on_active fd (with_srv s d) = put_srv s (on_active fd d)"
  "agent_fds s = agent_fds (srv d) \<Longrightarrow> on_idle_sleep fd (with_srv s d) = with_srv s (on_idle_sleep fd d)"
  by (simp_all add: on_idle_dim_def on_active_def on_idle_sleep_def servers Let_def
      split: option.splits prod.splits)

lemma ctl_with_srv [servers]: "on_ctl fd m (with_srv s d) = put_srv s (on_ctl fd m d)"
proof -
  obtain ok e d1 where sa: "set_active (str m ''profile'' []) d = (ok, e, d1)" by (metis prod_cases3)
  obtain e2 d2 where re: "reload_config d = (e2, d2)" by fastforce
  show ?thesis
    by (cases e; cases e2) (simp_all add: on_ctl_def sa re servers Let_def)
qed

lemma line_with_srv:
  assumes "decode l = Inr msg" "agent_fds s = agent_fds (srv d)"
  shows "on_line fd l (with_srv s d) = put_srv s (on_line fd l d)"
  using assms by (simp add: on_line_def dispatch_def servers Let_def)

lemma with_srv_same [simp]: "with_srv (srv d) d = d"
  by (simp add: with_srv_def)

lemma with_srv_twice [simp]: "with_srv s (with_srv s' d) = with_srv s d"
  by (simp add: with_srv_def)

lemma with_srv_fixed: "d = with_srv s d \<Longrightarrow> srv d = s"
  by (metis with_srv_fields(10))

lemma line_srv: "decode l = Inr msg \<Longrightarrow> on_line fd l d = (e, d') \<Longrightarrow> srv d' = srv d"
  using line_with_srv [of l msg "srv d" d fd] by (auto dest: with_srv_fixed)

text \<open>Empty lines are skipped.\<close>

definition decodable :: "string \<Rightarrow> bool" where
  "decodable l \<longleftrightarrow> l = [] \<or> (\<exists>msg. decode l = Inr msg)"

lemma lines_with_srv:
  assumes "\<forall>l \<in> set ls. decodable l" "agent_fds s = agent_fds (srv d)"
  shows "handle_lines fd ls (with_srv s d) = put_srv s (handle_lines fd ls d)"
  using assms
proof (induction ls arbitrary: d)
  case Nil
  then show ?case by simp
next
  case (Cons l ls)
  show ?case
  proof (cases "l = []")
    case True
    then show ?thesis using Cons by simp
  next
    case False
    then obtain msg where m: "decode l = Inr msg" using Cons.prems by (auto simp: decodable_def)
    obtain e d1 where l: "on_line fd l d = (e, d1)" by fastforce
    have "agent_fds s = agent_fds (srv d1)" using line_srv [OF m l] Cons.prems by simp
    then show ?thesis
      using False l line_with_srv [OF m Cons.prems(2), of fd] Cons by (cases e) simp_all
  qed
qed

lemma lines_srv:
  assumes "\<forall>l \<in> set ls. decodable l" "handle_lines fd ls d = (e, d')"
  shows "srv d' = srv d"
  using lines_with_srv [OF assms(1), of "srv d" d fd] assms(2) by (auto dest: with_srv_fixed)

lemma handle_lines_append:
  "handle_lines fd (xs @ ys) d =
    (case handle_lines fd xs d of (Some e, d1) \<Rightarrow> (Some e, d1) | (None, d1) \<Rightarrow> handle_lines fd ys d1)"
  by (induction xs arbitrary: d) (auto split: prod.splits option.splits)

section \<open>Pieces\<close>

text \<open>The connection's buffer replaced.\<close>

definition put_buf :: "int \<Rightarrow> connection \<Rightarrow> string \<Rightarrow> server \<Rightarrow> server" where
  "put_buf fd c b sv = sv\<lparr>m_conns := umap_put fd (c\<lparr>buf := b\<rparr>) (m_conns sv)\<rparr>"

lemma umap_put_twice [simp]: "umap_put k v (umap_put k u m) = umap_put k v m"
  by (induction m) auto

lemma put_buf_facts [simp]:
  "map_of (m_conns (put_buf fd c b sv)) fd = Some (c\<lparr>buf := b\<rparr>)"
  "m_listen_fd (put_buf fd c b sv) = m_listen_fd sv"
  "put_buf fd (c\<lparr>buf := x\<rparr>) y (put_buf fd c z sv) = put_buf fd c y sv"
  by (simp_all add: put_buf_def map_of_umap_put)

lemma put_buf_agents:
  assumes "map_of (m_conns sv) fd = Some c"
  shows "agent_fds (put_buf fd c b sv) = agent_fds sv"
proof -
  have "map_of m fd = Some c \<Longrightarrow> map fst (filter (\<lambda>(fd, c). is_agent c) (umap_put fd (c\<lparr>buf := b\<rparr>) m)) =
      map fst (filter (\<lambda>(fd, c). is_agent c) m)" for m
    by (induction m) (auto split: if_splits)
  from this [OF assms] show ?thesis by (simp add: agent_fds_def put_buf_def)
qed

lemma put_buf_same: "map_of (m_conns sv) fd = Some c \<Longrightarrow> put_buf fd c (buf c) sv = sv"
proof -
  have "map_of m fd = Some c \<Longrightarrow> umap_put fd c m = m" for m
    by (induction m) (auto split: if_splits)
  then show "map_of (m_conns sv) fd = Some c \<Longrightarrow> ?thesis" by (simp add: put_buf_def)
qed

lemma handle_client_quiet:
  assumes "map_of (m_conns (srv d)) fd = Some c" "quiet rs"
    and "split_lines (buf c @ payload rs) = (ls, r)"
  shows "handle_client fd (rs @ [Read_again]) d = handle_lines fd ls (with_srv (put_buf fd c r (srv d)) d)"
  using assms feed_quiet [OF assms(2), of "[]" "buf c"]
  by (auto simp: handle_client_def feed_client_def put_buf_def with_srv_def split: option.splits prod.splits)

text \<open>A wake-up of the loop for the client \<open>fd\<close> with some of its bytes.\<close>

definition wake :: "int \<Rightarrow> rd list \<Rightarrow> ready" where
  "wake fd rs = \<lparr>ready_fd = fd, accepted = -1, reads = rs @ [Read_again], inputs = []\<rparr>"

lemma handle_wake:
  assumes "map_of (m_conns (srv d)) fd = Some c" "fd \<noteq> m_listen_fd (srv d)" "quiet rs"
    and "split_lines (buf c @ payload rs) = (ls, r)"
  shows "handle_ready (wake fd rs) d = handle_lines fd ls (with_srv (put_buf fd c r (srv d)) d)"
  using handle_client_quiet [OF assms(1,3,4)] assms(1,2)
  by (simp add: handle_ready_def wake_def is_listen_fd_def has_fd_def)

lemma wakes_are_lines:
  assumes "map_of (m_conns (srv d)) fd = Some c" "fd \<noteq> m_listen_fd (srv d)" "\<forall>rs \<in> set rss. quiet rs"
    and "split_lines (buf c @ concat (map payload rss)) = (ls, r)" "\<forall>l \<in> set ls. decodable l"
    and "CHR ''\<newline>'' \<notin> set (buf c)"
    and "handle_all (map (wake fd) rss) d = (e, d1)"
    and "handle_lines fd ls (with_srv (put_buf fd c r (srv d)) d) = (e', d2)"
  shows "e = e' \<and> (e = None \<longrightarrow> d1 = d2)"
  using assms
proof (induction rss arbitrary: d c ls d1 d2)
  case Nil
  then show ?case using put_buf_same [OF Nil.prems(1)] split_lines_none [of "buf c"] by auto
next
  case (Cons rs rss)
  obtain ls1 r1 where s1: "split_lines (buf c @ payload rs) = (ls1, r1)" by fastforce
  obtain ls2 r2 where s2: "split_lines (r1 @ concat (map payload rss)) = (ls2, r2)" by fastforce
  have ls: "ls = ls1 @ ls2" "r = r2"
    using split_lines_append [of "buf c @ payload rs" "concat (map payload rss)"] Cons.prems(4) s1 s2 by auto
  note r1 = split_lines_rest [of "buf c @ payload rs", unfolded s1 snd_conv]
  obtain e1 x where x: "handle_lines fd ls1 d = (e1, x)" by fastforce
  have dec: "\<forall>l \<in> set ls1. decodable l" "\<forall>l \<in> set ls2. decodable l"
    using Cons.prems(5) ls by auto
  have srv: "srv x = srv d" by (rule lines_srv [OF dec(1) x])
  have w: "handle_lines fd ls1 (with_srv (put_buf fd c b (srv d)) d) = (e1, with_srv (put_buf fd c b (srv d)) x)" for b
    using lines_with_srv [OF dec(1) put_buf_agents [OF Cons.prems(1)], of fd b] x by simp
  have one: "handle_ready (wake fd rs) d = (e1, with_srv (put_buf fd c r1 (srv d)) x)"
    using handle_wake [OF Cons.prems(1,2) _ s1] Cons.prems(3) w by simp
  show ?case
  proof (cases e1)
    case (Some y)
    then show ?thesis using Cons.prems(7,8) one w by (auto simp: ls handle_lines_append)
  next
    case None
    let ?d = "with_srv (put_buf fd c r1 (srv d)) x"
    have "handle_all (map (wake fd) rss) ?d = (e, d1)" using Cons.prems(7) one None by simp
    moreover have "handle_lines fd ls2 (with_srv (put_buf fd (c\<lparr>buf := r1\<rparr>) r2 (srv ?d)) ?d) = (e', d2)"
      using Cons.prems(8) w None by (simp add: ls handle_lines_append servers)
    ultimately show ?thesis
      using Cons.IH [of ?d "c\<lparr>buf := r1\<rparr>" ls2 d1 d2] s2 dec(2) r1 Cons.prems(2,3) ls(2)
      by (simp add: servers)
  qed
qed

text \<open>
  C7: as long as a client's lines can be decoded, it makes no difference to the
  daemon how its bytes are cut into reads and wake-ups: serving it once for each piece and
  serving it once with all of them raise the same exception or end in the same state.
\<close>

theorem delivery_independent_of_chunking:
  assumes "map_of (m_conns (srv d)) fd = Some c" "\<not> is_listen_fd (srv d) fd"
    and "CHR ''\<newline>'' \<notin> set (buf c)" "\<forall>rs \<in> set rss. quiet rs"
    and "\<forall>l \<in> set (fst (split_lines (buf c @ concat (map payload rss)))). decodable l"
    and "handle_all (map (wake fd) rss) d = (e, d1)"
    and "handle_all [wake fd (concat rss)] d = (e', d2)"
  shows "e = e' \<and> (e = None \<longrightarrow> d1 = d2)"
proof -
  obtain ls r where s: "split_lines (buf c @ concat (map payload rss)) = (ls, r)" by fastforce
  have "payload (a @ b) = payload a @ payload b" "quiet (a @ b) \<longleftrightarrow> quiet a \<and> quiet b" if "quiet a" for a b
    using that by (induction a rule: quiet.induct) auto
  then have q: "quiet (concat rss)" "payload (concat rss) = concat (map payload rss)"
    using assms(4) by (induction rss) auto
  have "handle_lines fd ls (with_srv (put_buf fd c r (srv d)) d) = (e', d2)"
    using assms(7) handle_wake [OF assms(1) _ q(1)] q(2) s assms(2)
    by (auto simp: is_listen_fd_def split: prod.splits option.splits)
  then show ?thesis
    using wakes_are_lines [OF assms(1) _ assms(4) s _ assms(3,6)] assms(2,5) s by (simp add: is_listen_fd_def)
qed

end
