(* ===== verification/Network.thy ===== *)
theory Network
  imports System Delivery
begin

text \<open>
  The daemon and one agent running side by side: the agent takes turns of its loop, the bytes
  it writes travel in order to the connection the daemon has for it, and the daemon reads
  them in any pieces, between serving other clients and the session bus in any order.  What
  the agent does with what the daemon sends back is not restricted, so the other direction is
  left open.  The invariant relates the players the agent knows to the inhibitors the daemon
  holds, through the bytes still on their way.
\<close>

section \<open>The messages of an agent\<close>

datatype agent_msg = Hello string u32 | Idle_dim | Idle_sleep | Is_active | Inhibit | Uninhibit | Ack

fun enc :: "agent_msg \<Rightarrow> string" where
  "enc (Hello s u) = encode_hello s u"
| "enc Idle_dim = encode_idle_dim"
| "enc Idle_sleep = encode_idle_sleep"
| "enc Is_active = encode_active"
| "enc Inhibit = encode_inhibit k_inhibit_reason"
| "enc Uninhibit = encode_uninhibit k_inhibit_reason"
| "enc Ack = encode_ack"

text \<open>What a message does to the inhibitors the daemon holds for its sender.\<close>

fun effect :: "agent_msg \<Rightarrow> string set option \<Rightarrow> string set option" where
  "effect (Hello s u) st = Some {}"
| "effect Inhibit st = map_option (insert k_inhibit_reason) st"
| "effect Uninhibit st = map_option (\<lambda>S. S - {k_inhibit_reason}) st"
| "effect _ st = st"

definition held :: "daemon \<Rightarrow> int \<Rightarrow> string set option" where
  "held d fd = map_option (\<lambda>a. set (inhibits a)) (map_of (agents d) fd)"

lemma enc_decodes: "\<exists>msg. decode (enc m) = Inr msg"
  by (cases m) simp_all

lemma enc_line [simp]: "CHR ''\<newline>'' \<notin> set (enc m)" "enc m \<noteq> []"
proof -
  obtain v where "enc m = dump v" "is_object v"
    by (cases m) (auto simp: encoders typed_def reason_msg_def hello_object)
  then show "CHR ''\<newline>'' \<notin> set (enc m)" "enc m \<noteq> []"
    by (simp_all add: framing dump_object_nonempty)
qed

lemma enc_decodable: "decodable (enc m)"
  using enc_decodes by (simp add: decodable_def)

lemma held_inhibits:
  assumes "held d fd = Some S" "S \<noteq> {}"
  shows "has_any_inhibit d"
proof -
  obtain a where a: "map_of (agents d) fd = Some a" "set (inhibits a) = S"
    using assms(1) by (auto simp: held_def)
  then have "inhibits a \<noteq> []" using assms(2) by auto
  then show ?thesis using map_of_SomeD [OF a(1)] by (auto simp: has_any_inhibit_iff)
qed

section \<open>The daemon reads\<close>

lemma agents_kept:
  "on_idle_dim fd d = (e, d') \<Longrightarrow> agents d' = agents d"
  "on_active fd d = (e, d') \<Longrightarrow> agents d' = agents d"
  "agents (on_idle_sleep fd d) = agents d"
  by (auto simp: on_idle_dim_def on_active_def on_idle_sleep_def do_suspend_def Let_def
      split: option.splits prod.splits if_splits)

lemma held_effect:
  assumes "on_line fd (enc m) d = (None, d')"
  shows "held d' fd = effect m (held d fd)"
  using assms
  by (cases m)
    (auto simp: on_line_messages held_def on_hello_def on_inhibit_def on_uninhibit_def
      map_of_umap_put agents_kept on_line_def dispatch_def message_types Let_def
      split: if_splits option.splits)

lemma held_effects:
  "handle_lines fd (map enc ms) d = (None, d') \<Longrightarrow> held d' fd = fold effect ms (held d fd)"
  by (induction ms arbitrary: d) (auto simp: held_effect split: prod.splits option.splits)

text \<open>Bytes that are a stream of lines: what has been read of them are the first ones.\<close>

lemma stream_lines:
  assumes "b @ p @ p' = stream_of ms" "\<forall>l \<in> set ms. CHR ''\<newline>'' \<notin> set l" "split_lines (b @ p) = (ls, r)"
  shows "\<exists>ls'. ms = ls @ ls' \<and> r @ p' = stream_of ls'"
proof -
  have all: "split_lines (b @ p @ p') = (ms, [])"
    using split_lines_messages [of ms "[]"] assms(2) by (simp add: assms(1) stream_of_eq)
  obtain ls2 r2 where rest: "split_lines (r @ p') = (ls2, r2)" by fastforce
  have "ms = ls @ ls2" "r2 = []"
    using split_lines_append [of "b @ p" p'] all assms(3) rest by auto
  moreover have "r @ p' = concat (map (\<lambda>l. l @ ''\<newline>'') ls2)"
    using split_lines_spec [OF rest] \<open>r2 = []\<close> by simp
  ultimately show ?thesis by (auto simp: stream_of_eq)
qed

lemma stream_prefix:
  assumes "b @ p @ p' = stream_of (map enc ms)" "split_lines (b @ p) = (ls, r)"
  shows "\<exists>ms1 ms2. ms = ms1 @ ms2 \<and> ls = map enc ms1 \<and> r @ p' = stream_of (map enc ms2)"
  using stream_lines [OF assms(1) _ assms(2)] by (force simp: map_eq_append_conv)

lemma stream_without_newline: "CHR ''\<newline>'' \<notin> set (stream_of ls) \<Longrightarrow> ls = []"
  by (cases ls) (simp_all add: stream_of_eq)

section \<open>The agent writes\<close>

text \<open>What a turn adds to the wire towards the daemon, as messages.\<close>

definition writes :: "agent_msg list \<Rightarrow> agent \<Rightarrow> agent \<Rightarrow> bool" where
  "writes ms a a' \<longleftrightarrow> daemon_fd a' = daemon_fd a \<and>
     wscript (Agent.world a') (daemon_fd a) = [] \<and>
     wire (Agent.world a') = wire (Agent.world a) @ map (\<lambda>m. (daemon_fd a, enc m @ ''\<newline>'')) ms"

definition healthy :: "agent \<Rightarrow> bool" where
  "healthy a \<longleftrightarrow> 0 \<le> daemon_fd a \<and> wscript (Agent.world a) (daemon_fd a) = []"

lemma writes_Nil: "healthy a \<Longrightarrow> Agent.world a' = Agent.world a \<Longrightarrow> daemon_fd a' = daemon_fd a \<Longrightarrow> writes [] a a'"
  by (simp add: writes_def healthy_def)

lemma writes_append: "writes ms a a1 \<Longrightarrow> writes ms' a1 a2 \<Longrightarrow> writes (ms @ ms') a a2"
  by (auto simp: writes_def)

lemma writes_healthy: "healthy a \<Longrightarrow> writes ms a a' \<Longrightarrow> healthy a'"
  by (simp add: writes_def healthy_def)

lemma writes_send_lines: "healthy a \<Longrightarrow> writes ms a (send_lines (map enc ms) a)"
  using send_lines_wire [of a "map enc ms"] by (simp add: writes_def healthy_def)

lemma healthy_keep [simp]:
  "healthy (a\<lparr>mpris := x\<rparr>) = healthy a" "healthy (a\<lparr>idle := y\<rparr>) = healthy a"
  "healthy (a\<lparr>agent_watched := w\<rparr>) = healthy a" "healthy (agent_watch n a) = healthy a"
  "healthy (a\<lparr>daemon_buf := z\<rparr>) = healthy a" "healthy (a\<lparr>forks := f\<rparr>) = healthy a"
  by (simp_all add: healthy_def)

lemma writes_keep [simp]:
  "writes ms (a\<lparr>mpris := x\<rparr>) a' = writes ms a a'" "writes ms (a\<lparr>idle := y\<rparr>) a' = writes ms a a'"
  "writes ms (a\<lparr>daemon_buf := z\<rparr>) a' = writes ms a a'" "writes ms (agent_watch n a) a' = writes ms a a'"
  by (simp_all add: writes_def)

fun mpris_msg :: "mpris_event \<Rightarrow> agent_msg" where
  "mpris_msg M_inhibit = Inhibit"
| "mpris_msg M_uninhibit = Uninhibit"

fun idle_msg :: "idle_event \<Rightarrow> agent_msg" where
  "idle_msg On_dim = Idle_dim"
| "idle_msg On_sleep = Idle_sleep"
| "idle_msg On_active = Is_active"

lemma lines_are_messages:
  "map mpris_line es = map enc (map mpris_msg es)" "map idle_line is = map enc (map idle_msg is)"
proof -
  have "mpris_line e = enc (mpris_msg e)" "idle_line i = enc (idle_msg i)" for e i
    by (cases e; simp) (cases i; simp)
  then show "map mpris_line es = map enc (map mpris_msg es)" "map idle_line is = map enc (map idle_msg is)"
    by simp_all
qed

text \<open>Messages that leave the inhibitors alone.\<close>

abbreviation plain :: "agent_msg list \<Rightarrow> bool" where
  "plain ms \<equiv> set ms \<subseteq> {Idle_dim, Idle_sleep, Is_active, Ack}"

lemma plain_effect: "plain ms \<Longrightarrow> fold effect ms st = st"
  by (induction ms arbitrary: st) auto

lemma idle_poll_writes:
  assumes "healthy a"
  shows "\<exists>ms. writes ms a (idle_poll is a) \<and> plain ms \<and> mpris (idle_poll is a) = mpris a"
proof (cases "idle a")
  case None
  then show ?thesis using writes_Nil [OF assms] by (auto simp: idle_poll_def intro!: exI [of _ "[]"])
next
  case (Some m)
  obtain out m1 where p: "mon_poll is m = (out, m1)" by fastforce
  have "idle_poll is a = send_lines (map enc (map idle_msg out)) (a\<lparr>idle := Some m1\<rparr>)"
    unfolding lines_are_messages(2) [symmetric] using Some p by (simp add: idle_poll_def)
  moreover have "plain (map idle_msg out)"
  proof -
    have "idle_msg x \<in> {Idle_dim, Idle_sleep, Is_active, Ack}" for x by (cases x) simp_all
    then show ?thesis by auto
  qed
  ultimately show ?thesis
    using writes_send_lines [of "a\<lparr>idle := Some m1\<rparr>" "map idle_msg out"] assms by fastforce
qed

lemma daemon_line_writes:
  assumes "healthy a"
  shows "\<exists>ms. writes ms a (on_daemon_line e l a) \<and> set ms \<subseteq> {Ack} \<and> mpris (on_daemon_line e l a) = mpris a"
proof -
  have ack: "writes [Ack] a (agent_send encode_ack (run_child c a))" for c
    using assms by (simp add: writes_def healthy_def agent_send_def send_line_healthy)
  have none: "writes [] a a'" if "wire (Agent.world a') = wire (Agent.world a)"
      "wscript (Agent.world a') = wscript (Agent.world a)" "daemon_fd a' = daemon_fd a" for a'
    using that assms by (simp add: writes_def healthy_def)
  show ?thesis
  proof (cases "decode l")
    case (Inl x)
    then show ?thesis using none [of a] by (auto simp: on_daemon_line_def intro!: exI [of _ "[]"])
  next
    case (Inr msg)
    show ?thesis
    proof (cases "msg_type msg = T_PRE_SLEEP")
      case True
      then have "on_daemon_line e l a = agent_send encode_ack (run_child (before_sleep_cmd (opts a)) a)"
        using Inr by (simp add: on_daemon_line_def message_types run_before_sleep_cmd_def)
      then show ?thesis using ack by (auto intro!: exI [of _ "[Ack]"])
    next
      case False
      then show ?thesis
        using Inr False
        by (auto simp: on_daemon_line_def run_lock_cmd_def Let_def split: option.splits prod.splits
            intro!: exI [of _ "[]"] none)
    qed
  qed
qed

lemma daemon_lines_write:
  assumes "healthy a"
  shows "\<exists>ms. writes ms a (handle_daemon_lines e ls a) \<and> set ms \<subseteq> {Ack} \<and>
    mpris (handle_daemon_lines e ls a) = mpris a"
proof -
  have "\<exists>ms. writes ms a (fold (on_daemon_line e) ls a) \<and> set ms \<subseteq> {Ack} \<and> mpris (fold (on_daemon_line e) ls a) = mpris a"
    if "healthy a" for ls a
    using that
  proof (induction ls arbitrary: a)
    case Nil
    then show ?case using writes_Nil by (auto intro!: exI [of _ "[]"])
  next
    case (Cons l ls)
    obtain ms where l: "writes ms a (on_daemon_line e l a)" "set ms \<subseteq> {Ack}" "mpris (on_daemon_line e l a) = mpris a"
      using daemon_line_writes [OF Cons.prems] by blast
    from Cons.IH [OF writes_healthy [OF Cons.prems l(1)]]
    obtain ms' where "writes ms' (on_daemon_line e l a) (fold (on_daemon_line e) (l # ls) a)" "set ms' \<subseteq> {Ack}"
      "mpris (fold (on_daemon_line e) (l # ls) a) = mpris a"
      using l(3) by auto
    then show ?case using writes_append [OF l(1)] l(2) by (metis Un_least set_append)
  qed
  then show ?thesis using assms by (simp add: handle_daemon_lines_def)
qed

lemma agent_handle_writes:
  assumes "healthy a" "agent_handle r a = (False, a')"
  shows "\<exists>ms. writes ms a a' \<and> plain ms \<and> mpris a' = mpris a"
  using assms daemon_lines_write [of "a\<lparr>daemon_buf := _\<rparr>"] idle_poll_writes [OF assms(1)] writes_Nil [OF assms(1)]
  by (fastforce simp: agent_handle_def split: if_splits prod.splits option.splits)

lemma agent_handle_all_writes:
  assumes "healthy a" "agent_handle_all rs a = (False, a')"
  shows "\<exists>ms. writes ms a a' \<and> plain ms \<and> mpris a' = mpris a"
  using assms
proof (induction rs arbitrary: a)
  case Nil
  then show ?case using writes_Nil by (auto intro!: exI [of _ "[]"])
next
  case (Cons r rs)
  obtain a1 where r: "agent_handle r a = (False, a1)" "agent_handle_all rs a1 = (False, a')"
    using Cons.prems by (auto split: prod.splits if_splits)
  obtain ms where l: "writes ms a a1" "plain ms" "mpris a1 = mpris a"
    using agent_handle_writes [OF Cons.prems(1) r(1)] by blast
  from Cons.IH [OF writes_healthy [OF Cons.prems(1) l(1)] r(2)] show ?case
    using writes_append [OF l(1)] l(2,3) by (metis Un_least set_append)
qed

text \<open>A turn: first what the players' changes make it say, then messages about idleness.\<close>

lemma agent_turn_writes:
  assumes "healthy a" "agent_turn ss rs a = (False, a')"
  shows "\<exists>out ms. mpris_poll ss (mpris a) = (out, mpris a') \<and> plain ms \<and>
    writes (map mpris_msg out @ ms) a a'"
proof -
  obtain out m where p: "mpris_poll ss (mpris a) = (out, m)" by fastforce
  let ?a = "send_lines (map enc (map mpris_msg out)) (a\<lparr>mpris := m\<rparr>)"
  have w: "writes (map mpris_msg out) a ?a"
    using writes_send_lines [of "a\<lparr>mpris := m\<rparr>" "map mpris_msg out"] assms(1) by simp
  have "agent_mpris_poll ss a = ?a"
    unfolding lines_are_messages(1) [symmetric] using p by (simp add: agent_mpris_poll_def)
  then have "agent_handle_all rs ?a = (False, a')" using assms(2) by (simp add: agent_turn_def)
  from agent_handle_all_writes [OF writes_healthy [OF assms(1) w] this] show ?thesis
    using writes_append [OF w] p by auto
qed

section \<open>The two together\<close>

record net =
  n_daemon :: daemon
  n_agent :: agent
  n_pipe :: string

text \<open>The bytes a turn of the agent put on the wire to the daemon.\<close>

definition sent_bytes :: "agent \<Rightarrow> agent \<Rightarrow> string" where
  "sent_bytes a a' = concat (map snd (filter (\<lambda>(fd, _). fd = daemon_fd a)
     (drop (length (wire (Agent.world a))) (wire (Agent.world a')))))"

text \<open>
  \<open>fd\<close> is the daemon's descriptor of the connection.  A step is a turn of the agent's loop
  that does not leave it, the daemon reading some of the bytes on their way, the daemon
  serving another ready descriptor, or its bus.
\<close>

inductive net_step :: "int \<Rightarrow> net \<Rightarrow> net \<Rightarrow> bool" for fd where
  agent: "agent_turn ss rs (n_agent n) = (False, a') \<Longrightarrow>
    net_step fd n (n\<lparr>n_agent := a', n_pipe := n_pipe n @ sent_bytes (n_agent n) a'\<rparr>)"
| reads: "quiet rs \<Longrightarrow> n_pipe n = payload rs @ p \<Longrightarrow>
    handle_ready (wake fd rs) (n_daemon n) = (None, d') \<Longrightarrow>
    net_step fd n (n\<lparr>n_daemon := d', n_pipe := p\<rparr>)"
| serves: "ready_fd r \<noteq> fd \<Longrightarrow> handle_ready r (n_daemon n) = (None, d') \<Longrightarrow>
    net_step fd n (n\<lparr>n_daemon := d'\<rparr>)"
| bus: "net_step fd n (n\<lparr>n_daemon := (n_daemon n)\<lparr>sess := sessions_poll sigs (sess (n_daemon n))\<rparr>\<rparr>)"

text \<open>
  The start: the daemon has accepted the agent, which has said hello and found no player
  playing.
\<close>

definition net_start :: "int \<Rightarrow> net \<Rightarrow> bool" where
  "net_start fd n \<longleftrightarrow>
     (\<exists>c. map_of (m_conns (srv (n_daemon n))) fd = Some c \<and> buf c = []) \<and>
     \<not> is_listen_fd (srv (n_daemon n)) fd \<and>
     (\<exists>s u. n_pipe n = stream_of [encode_hello s u]) \<and>
     healthy (n_agent n) \<and> knows (mpris (n_agent n)) \<and> m_callbacks (mpris (n_agent n)) \<and>
     m_playing (mpris (n_agent n)) = []"

inductive net_reach :: "int \<Rightarrow> net \<Rightarrow> bool" for fd where
  start: "net_start fd n \<Longrightarrow> net_reach fd n"
| step: "net_reach fd n \<Longrightarrow> net_step fd n n' \<Longrightarrow> net_reach fd n'"

text \<open>The inhibitors the daemon should hold for the agent.\<close>

definition wanted :: "bool \<Rightarrow> string set" where
  "wanted playing = (if playing then {k_inhibit_reason} else {})"

definition is_playing :: "net \<Rightarrow> bool" where
  "is_playing n \<longleftrightarrow> m_playing (mpris (n_agent n)) \<noteq> []"

definition in_step :: "int \<Rightarrow> net \<Rightarrow> bool" where
  "in_step fd n \<longleftrightarrow> healthy (n_agent n) \<and> knows (mpris (n_agent n)) \<and> m_callbacks (mpris (n_agent n)) \<and>
     \<not> is_listen_fd (srv (n_daemon n)) fd \<and>
     (\<exists>c ms. map_of (m_conns (srv (n_daemon n))) fd = Some c \<and> CHR ''\<newline>'' \<notin> set (buf c) \<and>
        buf c @ n_pipe n = stream_of (map enc ms) \<and>
        fold effect ms (held (n_daemon n) fd) = Some (wanted (is_playing n)))"

lemma in_stepI:
  assumes "healthy (n_agent n)" "knows (mpris (n_agent n))" "m_callbacks (mpris (n_agent n))"
    and "\<not> is_listen_fd (srv (n_daemon n)) fd" "map_of (m_conns (srv (n_daemon n))) fd = Some c"
    and "CHR ''\<newline>'' \<notin> set (buf c)" "buf c @ n_pipe n = stream_of (map enc ms)"
    and "fold effect ms (held (n_daemon n) fd) = Some (wanted (is_playing n))"
  shows "in_step fd n"
  using assms by (auto simp: in_step_def)

lemma players_effect:
  "fold effect (map mpris_msg out) (Some (wanted b)) = Some (wanted (listener b out))"
proof (induction out arbitrary: b)
  case (Cons e out)
  have "effect (mpris_msg e) (Some (wanted b)) = Some (wanted (e = M_inhibit))"
    by (cases e) (auto simp: wanted_def)
  then show ?case using Cons by simp
qed simp

lemma stream_append: "stream_of (xs @ ys) = stream_of xs @ stream_of ys"
  by (simp add: stream_of_eq)

lemma writes_sent:
  assumes "writes ms a a'"
  shows "sent_bytes a a' = stream_of (map enc ms)"
proof -
  have "filter (\<lambda>(fd, _). fd = daemon_fd a) (map (\<lambda>m. (daemon_fd a, enc m @ ''\<newline>'')) ms) =
      map (\<lambda>m. (daemon_fd a, enc m @ ''\<newline>'')) ms"
    by (induction ms) auto
  then show ?thesis using assms by (simp add: sent_bytes_def writes_def stream_of_eq comp_def)
qed

lemma in_step_agent:
  assumes "in_step fd n" "agent_turn ss rs (n_agent n) = (False, a')"
  shows "in_step fd (n\<lparr>n_agent := a', n_pipe := n_pipe n @ sent_bytes (n_agent n) a'\<rparr>)"
proof -
  have h: "healthy (n_agent n)" "knows (mpris (n_agent n))" "m_callbacks (mpris (n_agent n))"
    using assms(1) by (simp_all add: in_step_def)
  obtain out ms where p: "mpris_poll ss (mpris (n_agent n)) = (out, mpris a')" and ms: "plain ms"
    and w: "writes (map mpris_msg out @ ms) (n_agent n) a'"
    using agent_turn_writes [OF h(1) assms(2)] by blast
  note v = mpris_poll_view [OF h(2,3) p]
  obtain c ms0 where c: "map_of (m_conns (srv (n_daemon n))) fd = Some c" "CHR ''\<newline>'' \<notin> set (buf c)"
      "buf c @ n_pipe n = stream_of (map enc ms0)"
      "fold effect ms0 (held (n_daemon n) fd) = Some (wanted (is_playing n))"
    using assms(1) by (auto simp: in_step_def)
  have "buf c @ n_pipe n @ sent_bytes (n_agent n) a' = stream_of (map enc (ms0 @ map mpris_msg out @ ms))"
    using c(3) writes_sent [OF w] by (simp add: stream_append flip: append_assoc)
  moreover have "fold effect (ms0 @ map mpris_msg out @ ms) (held (n_daemon n) fd) =
      Some (wanted (m_playing (mpris a') \<noteq> []))"
    using c(4) v by (simp add: players_effect plain_effect [OF ms] is_playing_def)
  moreover have "\<not> is_listen_fd (srv (n_daemon n)) fd" using assms(1) by (simp add: in_step_def)
  ultimately show ?thesis
    using c(1,2) v writes_healthy [OF h(1) w]
    by (intro in_stepI [where ms = "ms0 @ map mpris_msg out @ ms" and c = c])
      (simp_all add: is_playing_def del: map_append)
qed

lemma in_step_reads:
  assumes "in_step fd n" "quiet rs" "n_pipe n = payload rs @ p"
    and "handle_ready (wake fd rs) (n_daemon n) = (None, d')"
  shows "in_step fd (n\<lparr>n_daemon := d', n_pipe := p\<rparr>)"
proof -
  obtain c ms where c: "map_of (m_conns (srv (n_daemon n))) fd = Some c" "CHR ''\<newline>'' \<notin> set (buf c)"
      "buf c @ payload rs @ p = stream_of (map enc ms)"
      "fold effect ms (held (n_daemon n) fd) = Some (wanted (is_playing n))"
    using assms(1,3) by (auto simp: in_step_def)
  obtain ls r where s: "split_lines (buf c @ payload rs) = (ls, r)" by fastforce
  obtain ms1 ms2 where m: "ms = ms1 @ ms2" "ls = map enc ms1" "r @ p = stream_of (map enc ms2)"
    using stream_prefix [OF c(3) s] by blast
  let ?d = "with_srv (put_buf fd c r (srv (n_daemon n))) (n_daemon n)"
  have l: "fd \<noteq> m_listen_fd (srv (n_daemon n))" using assms(1) by (simp add: in_step_def is_listen_fd_def)
  have h: "handle_lines fd (map enc ms1) ?d = (None, d')"
    using handle_wake [OF c(1) l assms(2) s] assms(4) m(2) by simp
  have "srv d' = put_buf fd c r (srv (n_daemon n))"
    using lines_srv [OF _ h] enc_decodable by (auto simp: servers)
  moreover have "held d' fd = fold effect ms1 (held (n_daemon n) fd)"
    using held_effects [OF h] by (simp add: held_def servers)
  moreover have "CHR ''\<newline>'' \<notin> set r" using split_lines_rest [of "buf c @ payload rs"] s by simp
  ultimately show ?thesis
    using assms(1) c(4) m(1,3) by (auto simp: in_step_def is_listen_fd_def is_playing_def)
qed

text \<open>Serving another client leaves the agent's connection and registration alone.\<close>

definition spares :: "int \<Rightarrow> daemon \<Rightarrow> daemon \<Rightarrow> bool" where
  "spares g d d' \<longleftrightarrow> map_of (agents d') g = map_of (agents d) g \<and>
     (has_fd (srv d) g \<longrightarrow> map_of (m_conns (srv d')) g = map_of (m_conns (srv d)) g) \<and>
     m_listen_fd (srv d') = m_listen_fd (srv d)"

interpretation other: daemon_rel "- {g}" UNIV "spares g" for g
proof (unfold_locales, goal_cases)
  case (9 fd d)
  then show ?case by (auto simp: spares_def accept_client_def map_of_umap_put has_fd_def)
next
  case (10 fd rs d ok ls sv)
  then show ?case
    by (auto simp: spares_def feed_client_def map_of_umap_put split_beta split: option.splits)
next
  case (11 fd d)
  then show ?case by (auto simp: spares_def close_client_def map_of_umap_erase)
next
  case (12 fd d)
  then show ?case by (auto simp: spares_def close_client_def map_of_umap_erase)
qed (auto simp: spares_def has_fd_def send_def map_of_umap_put map_of_umap_erase)

lemma in_step_spares:
  assumes "in_step fd n" "spares fd (n_daemon n) d'"
  shows "in_step fd (n\<lparr>n_daemon := d'\<rparr>)"
  using assms
  by (auto simp: in_step_def spares_def has_fd_def held_def is_listen_fd_def is_playing_def)

lemma start_in_step:
  assumes "net_start fd n"
  shows "in_step fd n"
proof -
  obtain c s u where "map_of (m_conns (srv (n_daemon n))) fd = Some c" "buf c = []"
    "n_pipe n = stream_of [encode_hello s u]" using assms by (auto simp: net_start_def)
  then show ?thesis
    using assms by (intro in_stepI [where ms = "[Hello s u]" and c = c])
      (auto simp: net_start_def is_playing_def wanted_def)
qed

lemma reach_in_step: "net_reach fd n \<Longrightarrow> in_step fd n"
proof (induction rule: net_reach.induct)
  case (start n)
  then show ?case by (rule start_in_step)
next
  case (step n n')
  from step(2,3) show ?case
  proof (induction rule: net_step.induct)
    case (agent ss rs n a')
    then show ?case by (intro in_step_agent)
  next
    case (reads rs n p d')
    then show ?case by (intro in_step_reads)
  next
    case (serves r n d')
    then show ?case using other.handle_ready_rel [of r _ None d' fd] by (intro in_step_spares) auto
  next
    case (bus n sigs)
    then show ?case by (intro in_step_spares) (simp_all add: spares_def)
  qed
qed

text \<open>The agent's \<open>run\<close> up to its loop leads to such a start.\<close>

lemma agent_start_ready:
  assumes "attempts a = retries bad @ (afd, True, False) # as" "failing bad" "0 \<le> afd"
    and "wscript (Agent.world a) afd = []" "mpris a = new_mpris"
    and "a' = agent_start True (True, True) ask names bfd efd a"
    and "wire (Agent.world a') = wire (Agent.world a) @ [(afd, p)]"
  shows "healthy a'" "knows (mpris a')" "m_callbacks (mpris a')"
    "p = stream_of [encode_hello (opt_session_id (opts a)) (opt_uid (opts a))]"
proof -
  obtain ok out m where m: "mpris_init True (True, True) ask names new_mpris = (ok, out, m)"
    by (metis prod_cases3)
  have ok: ok using m by (auto simp: mpris_init_def Let_def split: option.splits)
  have t: "out = []" "knows m"
    using tell.T_init [OF m] know.T_init [OF m] by (auto simp: tells_def knows_def new_mpris_def)
  have "attempts (a\<lparr>agent_epoll_fd := efd\<rparr>) = retries bad @ (afd, True, False) # as" using assms(1) by simp
  from connect_after_retries [OF this assms(2,3)] assms(4)
  have c: "connect_to_daemon (a\<lparr>agent_epoll_fd := efd\<rparr>) = a\<lparr>agent_epoll_fd := efd, daemon_fd := afd, attempts := as,
      agent_watched := epoll_ctl_add efd afd (agent_watched a), Agent.world := (Agent.world a)\<lparr>closed := closed (Agent.world a) @ sockets bad, wire := wire (Agent.world a) @
        [(afd, encode_hello (opt_session_id (opts a)) (opt_uid (opts a)) @ ''\<newline>'')]\<rparr>\<rparr>"
    by simp
  have a': "daemon_fd a' = afd" "Agent.world a' = Agent.world (connect_to_daemon (a\<lparr>agent_epoll_fd := efd\<rparr>))"
    "mpris a' = set_callbacks m"
    unfolding assms(6) agent_start_def c using assms(5) m ok t(1) by (simp_all add: send_lines_def Let_def)
  show "healthy a'" "knows (mpris a')" "m_callbacks (mpris a')"
    "p = stream_of [encode_hello (opt_session_id (opts a)) (opt_uid (opts a))]"
    using assms(7) t(2) by (auto simp: a' c healthy_def assms(3,4) set_callbacks_def knows_def stream_of_eq)
qed

lemma agent_start_net:
  assumes "attempts a = retries bad @ (afd, True, False) # as" "failing bad" "0 \<le> afd"
    and "wscript (Agent.world a) afd = []" "mpris a = new_mpris"
    and "a' = agent_start True (True, True) ask names bfd efd a" "m_playing (mpris a') = []"
    and "wire (Agent.world a') = wire (Agent.world a) @ [(afd, p)]"
    and "map_of (m_conns (srv d)) fd = Some c" "buf c = []" "\<not> is_listen_fd (srv d) fd"
  shows "net_start fd \<lparr>n_daemon = d, n_agent = a', n_pipe = p\<rparr>"
  using agent_start_ready [OF assms(1-6,8)] assms(7,9-) by (auto simp: net_start_def)

text \<open>
  An agent that was told of no playing player when it started and the daemon, run side
  by side in any interleaving, with the agent's bytes cut and delayed at will, other clients,
  buttons and the session bus in between: whenever the daemon has read what is on its way, it
  holds the agent's inhibitor if and only if a player is playing, and while one is, no idle
  message of any agent dims the screen or suspends the machine.
\<close>

lemma daemon_follows_players:
  assumes "net_reach fd n" "quiet rs" "payload rs = n_pipe n"
    and "handle_ready (wake fd rs) (n_daemon n) = (None, d')"
  shows "held d' fd = Some (wanted (is_playing n)) \<and>
    (is_playing n \<longrightarrow>
      (\<forall>g. on_line g encode_idle_dim d' = (None, d') \<and> on_line g encode_idle_sleep d' = (None, d')))"
proof -
  have "in_step fd (n\<lparr>n_daemon := d', n_pipe := []\<rparr>)"
    using in_step_reads [OF reach_in_step [OF assms(1)] assms(2) _ assms(4), of "[]"] assms(3) by simp
  then obtain ms where c: "CHR ''\<newline>'' \<notin> set (stream_of (map enc ms))"
    "fold effect ms (held d' fd) = Some (wanted (is_playing n))"
    by (auto simp: in_step_def is_playing_def)
  have "ms = []" using stream_without_newline [OF c(1)] by simp
  then have h: "held d' fd = Some (wanted (is_playing n))" using c(2) by simp
  have "has_any_inhibit d'" if "is_playing n"
    using held_inhibits [OF h] that by (simp add: wanted_def)
  then show ?thesis
    using h by (auto simp: not_may_dim may_dim_def on_line_idle_sleep on_idle_sleep_def)
qed

end
