(* ===== verification/Idle_Cycle.thy ===== *)
theory Idle_Cycle
  imports Network
begin

text \<open>
  A whole idle period, from the timer of the agent's idle monitor to the backlight and the
  suspend command of the daemon and back, over the bytes between the two.
\<close>

section \<open>One message\<close>

text \<open>A message alone on its way, cut into any reads, is handled and leaves the buffer empty.\<close>

lemma wake_message:
  assumes "map_of (m_conns (srv d)) fd = Some c" "buf c = []" "\<not> is_listen_fd (srv d) fd"
    and "quiet rs" "payload rs = enc m @ ''\<newline>''"
  shows "handle_ready (wake fd rs) d = on_line fd (enc m) d"
proof -
  have s: "split_lines (buf c @ payload rs) = ([enc m], [])"
    using split_lines_messages [of "[enc m]" "[]"] assms(2,5) by simp
  have "fd \<noteq> m_listen_fd (srv d)" using assms(3) by (simp add: is_listen_fd_def)
  from handle_wake [OF assms(1) this assms(4) s] show ?thesis
    using put_buf_same [OF assms(1)] assms(2)
    by (auto split: prod.splits option.splits)
qed

lemma wake_srv: "on_line fd (enc m) d = (e, d') \<Longrightarrow> srv d' = srv d"
  using enc_decodes [of m] line_srv by blast

lemma idle_poll_says:
  assumes "healthy a" "idle a = Some (Input m)" "i_handle r m = ([ev], m')"
  shows "writes [idle_msg ev] a (idle_poll [From_input r] a) \<and>
    idle (idle_poll [From_input r] a) = Some (Input m') \<and> healthy (idle_poll [From_input r] a)"
proof -
  have a': "idle_poll [From_input r] a = send_lines (map enc [idle_msg ev]) (a\<lparr>idle := Some (Input m')\<rparr>)"
    using assms(2,3) lines_are_messages(2) [of "[ev]"] by (simp add: idle_poll_def)
  have w: "writes [idle_msg ev] a (idle_poll [From_input r] a)"
    using writes_send_lines [of "a\<lparr>idle := Some (Input m')\<rparr>" "[idle_msg ev]"] assms(1) by (simp add: a')
  then show ?thesis using writes_healthy [OF assms(1) w] by (simp add: a')
qed

lemma idle_poll_event:
  assumes "healthy a" "idle a = Some (Input m)" "i_handle r m = ([ev], m')"
    and "a' = idle_poll [From_input r] a"
    and "wire (Agent.world a') = wire (Agent.world a) @ [(daemon_fd a, p)]"
  shows "p = enc (idle_msg ev) @ ''\<newline>'' \<and> idle a' = Some (Input m') \<and> healthy a' \<and> daemon_fd a' = daemon_fd a"
  using idle_poll_says [OF assms(1-3)] assms(4,5) by (auto simp: writes_def)

section \<open>The daemon's side\<close>

lemma idle_dim_line:
  assumes "backlight (Daemon.world d) base m c" "may_dim fd d" "d_active_profile d = Some p"
    and "0 \<le> sint (dim_brightness_percent p)" "sint (dim_brightness_percent p) \<le> 100"
    and "on_line fd encode_idle_dim d = (e, d')"
  shows "e = None \<and> dimmed d' \<and> same_policy d d' \<and> cmds (Daemon.world d') = cmds (Daemon.world d) \<and>
    pm d' = (pm d)\<lparr>m_user_brightness := word_of_int (c * 100 div m)\<rparr> \<and>
    backlight (Daemon.world d') base m (m * sint (dim_brightness_percent p) div 100)"
proof -
  have act: "is_active_agent fd d" "\<not> has_any_inhibit d" "\<not> dimmed d" using assms(2) by (auto simp: may_dim_def)
  note reg = active_agent_registered [OF act(1)]
  obtain x q w where dm: "dim p (pm d) (Daemon.world d) = (x, q, w)" by (metis prod_cases3)
  note b = dim_backlight [OF assms(1,4,5) dm]
  show ?thesis
    using assms(6) reg act assms(3) dm b same_env_dim [OF dm]
    by (auto simp: on_line_idle_dim on_idle_dim_def same_policy_def same_env_def)
qed

lemma suspend_backlight:
  "backlight (Daemon.world (do_suspend a d)) base m c = backlight (Daemon.world d) base m c"
  by (rule backlight_files)
    (simp_all add: do_suspend_def send_lock_to_active_agent_def send_def Let_def split_beta frame
      split: option.splits)

lemma suspend_fields [simp]:
  "pm (do_suspend a d) = pm d" "dimmed (do_suspend a d) = dimmed d" "cm (do_suspend a d) = cm d"
  "sess (do_suspend a d) = sess d" "agents (do_suspend a d) = agents d"
  by (simp_all add: do_suspend_def send_lock_to_active_agent_def Let_def split_beta split: option.splits)

lemma active_line:
  assumes "backlight (Daemon.world d) base m c'" "dimmed d" "is_active_agent fd d" "d_active_profile d = Some p"
    and "pm d = q\<lparr>m_user_brightness := word_of_int u\<rparr>" "0 \<le> u" "u \<le> 100"
    and "on_line fd encode_active d = (e, d')"
  shows "e = None \<and> \<not> dimmed d' \<and> backlight (Daemon.world d') base m (m * u div 100) \<and>
    cmds (Daemon.world d') = cmds (Daemon.world d)"
proof -
  note reg = active_agent_registered [OF assms(3)]
  obtain x r w where um: "undim p (pm d) (Daemon.world d) = (x, r, w)" by (metis prod_cases3)
  note b = undim_backlight [OF assms(1,6,7) um [unfolded assms(5)]]
  show ?thesis
    using assms(2-4,8) reg um b same_env_undim [OF um]
    by (auto simp: on_line_active on_active_def same_env_def)
qed

section \<open>The idle period\<close>

text \<open>
  C6: an idle period end to end.  The agent's timer is handled \<open>x\<close> and \<open>y\<close>
  milliseconds after the last input and then an input follows; what the agent writes each
  time reaches the daemon in any pieces.  The screen goes to the profile's dim level, the
  machine is suspended, once, and with the input the brightness comes back to within one per
  cent (and one step); the agent is armed as before.
\<close>

theorem idle_period:
  assumes agent: "healthy a" "idle a = Some (Input i)" "i_idle_since t i"
      "sint (i_dim_ms i) \<le> int x" "int x < sint (i_sleep_ms i)" "sint (i_sleep_ms i) \<le> int y" "y < 2 ^ 31"
    and polls: "a1 = idle_poll [From_input (Timer_ready (t + of_nat x))] a"
      "a2 = idle_poll [From_input (Timer_ready (t + of_nat y))] a1"
      "a3 = idle_poll [From_input (Device_ready t')] a2"
    and bytes: "wire (Agent.world a1) = wire (Agent.world a) @ [(daemon_fd a, payload rs1)]"
      "wire (Agent.world a2) = wire (Agent.world a1) @ [(daemon_fd a, payload rs2)]"
      "wire (Agent.world a3) = wire (Agent.world a2) @ [(daemon_fd a, payload rs3)]"
      "quiet rs1" "quiet rs2" "quiet rs3"
    and daemon: "map_of (m_conns (srv d)) fd = Some c" "buf c = []" "\<not> is_listen_fd (srv d) fd"
      "may_dim fd d" "d_active_profile d = Some p" "0 < sint (sleep_timeout p)"
      "0 \<le> sint (dim_brightness_percent p)" "sint (dim_brightness_percent p) \<le> 100"
      "backlight (Daemon.world d) base m b"
    and turns: "handle_ready (wake fd rs1) d = (e1, d1)" "handle_ready (wake fd rs2) d1 = (e2, d2)"
      "handle_ready (wake fd rs3) d2 = (e3, d3)"
  shows "e1 = None \<and> e2 = None \<and> e3 = None \<and>
    dimmed d1 \<and> backlight (Daemon.world d1) base m (m * sint (dim_brightness_percent p) div 100) \<and>
    cmds (Daemon.world d1) = cmds (Daemon.world d) \<and>
    cmds (Daemon.world d2) = cmds (Daemon.world d) @ [''systemctl suspend''] \<and>
    \<not> dimmed d3 \<and> backlight (Daemon.world d3) base m (restored m b) \<and>
    b - m div 100 - 1 \<le> restored m b \<and> restored m b \<le> b \<and>
    cmds (Daemon.world d3) = cmds (Daemon.world d2) \<and>
    (\<exists>i'. idle a3 = Some (Input i') \<and> i_idle_since t' i' \<and> i_timer i' = Some (timer_value (i_dim_ms i)))"
proof -
  obtain o1 i1 where h1: "i_handle (Timer_ready (t + of_nat x)) i = (o1, i1)" by fastforce
  obtain o2 i2 where h2: "i_handle (Timer_ready (t + of_nat y)) i1 = (o2, i2)" by fastforce
  obtain o3 i3 where h3: "i_handle (Device_ready t') i2 = (o3, i3)" by fastforce
  note run = idle_cycle_run [OF agent(3-7) h1 h2 h3]
  have h: "i_handle (Timer_ready (t + of_nat x)) i = ([On_dim], i1)"
    "i_handle (Timer_ready (t + of_nat y)) i1 = ([On_sleep], i2)"
    "i_handle (Device_ready t') i2 = ([On_active], i3)" using h1 h2 h3 run by simp_all
  note A1 = idle_poll_event [OF agent(1,2) h(1) polls(1) bytes(1)]
  then have "wire (Agent.world a2) = wire (Agent.world a1) @ [(daemon_fd a1, payload rs2)]" using bytes(2) by simp
  note A2 = idle_poll_event [OF _ _ h(2) polls(2) this]
  have A2: "payload rs2 = enc Idle_sleep @ ''\<newline>''" "idle a2 = Some (Input i2)" "healthy a2" "daemon_fd a2 = daemon_fd a"
    using A1 A2 by auto
  then have "wire (Agent.world a3) = wire (Agent.world a2) @ [(daemon_fd a2, payload rs3)]" using bytes(3) by simp
  note A3 = idle_poll_event [OF A2(3,2) h(3) polls(3) this]
  have l1: "on_line fd encode_idle_dim d = (e1, d1)"
    using wake_message [OF daemon(1-3) bytes(4), of Idle_dim] A1 turns(1) by simp
  note D1 = idle_dim_line [OF daemon(9,4,5,7,8) l1]
  have s1: "srv d1 = srv d" using wake_srv [of fd Idle_dim d] l1 by simp
  have l2: "on_line fd encode_idle_sleep d1 = (e2, d2)"
    using wake_message [of d1 fd c rs2 Idle_sleep] daemon(1-3) bytes(5) A2(1) turns(2) s1 by simp
  note g1 = same_policy_gates [of d d1]
  have act: "is_active_agent fd d1" "\<not> has_any_inhibit d1" "d_active_profile d1 = Some p"
    using g1 D1 daemon(4,5) by (auto simp: may_dim_def)
  have D2: "e2 = None" "d2 = do_suspend ''suspend'' d1"
    using l2 act daemon(6) active_agent_registered [OF act(1)]
    by (auto simp: on_line_idle_sleep on_idle_sleep_def)
  have s2: "srv d2 = srv d" using wake_srv [of fd Idle_sleep d1] l2 s1 by simp
  have l3: "on_line fd encode_active d2 = (e3, d3)"
    using wake_message [of d2 fd c rs3 Is_active] daemon(1-3) bytes(6) A3 turns(3) s2 by simp
  have b2: "backlight (Daemon.world d2) base m (m * sint (dim_brightness_percent p) div 100)"
    using D1 by (simp add: D2 suspend_backlight)
  have act2: "dimmed d2" "is_active_agent fd d2" "d_active_profile d2 = Some p"
      "pm d2 = (pm d)\<lparr>m_user_brightness := word_of_int (b * 100 div m)\<rparr>"
    using D1 act by (auto simp: D2 is_active_agent_def d_active_profile_def cong: option.case_cong)
  note D3 = active_line [OF b2 act2 get_brightness_backlight(2,3) [OF daemon(9)] l3]
  have "0 < m" "0 \<le> b" using daemon(9) by (simp_all add: backlight_def)
  note r = restored_le [OF this] restored_ge [OF this]
  show ?thesis
    using D1 D2 D3 r run A3 suspend_cmds [of "''suspend''" d1]
    by (simp add: restored_def run_suspend frame)
qed

end
