(* ===== verification/Two_Way.thy ===== *)
theory Two_Way
  imports Network
begin

text \<open>
  Both directions of the connection between the daemon and an agent.  What the daemon writes
  to the agent travels in order as well, and the agent's turns read some of it, in any pieces.
  The steps are those of \<open>Network\<close> with the bytes on their way to the agent kept; so its
  invariant holds, and the second invariant relates the active profile's timeouts to what the
  agent's idle monitor asks for, through the bytes still on their way.
\<close>

section \<open>What the daemon tells a client\<close>

text \<open>The timeouts in force, in seconds, and in milliseconds as a monitor takes them.\<close>

definition timeouts :: "daemon \<Rightarrow> i32 \<times> i32" where
  "timeouts d = (case d_active_profile d of Some q \<Rightarrow> (dim_timeout q, sleep_timeout q) | None \<Rightarrow> (0, 0))"

fun msec :: "i32 \<times> i32 \<Rightarrow> i32 \<times> i32" where
  "msec (a, b) = (a * 1000, b * 1000)"

definition config_line :: "daemon \<Rightarrow> string" where
  "config_line d = encode_config (fst (timeouts d)) (snd (timeouts d))"

text \<open>What a client has heard after a line.\<close>

definition hear :: "string \<Rightarrow> (i32 \<times> i32) option \<Rightarrow> (i32 \<times> i32) option" where
  "hear l st = (case config_of l of None \<Rightarrow> st | Some c \<Rightarrow> Some (msec c))"

definition registered :: "int \<Rightarrow> daemon \<Rightarrow> bool" where
  "registered fd d \<longleftrightarrow> map_of (agents d) fd \<noteq> None"

text \<open>
  The client takes all that is written to it, applying a profile does not throw, and the
  configuration file is not below \<open>/sys\<close>.
\<close>

definition steady :: "int \<Rightarrow> daemon \<Rightarrow> bool" where
  "steady fd d \<longleftrightarrow> wscript (Daemon.world d) fd = [] \<and> max_ok (Daemon.world d) \<and> \<not> sysfs (m_path (cm d))"

definition to_client :: "int \<Rightarrow> (int \<times> string) list \<Rightarrow> string list" where
  "to_client fd xs = map snd (filter (\<lambda>(g, _). g = fd) xs)"

text \<open>The complete lines written to the client between two states.\<close>

definition written :: "int \<Rightarrow> string list \<Rightarrow> daemon \<Rightarrow> daemon \<Rightarrow> bool" where
  "written fd ls d d' \<longleftrightarrow> (\<forall>l \<in> set ls. CHR ''\<newline>'' \<notin> set l) \<and>
     (\<exists>xs. wire (Daemon.world d') = wire (Daemon.world d) @ xs \<and> to_client fd xs = map (\<lambda>l. l @ ''\<newline>'') ls)"

definition tells_config :: "int \<Rightarrow> daemon \<Rightarrow> daemon \<Rightarrow> bool" where
  "tells_config fd d d' \<longleftrightarrow> (steady fd d \<longrightarrow> steady fd d' \<and>
     (\<exists>ls. written fd ls d d' \<and> (\<forall>st. (registered fd d \<longrightarrow> st = Some (msec (timeouts d))) \<longrightarrow>
        registered fd d' \<longrightarrow> fold hear ls st = Some (msec (timeouts d')))))"

lemma written_Nil: "wire (Daemon.world d') = wire (Daemon.world d) \<Longrightarrow> written fd [] d d'"
  by (simp add: written_def to_client_def)

lemma written_append: "written fd ls d d1 \<Longrightarrow> written fd ls' d1 d2 \<Longrightarrow> written fd (ls @ ls') d d2"
  by (force simp: written_def to_client_def)

lemma written_one:
  "wscript (Daemon.world d) fd = [] \<Longrightarrow> CHR ''\<newline>'' \<notin> set l \<Longrightarrow>
    written fd (if g = fd then [l] else []) d (send g l d)"
  by (auto simp: written_def to_client_def send_def send_line_healthy)
    (auto simp: send_line_def split: prod.splits)

lemma steady_send: "steady fd d \<Longrightarrow> steady fd (send g l d)"
  using max_ok_keep [of "snd (send_line g l (Daemon.world d))" "Daemon.world d"]
  by (simp add: steady_def send_def send_line_heals frame)

lemma timeouts_send [simp]: "timeouts (send g l d) = timeouts d" "registered fd (send g l d) = registered fd d"
  by (simp_all add: timeouts_def d_active_profile_def registered_def)

lemma send_config_line: "send_config fd d = send fd (config_line d) d"
  by (simp add: send_config_def config_line_def timeouts_def Let_def split: option.splits)

lemma config_line_facts [simp]:
  "CHR ''\<newline>'' \<notin> set (config_line d)" "hear (config_line d) st = Some (msec (timeouts d))"
  by (simp_all add: config_line_def framing hear_def)

lemma tells_trans:
  assumes "tells_config fd d1 d2" "tells_config fd d2 d3"
  shows "tells_config fd d1 d3"
  unfolding tells_config_def
proof (rule impI)
  assume "steady fd d1"
  then obtain ls where 1: "steady fd d2" "written fd ls d1 d2"
    "\<And>st. (registered fd d1 \<longrightarrow> st = Some (msec (timeouts d1))) \<Longrightarrow> registered fd d2 \<Longrightarrow>
      fold hear ls st = Some (msec (timeouts d2))"
    using assms(1) unfolding tells_config_def by blast
  then obtain ls' where 2: "steady fd d3" "written fd ls' d2 d3"
    "\<And>st. (registered fd d2 \<longrightarrow> st = Some (msec (timeouts d2))) \<Longrightarrow> registered fd d3 \<Longrightarrow>
      fold hear ls' st = Some (msec (timeouts d3))"
    using assms(2) unfolding tells_config_def by blast
  have "\<forall>st. (registered fd d1 \<longrightarrow> st = Some (msec (timeouts d1))) \<longrightarrow> registered fd d3 \<longrightarrow>
      fold hear (ls @ ls') st = Some (msec (timeouts d3))"
    using 1(3) 2(3) by simp
  then show "steady fd d3 \<and> (\<exists>ls. written fd ls d1 d3 \<and>
      (\<forall>st. (registered fd d1 \<longrightarrow> st = Some (msec (timeouts d1))) \<longrightarrow> registered fd d3 \<longrightarrow>
        fold hear ls st = Some (msec (timeouts d3))))"
    using 2(1) written_append [OF 1(2) 2(2)] by blast
qed

text \<open>What says nothing to the client and leaves the configuration alone.\<close>

lemma tells_nothing:
  assumes "wire (Daemon.world d') = wire (Daemon.world d)" "wscript (Daemon.world d') = wscript (Daemon.world d)"
    and "max_ok (Daemon.world d') = max_ok (Daemon.world d)" "cm d' = cm d"
    and "registered fd d' \<Longrightarrow> registered fd d"
  shows "tells_config fd d d'"
proof -
  have "timeouts d' = timeouts d" using assms(4) by (simp add: timeouts_def d_active_profile_def)
  then show ?thesis
    using assms written_Nil [OF assms(1)] by (auto simp: tells_config_def steady_def intro!: exI [of _ "[]"])
qed

lemma broadcast_tells:
  assumes "steady fd d"
  shows "steady fd (broadcast_config d) \<and>
    (\<exists>n. written fd (replicate n (config_line d)) d (broadcast_config d) \<and> (registered fd d \<longrightarrow> 0 < n))"
proof -
  have "steady fd (fold send_config fds x) \<and>
      (\<exists>n. written fd (replicate n (config_line d)) x (fold send_config fds x) \<and> (fd \<in> set fds \<longrightarrow> 0 < n))"
    if "steady fd x" "config_line x = config_line d" for fds x
    using that
  proof (induction fds arbitrary: x)
    case Nil
    then show ?case using written_Nil [of x x fd] by (auto intro!: exI [of _ 0])
  next
    case (Cons g fds)
    let ?y = "send g (config_line x) x"
    have y: "steady fd ?y" "config_line ?y = config_line d"
      using Cons.prems by (simp_all add: steady_send config_line_def)
    from Cons.IH [OF this] obtain n where n: "steady fd (fold send_config fds ?y)"
      "written fd (replicate n (config_line d)) ?y (fold send_config fds ?y)" "fd \<in> set fds \<longrightarrow> 0 < n"
      by auto
    have "written fd (if g = fd then [config_line d] else []) x ?y"
      using written_one [of x fd "config_line d" g] Cons.prems by (simp add: steady_def)
    from written_append [OF this n(2)] have
      "written fd (replicate (if g = fd then Suc n else n) (config_line d)) x (fold send_config fds ?y)"
      by (simp split: if_splits)
    moreover have "fold send_config (g # fds) x = fold send_config fds ?y"
      by (simp add: send_config_line [of g x])
    moreover have "fd \<in> set (g # fds) \<longrightarrow> 0 < (if g = fd then Suc n else n)" using n(3) by auto
    ultimately show ?case using n(1) by metis
  qed
  from this [OF assms HOL.refl, of "map fst (agents d)"] show ?thesis
    by (auto simp: broadcast_config_def registered_def map_of_eq_None_iff)
qed

lemma change_tells:
  assumes "on_change d = (e, d')" "steady fd d"
  shows "steady fd d' \<and> cm d' = cm d \<and> agents d' = agents d \<and>
    (\<exists>n. written fd (replicate n (config_line d)) d d' \<and> (registered fd d \<longrightarrow> 0 < n))"
proof (cases "d_active_profile d")
  case None
  then have "d' = broadcast_config d" using assms(1) by (simp add: on_change_def)
  then show ?thesis using broadcast_tells [OF assms(2)] by simp
next
  case (Some p)
  obtain w where w: "apply_profile p (Daemon.world d) = (None, w)"
    using apply_returns [of "Daemon.world d" p] assms(2)
    by (cases "apply_profile p (Daemon.world d)") (auto simp: steady_def)
  note env = same_env_apply [OF w]
  let ?d = "d\<lparr>Daemon.world := w\<rparr>"
  have d': "d' = broadcast_config ?d" using assms(1) Some w by (simp add: on_change_def)
  have "steady fd ?d"
    using assms(2) same_env_max_ok [OF env] env by (simp add: steady_def same_env_def)
  note b = broadcast_tells [OF this]
  have "config_line ?d = config_line d" "registered fd ?d = registered fd d"
    by (simp_all add: config_line_def timeouts_def d_active_profile_def registered_def)
  moreover have "written fd [] d ?d" using env by (intro written_Nil) (simp add: same_env_def)
  ultimately show ?thesis using b written_append by (fastforce simp: d')
qed

lemma hear_replicate: "0 < n \<Longrightarrow> fold hear (replicate n (config_line d)) st = Some (msec (timeouts d))"
  by (induction n arbitrary: st) (simp_all, metis config_line_facts(2) fold_replicate funpow_0 not_gr_zero)

lemma new_config_tells:
  assumes "on_change d1 = (e, d')" "steady fd d \<Longrightarrow> steady fd d1" "agents d1 = agents d"
    and "wire (Daemon.world d1) = wire (Daemon.world d)"
  shows "tells_config fd d d'"
proof -
  have "steady fd d' \<and> (\<exists>ls. written fd ls d d' \<and> (\<forall>st. registered fd d' \<longrightarrow> fold hear ls st = Some (msec (timeouts d'))))"
    if s: "steady fd d"
  proof -
    from change_tells [OF assms(1) assms(2) [OF s]] obtain n where n: "steady fd d'" "cm d' = cm d1"
      "agents d' = agents d1" "written fd (replicate n (config_line d1)) d1 d'" "registered fd d1 \<longrightarrow> 0 < n"
      by blast
    have t: "timeouts d' = timeouts d1" "registered fd d' = registered fd d1"
      using n(2,3) by (simp_all add: timeouts_def d_active_profile_def registered_def)
    have "written fd (replicate n (config_line d1)) d d'"
      using written_append [OF written_Nil n(4), of d] assms(4) by simp
    moreover have "\<forall>st. registered fd d' \<longrightarrow> fold hear (replicate n (config_line d1)) st = Some (msec (timeouts d'))"
      using hear_replicate n(5) t by simp
    ultimately show ?thesis using n(1) by blast
  qed
  then show ?thesis by (auto simp: tells_config_def)
qed

lemma send_all_written:
  assumes "wscript w fd = []"
  shows "\<exists>xs n. wire (snd (send_all l fds w)) = wire w @ xs \<and> to_client fd xs = replicate n (l @ ''\<newline>'')"
  using assms
proof (induction fds arbitrary: w)
  case Nil
  then show ?case by (auto simp: to_client_def intro!: exI [of _ 0])
next
  case (Cons g fds)
  obtain ok w1 where 1: "send_line g l w = (ok, w1)" by fastforce
  have "wscript w1 fd = []" using send_line_heals [OF Cons.prems, of g l] 1 by simp
  from Cons.IH [OF this] obtain xs n where
    n: "wire (snd (send_all l fds w1)) = wire w1 @ xs" "to_client fd xs = replicate n (l @ ''\<newline>'')"
    by blast
  define out where "out = fst (snd (write_line (wscript w g) l))"
  have out: "wire w1 = wire w @ [(g, out)]" "g = fd \<Longrightarrow> out = l @ ''\<newline>''"
    using 1 Cons.prems by (auto simp: out_def send_line_def write_line_def split: prod.splits)
  have "to_client fd ((g, out) # xs) = replicate (if g = fd then Suc n else n) (l @ ''\<newline>'')"
    using n(2) out(2) by (simp add: to_client_def)
  then show ?case using n(1) out(1) 1 by (auto simp: split_beta intro!: exI [of _ "(g, out) # xs"])
qed

interpretation tell_config: loop_rel UNIV UNIV "tells_config fd" for fd
proof (unfold_locales, goal_cases)
  case (1 d)
  then show ?case by (rule tells_nothing) simp_all
next
  case (2 d1 d2 d3)
  then show ?case by (rule tells_trans)
next
  case (3 msg d g)
  let ?ls = "if g = fd then [msg] else []"
  have "steady fd d \<Longrightarrow> written fd ?ls d (send g msg d)"
    using 3 by (intro written_one) (auto simp: steady_def plain_line_def)
  moreover have "fold hear ?ls st = st" for st using 3 by (simp add: plain_line_def hear_def)
  ultimately show ?case
    using steady_send [of fd d g msg] unfolding tells_config_def timeouts_send by metis
next
  case (4 d w q)
  then show ?case
    using same_env_max_ok [OF 4] by (intro tells_nothing) (simp_all add: same_env_def registered_def)
next
  case (5 d v)
  then show ?case by (rule tells_nothing) (simp_all add: registered_def)
next
  case (6 d act)
  have "max_ok (run_hw_action act (Daemon.world d)) = max_ok (Daemon.world d)"
    by (rule max_ok_keep) (simp_all add: frame)
  then show ?case by (intro tells_nothing) (simp_all add: registered_def frame)
next
  case (7 d m w)
  let ?w = "snd (send_all encode_pre_sleep (agent_fds (srv d)) (Daemon.world d))"
  have w: "wire w = wire ?w" "wscript w = wscript ?w"
    using 7 by (auto simp: broadcast_and_wait_acks_def split_beta)
  have m: "max_ok w = max_ok (Daemon.world d)"
    using broadcast_frame [of encode_pre_sleep "srv d" "Daemon.world d"] 7 by (intro max_ok_keep) simp_all
  have "\<exists>ls. written fd ls d (d\<lparr>Daemon.world := w\<rparr>) \<and> (\<forall>st. fold hear ls st = st)" if "steady fd d"
  proof -
    obtain xs n where n: "wire ?w = wire (Daemon.world d) @ xs"
      "to_client fd xs = replicate n (encode_pre_sleep @ ''\<newline>'')"
      using send_all_written [of "Daemon.world d" fd encode_pre_sleep "agent_fds (srv d)"] \<open>steady fd d\<close>
      unfolding steady_def by blast
    have "hear encode_pre_sleep = id" using plain_lines(3) by (auto simp: plain_line_def hear_def)
    then have "fold hear (replicate n encode_pre_sleep) st = st" for st by (induction n) simp_all
    moreover have "written fd (replicate n encode_pre_sleep) d (d\<lparr>Daemon.world := w\<rparr>)"
      using n w(1) by (auto simp: written_def framing)
    ultimately show ?thesis by blast
  qed
  moreover have "steady fd (d\<lparr>Daemon.world := w\<rparr>)" if "steady fd d"
    using that m w(2) send_all_heals by (simp add: steady_def)
  ultimately show ?case
    by (fastforce simp: tells_config_def registered_def timeouts_def d_active_profile_def)
next
  case (8 g d a s)
  then show ?case by (intro tells_nothing) (auto simp: registered_def map_of_umap_put split: if_splits)
next
  case (9 g d)
  then show ?case by (intro tells_nothing) (simp_all add: registered_def)
next
  case (10 g rs d ok ls sv)
  then show ?case by (intro tells_nothing) (simp_all add: registered_def)
next
  case (11 g d)
  have "max_ok (close_fd g (Daemon.world d)) = max_ok (Daemon.world d)"
    by (rule max_ok_keep) (simp_all add: frame)
  then show ?case by (intro tells_nothing) (simp_all add: registered_def frame)
next
  case (12 g d)
  have "max_ok (close_fd g (Daemon.world d)) = max_ok (Daemon.world d)"
    by (rule max_ok_keep) (simp_all add: frame)
  then show ?case
    by (intro tells_nothing) (auto simp: registered_def frame map_of_umap_erase split: if_splits)
next
  case (13 d e d')
  show ?case
  proof (cases "cm_reload (Daemon.world d) (cm d)")
    case (Inl x)
    then have "d' = d" using 13 by (simp add: reload_config_def)
    then show ?thesis by (intro tells_nothing) simp_all
  next
    case (Inr c)
    moreover have "m_path c = m_path (cm d)" using Inr by (auto simp: cm_reload_def split: sum.splits)
    ultimately show ?thesis
      using 13 by (intro new_config_tells [of "d\<lparr>cm := c\<rparr>" e]) (simp_all add: reload_config_def steady_def)
  qed
next
  case (14 n d ok e d')
  obtain b c w where a: "cm_set_active n (cm d) (Daemon.world d) = (b, c, w)" by (metis prod_cases3)
  show ?case
  proof (cases b)
    case False
    then have "d' = d" using 14 a by (simp add: set_active_def)
    then show ?thesis by (intro tells_nothing) simp_all
  next
    case True
    have c: "m_path c = m_path (cm d)" "w = persist_active c (Daemon.world d)"
      using a True by (auto simp: cm_set_active_def Let_def split: option.splits)
    have "steady fd (d\<lparr>cm := c, Daemon.world := w\<rparr>)" if "steady fd d"
    proof -
      have "files w (b @ ''/max_brightness'') = files (Daemon.world d) (b @ ''/max_brightness'')"
        if "sysfs b" for b
        using sysfs_append [OF that, of "''/max_brightness''"] \<open>steady fd d\<close> c(1)
        unfolding c(2) steady_def by (intro persist_active_other) auto
      then have "max_ok w = max_ok (Daemon.world d)" by (intro max_ok_keep) (simp_all add: c frame)
      then show ?thesis using that c by (simp add: steady_def frame)
    qed
    then show ?thesis
      using 14 a True c(2)
      by (intro new_config_tells [of "d\<lparr>cm := c, Daemon.world := w\<rparr>" e]) (simp_all add: set_active_def frame)
  qed
next
  case (15 g d msg)
  let ?d = "d\<lparr>agents := umap_put g \<lparr>session_id = str msg ''session_id'' [],
    uid = ucast (num msg ''uid'' 0), inhibits = []\<rparr> (agents d)\<rparr>"
  have h: "on_hello g msg d = send g (config_line d) ?d"
    by (simp add: on_hello_def send_config_line config_line_def timeouts_def d_active_profile_def)
  have s: "steady fd (on_hello g msg d) \<and> written fd (if g = fd then [config_line d] else []) d (on_hello g msg d)"
    if "steady fd d"
  proof -
    have "steady fd ?d" using that by (simp add: steady_def)
    then show ?thesis
      using steady_send [of fd ?d g] written_one [of ?d fd "config_line d" g]
        written_append [OF written_Nil, of ?d d fd] by (simp add: h steady_def)
  qed
  have t: "timeouts (on_hello g msg d) = timeouts d"
    by (simp add: h) (simp add: timeouts_def d_active_profile_def)
  have "registered fd (on_hello g msg d) \<Longrightarrow> g \<noteq> fd \<Longrightarrow> registered fd d"
    by (simp add: h) (simp add: registered_def map_of_umap_put)
  then show ?case using s t by (fastforce simp: tells_config_def split: if_splits)
next
  case (16 d st)
  then show ?case by (rule tells_nothing) (simp_all add: registered_def)
qed

section \<open>What the agent does with it\<close>

text \<open>The monitor asks for these timeouts, in milliseconds; one that is not positive is not asked for.\<close>

fun mon_follows :: "i32 \<times> i32 \<Rightarrow> monitor \<Rightarrow> bool" where
  "mon_follows (ds, ss) (Input i) \<longleftrightarrow> i_dim_ms i = ds \<and> i_sleep_ms i = ss"
| "mon_follows (ds, ss) (Wayland w) \<longleftrightarrow> w_ok w \<and> map snd (live (w_requests w) []) =
     (if 0 < sint ds then [ucast ds] else []) @ (if 0 < sint ss then [ucast ss] else [])"

definition hears :: "agent \<Rightarrow> (i32 \<times> i32) option \<Rightarrow> bool" where
  "hears a st \<longleftrightarrow> (case (idle a, st) of (None, None) \<Rightarrow> True | (Some m, Some c) \<Rightarrow> mon_follows c m | _ \<Rightarrow> False)"

text \<open>
  The calls a monitor is set up with succeed: the notifications of the compositor, if there is
  one, and else the descriptors of the epoll set and the timer.
\<close>

definition capable :: "mon_env \<Rightarrow> bool" where
  "capable e \<longleftrightarrow> fst (got e) \<noteq> None \<and> snd (got e) \<noteq> None \<and> 0 \<le> mon_epoll_fd e \<and> 0 \<le> mon_timer_fd e"

lemma create_follows:
  assumes "w_ok w" "fst g \<noteq> None" "snd g \<noteq> None"
  shows "fst (create_notifications g ds ss w)"
    "mon_follows (ds, ss) (Wayland (snd (create_notifications g ds ss w)))"
proof -
  show ok: "fst (create_notifications g ds ss w)"
    using assms(2,3) by (auto simp: create_notifications_def Let_def)
  show "mon_follows (ds, ss) (Wayland (snd (create_notifications g ds ss w)))"
    using create_live [OF assms(1) prod.collapse [symmetric], of g ds ss] ok by simp
qed

lemma set_timeouts_follows:
  assumes "mon_follows c m" "capable e"
  shows "mon_follows (ds, ss) (mon_set_timeouts (got e) ds ss m)"
proof (cases m)
  case (Wayland w)
  moreover have "w_ok w" using assms(1) Wayland by (cases c) simp
  ultimately show ?thesis
    using create_follows(2) [of w "got e"] assms(2) by (simp add: capable_def w_set_timeouts_def)
next
  case (Input i)
  then show ?thesis by (simp add: i_set_timeouts_def)
qed

lemma w_init_creates:
  assumes "w_init x y gs g ds ss new_wayland_idle = (True, wl)"
  shows "\<exists>w0. w_ok w0 \<and> create_notifications g ds ss w0 = (True, wl)"
proof -
  have "w_ok (new_wayland_idle\<lparr>w_display := b, w_registry := b', w_notifier := z, w_seat := u\<rparr>)" for b b' z u
    using new_wayland_ok by (simp add: w_ok_def)
  then show ?thesis using assms by (auto simp: w_init_def Let_def split: if_splits prod.splits) blast
qed

lemma setup_follows:
  assumes "capable e" "idle a = None"
  shows "\<exists>m. setup_idle_monitor e ds ss a = a\<lparr>agent_watched := epoll_ctl_add (agent_epoll_fd a) (mon_fd (display_fd e) m) (agent_watched a),
      idle := Some m\<rparr> \<and> mon_follows (ds, ss) m"
proof -
  obtain wok wl where w: "(if have_wayland e then w_init (wayland_display e) (display_ok e) (globals e) (got e)
      ds ss new_wayland_idle else (False, new_wayland_idle)) = (wok, wl)" by fastforce
  show ?thesis
  proof (cases wok)
    case True
    then have "w_init (wayland_display e) (display_ok e) (globals e) (got e) ds ss new_wayland_idle = (True, wl)"
      using w by (simp split: if_splits)
    from w_init_creates [OF this] obtain w0 where
      "w_ok w0" "create_notifications (got e) ds ss w0 = (True, wl)" by blast
    then have "mon_follows (ds, ss) (Wayland wl)"
      using create_follows(2) [of w0 "got e" ds ss] assms(1) by (simp add: capable_def)
    then show ?thesis using w True
      by (intro exI [of _ "Wayland wl"]) (simp add: setup_idle_monitor_def choose_monitor_def install_monitor_eq assms(2) del: mon_follows.simps)
  next
    case False
    obtain ok i where i: "i_init ds ss (mon_epoll_fd e) (mon_timer_fd e) (devices e) (clock e) new_input_idle = (ok, i)"
      by fastforce
    then have "ok" "mon_follows (ds, ss) (Input i)"
      using assms(1)
      by (auto simp: i_init_def capable_def open_input_devices_def Let_def split: option.splits)
    then show ?thesis using w False i
      by (intro exI [of _ "Input i"]) (simp add: setup_idle_monitor_def choose_monitor_def install_monitor_eq assms(2) del: mon_follows.simps)
  qed
qed

lemma mon_feed_follows: "mon_follows c m \<Longrightarrow> mon_follows c (snd (mon_feed i m))"
proof -
  assume m: "mon_follows c m"
  obtain ds ss where c: "c = (ds, ss)" by fastforce
  have i: "i_dim_ms (snd (i_handle r x)) = i_dim_ms x" "i_sleep_ms (snd (i_handle r x)) = i_sleep_ms x" for r x
    by (cases r; simp add: on_timeout_def Let_def)+
  have w: "snd (on_notification e w) = w" for e w by (cases e) simp_all
  show ?thesis using m i w by (cases i; cases m) (simp_all add: c)
qed

lemma mon_poll_follows: "mon_follows c m \<Longrightarrow> mon_follows c (snd (mon_poll is m))"
  by (induction "is" arbitrary: m) (simp_all add: split_beta mon_feed_follows)

text \<open>Everything else the agent does leaves the monitor's timeouts alone.\<close>

lemma hears_same: "idle a' = idle a \<Longrightarrow> hears a' st = hears a st"
  by (simp add: hears_def)

lemma idle_poll_hears: "hears a st \<Longrightarrow> hears (idle_poll is a) st"
  using mon_poll_follows [of _ _ "is"]
  by (auto simp: hears_def idle_poll_def split_beta split: option.splits)

lemma idle_poll_buf [simp]: "daemon_buf (idle_poll is a) = daemon_buf a" "daemon_fd (idle_poll is a) = daemon_fd a"
  by (simp_all add: idle_poll_def split_beta split: option.splits)

lemma daemon_line_hears:
  assumes "hears a st" "capable e"
  shows "hears (on_daemon_line e l a) (hear l st)"
    "daemon_buf (on_daemon_line e l a) = daemon_buf a" "daemon_fd (on_daemon_line e l a) = daemon_fd a"
proof -
  have other: "on_daemon_line e l a = a \<or> on_daemon_line e l a = run_lock_cmd a \<or>
      on_daemon_line e l a = agent_send encode_ack (run_before_sleep_cmd a)" if "config_of l = None"
    using that by (auto simp: on_daemon_line_def config_of_def Let_def split: sum.splits if_splits)
  have cfg: "on_daemon_line e l a = (case idle a of
      Some m \<Rightarrow> a\<lparr>idle := Some (mon_set_timeouts (got e) (ds * 1000) (ss * 1000) m)\<rparr>
    | None \<Rightarrow> setup_idle_monitor e (ds * 1000) (ss * 1000) a)" if "config_of l = Some (ds, ss)" for ds ss
    using that by (auto simp: on_daemon_line_def config_of_def Let_def split: sum.splits if_splits)
  have "hears (on_daemon_line e l a) (hear l st) \<and> daemon_buf (on_daemon_line e l a) = daemon_buf a \<and>
      daemon_fd (on_daemon_line e l a) = daemon_fd a"
  proof (cases "config_of l")
    case None
    have "idle (on_daemon_line e l a) = idle a \<and> daemon_buf (on_daemon_line e l a) = daemon_buf a \<and>
        daemon_fd (on_daemon_line e l a) = daemon_fd a"
      using other [OF None] by (auto simp: run_lock_cmd_def run_before_sleep_cmd_def)
    then show ?thesis using assms(1) by (simp add: hears_def hear_def None)
  next
    case (Some c)
    obtain ds ss where c: "c = (ds, ss)" by fastforce
    show ?thesis
    proof (cases "idle a")
      case None
      then show ?thesis
        using cfg Some c setup_follows [OF assms(2) None, of "ds * 1000" "ss * 1000"]
        by (auto simp: hears_def hear_def)
    next
      case (Some m)
      then obtain x where "mon_follows x m" using assms(1) by (auto simp: hears_def split: option.splits)
      then show ?thesis
        using cfg \<open>config_of l = Some c\<close> c Some set_timeouts_follows [OF _ assms(2)]
        by (simp add: hears_def hear_def)
    qed
  qed
  then show "hears (on_daemon_line e l a) (hear l st)"
    "daemon_buf (on_daemon_line e l a) = daemon_buf a" "daemon_fd (on_daemon_line e l a) = daemon_fd a"
    by simp_all
qed

lemma hear_empty: "hear [] st = st"
  by (simp add: hear_def config_of_def decode_def parse_def skip_ws_def parse_value.simps split: sum.splits)

lemma daemon_lines_hear:
  assumes "hears a st" "capable e"
  shows "hears (handle_daemon_lines e ls a) (fold hear ls st) \<and>
    daemon_buf (handle_daemon_lines e ls a) = daemon_buf a \<and> daemon_fd (handle_daemon_lines e ls a) = daemon_fd a"
  using assms(1)
proof (induction ls arbitrary: a st)
  case (Cons l ls)
  then show ?case
    using Cons.IH [OF daemon_line_hears(1) [OF Cons.prems assms(2), of l]] daemon_line_hears [OF Cons.prems assms(2), of l]
    by (cases "l = []") (simp_all add: handle_daemon_lines_def hear_empty)
qed (simp add: handle_daemon_lines_def)

text \<open>
  The bytes of the daemon that the ready descriptors of a turn hold, and that they are read
  until the descriptor would block.
\<close>

definition heard :: "int \<Rightarrow> agent_ready list \<Rightarrow> string" where
  "heard fd rs = concat (map (\<lambda>r. payload (butlast (a_reads r))) (filter (\<lambda>r. a_fd r = fd) rs))"

definition until_blocked :: "int \<Rightarrow> agent_ready list \<Rightarrow> bool" where
  "until_blocked fd rs \<longleftrightarrow> (\<forall>r \<in> set rs. a_fd r = fd \<longrightarrow> (\<exists>q. quiet q \<and> a_reads r = q @ [Read_again]))"

text \<open>The agent is in the middle of the lines \<open>ls\<close> with the bytes \<open>p\<close> still to come.\<close>

definition listens :: "agent \<Rightarrow> string \<Rightarrow> string list \<Rightarrow> bool" where
  "listens a p ls \<longleftrightarrow> CHR ''\<newline>'' \<notin> set (daemon_buf a) \<and> (\<forall>l \<in> set ls. CHR ''\<newline>'' \<notin> set l) \<and>
     daemon_buf a @ p = stream_of ls"

lemma agent_handle_hears:
  assumes "agent_handle r a = (False, a')" "until_blocked (daemon_fd a) [r]" "capable (a_env r)"
    and "listens a (heard (daemon_fd a) [r] @ p) ls" "hears a st"
  shows "\<exists>ls1 ls2. ls = ls1 @ ls2 \<and> listens a' p ls2 \<and> hears a' (fold hear ls1 st) \<and> daemon_fd a' = daemon_fd a"
proof (cases "a_fd r = daemon_fd a")
  case True
  then obtain q where q: "quiet q" "a_reads r = q @ [Read_again]"
    using assms(2) by (auto simp: until_blocked_def)
  obtain ls1 b where sp: "split_lines (daemon_buf a @ payload q) = (ls1, b)" by fastforce
  let ?a = "a\<lparr>daemon_buf := b\<rparr>"
  have a': "a' = handle_daemon_lines (a_env r) ls1 ?a"
    using assms(1) True q feed_quiet [OF q(1), of "[]" "daemon_buf a"] sp by (simp add: agent_handle_def)
  have l: "daemon_buf a @ payload q @ p = stream_of ls" "\<forall>l \<in> set ls. CHR ''\<newline>'' \<notin> set l"
    using assms(4) True q by (simp_all add: listens_def heard_def)
  obtain ls2 where ls: "ls = ls1 @ ls2" "b @ p = stream_of ls2"
    using stream_lines [OF l sp] by blast
  have b: "CHR ''\<newline>'' \<notin> set b" using split_lines_rest [of "daemon_buf a @ payload q"] sp by simp
  have "hears ?a st" using assms(5) by (simp add: hears_def)
  from daemon_lines_hear [OF this assms(3), of ls1] show ?thesis
    using ls b l(2) by (auto simp: a' listens_def)
next
  case False
  then have "listens a p ls" using assms(4) by (simp add: heard_def)
  moreover have "hears a' st \<and> daemon_buf a' = daemon_buf a \<and> daemon_fd a' = daemon_fd a"
    using assms(1,5) False idle_poll_hears
    by (auto simp: agent_handle_def split: option.splits if_splits)
  ultimately show ?thesis by (intro exI [of _ "[]"] exI [of _ ls]) (simp add: listens_def)
qed

lemma agent_handle_all_hears:
  assumes "agent_handle_all rs a = (False, a')" "until_blocked (daemon_fd a) rs" "\<forall>r \<in> set rs. capable (a_env r)"
    and "listens a (heard (daemon_fd a) rs @ p) ls" "hears a st"
  shows "\<exists>ls1 ls2. ls = ls1 @ ls2 \<and> listens a' p ls2 \<and> hears a' (fold hear ls1 st)"
  using assms
proof (induction rs arbitrary: a ls st)
  case Nil
  then show ?case by (intro exI [of _ "[]"] exI [of _ ls]) (simp add: heard_def)
next
  case (Cons r rs)
  obtain a1 where r: "agent_handle r a = (False, a1)" "agent_handle_all rs a1 = (False, a')"
    using Cons.prems(1) by (auto split: prod.splits if_splits)
  have h: "heard (daemon_fd a) (r # rs) = heard (daemon_fd a) [r] @ heard (daemon_fd a) rs"
    by (simp add: heard_def)
  have "until_blocked (daemon_fd a) [r]" "capable (a_env r)"
    using Cons.prems(2,3) by (auto simp: until_blocked_def)
  from agent_handle_hears [OF r(1) this, of "heard (daemon_fd a) rs @ p" ls st] obtain ls1 ls2 where
    1: "ls = ls1 @ ls2" "listens a1 (heard (daemon_fd a) rs @ p) ls2" "hears a1 (fold hear ls1 st)"
      "daemon_fd a1 = daemon_fd a"
    using Cons.prems(4,5) h by auto
  from Cons.IH [OF r(2), of ls2 "fold hear ls1 st"] obtain ls3 ls4 where
    "ls2 = ls3 @ ls4" "listens a' p ls4" "hears a' (fold hear ls3 (fold hear ls1 st))"
    using 1 Cons.prems(2,3) by (auto simp: until_blocked_def)
  then show ?case using 1(1) by (intro exI [of _ "ls1 @ ls3"] exI [of _ ls4]) simp
qed

lemma agent_turn_hears:
  assumes "agent_turn ss rs a = (False, a')" "until_blocked (daemon_fd a) rs" "\<forall>r \<in> set rs. capable (a_env r)"
    and "listens a (heard (daemon_fd a) rs @ p) ls" "hears a st"
  shows "\<exists>ls1 ls2. ls = ls1 @ ls2 \<and> listens a' p ls2 \<and> hears a' (fold hear ls1 st)"
proof -
  have "idle (agent_mpris_poll ss a) = idle a" "daemon_buf (agent_mpris_poll ss a) = daemon_buf a"
    "daemon_fd (agent_mpris_poll ss a) = daemon_fd a"
    by (simp_all add: agent_mpris_poll_def split_beta)
  then show ?thesis
    using agent_handle_all_hears [of rs "agent_mpris_poll ss a" a' p ls st] assms
    by (simp add: agent_turn_def listens_def hears_def)
qed

section \<open>The two together\<close>

text \<open>The bytes on their way to the agent.\<close>

record link = net +
  n_down :: string

text \<open>The bytes written to the client between two states of the daemon.\<close>

definition answers :: "int \<Rightarrow> daemon \<Rightarrow> daemon \<Rightarrow> string" where
  "answers fd d d' = concat (to_client fd (drop (length (wire (Daemon.world d))) (wire (Daemon.world d'))))"

inductive link_step :: "int \<Rightarrow> link \<Rightarrow> link \<Rightarrow> bool" for fd where
  agent: "agent_turn ss rs (n_agent n) = (False, a') \<Longrightarrow> until_blocked (daemon_fd (n_agent n)) rs \<Longrightarrow>
    \<forall>r \<in> set rs. capable (a_env r) \<Longrightarrow> n_down n = heard (daemon_fd (n_agent n)) rs @ p \<Longrightarrow>
    link_step fd n (n\<lparr>n_agent := a', n_pipe := n_pipe n @ sent_bytes (n_agent n) a', n_down := p\<rparr>)"
| reads: "quiet rs \<Longrightarrow> n_pipe n = payload rs @ p \<Longrightarrow>
    handle_ready (wake fd rs) (n_daemon n) = (None, d') \<Longrightarrow>
    link_step fd n (n\<lparr>n_daemon := d', n_pipe := p, n_down := n_down n @ answers fd (n_daemon n) d'\<rparr>)"
| serves: "ready_fd r \<noteq> fd \<Longrightarrow> handle_ready r (n_daemon n) = (None, d') \<Longrightarrow>
    link_step fd n (n\<lparr>n_daemon := d', n_down := n_down n @ answers fd (n_daemon n) d'\<rparr>)"
| bus: "link_step fd n (n\<lparr>n_daemon := (n_daemon n)\<lparr>sess := sessions_poll sigs (sess (n_daemon n))\<rparr>\<rparr>)"

definition link_start :: "int \<Rightarrow> link \<Rightarrow> bool" where
  "link_start fd n \<longleftrightarrow> net_start fd (net.truncate n) \<and> steady fd (n_daemon n) \<and>
     \<not> registered fd (n_daemon n) \<and> idle (n_agent n) = None \<and> daemon_buf (n_agent n) = [] \<and> n_down n = []"

inductive link_reach :: "int \<Rightarrow> link \<Rightarrow> bool" for fd where
  start: "link_start fd n \<Longrightarrow> link_reach fd n"
| step: "link_reach fd n \<Longrightarrow> link_step fd n n' \<Longrightarrow> link_reach fd n'"

text \<open>Forgetting the second direction leaves a run of the first.\<close>

lemma link_is_net: "link_step fd n n' \<Longrightarrow> net_step fd (net.truncate n) (net.truncate n')"
proof (induction rule: link_step.induct)
  case (agent ss rs n a' p)
  then show ?case using net_step.agent [of ss rs "net.truncate n" a' fd] by (simp add: net.truncate_def)
next
  case (reads rs n p d')
  then show ?case using net_step.reads [of rs "net.truncate n" p fd d'] by (simp add: net.truncate_def)
next
  case (serves r n d')
  then show ?case using net_step.serves [of r fd "net.truncate n" d'] by (simp add: net.truncate_def)
next
  case (bus n sigs)
  then show ?case using net_step.bus [of fd "net.truncate n" sigs] by (simp add: net.truncate_def)
qed

lemma link_reach_net: "link_reach fd n \<Longrightarrow> net_reach fd (net.truncate n)"
  by (induction rule: link_reach.induct)
    (auto simp: link_start_def intro: net_reach.start net_reach.step link_is_net)

text \<open>The second invariant: the lines on their way end in the active profile's timeouts.\<close>

definition informed :: "int \<Rightarrow> link \<Rightarrow> bool" where
  "informed fd n \<longleftrightarrow> steady fd (n_daemon n) \<and>
     (\<exists>ls st. listens (n_agent n) (n_down n) ls \<and> hears (n_agent n) st \<and>
       (registered fd (n_daemon n) \<longrightarrow> fold hear ls st = Some (msec (timeouts (n_daemon n)))))"

lemma informed_agent:
  assumes "informed fd n" "agent_turn ss rs (n_agent n) = (False, a')" "until_blocked (daemon_fd (n_agent n)) rs"
    and "\<forall>r \<in> set rs. capable (a_env r)" "n_down n = heard (daemon_fd (n_agent n)) rs @ p"
  shows "informed fd (n\<lparr>n_agent := a', n_pipe := x, n_down := p\<rparr>)"
proof -
  obtain ls st where l: "listens (n_agent n) (heard (daemon_fd (n_agent n)) rs @ p) ls" "hears (n_agent n) st"
    "registered fd (n_daemon n) \<longrightarrow> fold hear ls st = Some (msec (timeouts (n_daemon n)))"
    using assms(1,5) by (auto simp: informed_def)
  obtain ls1 ls2 where "ls = ls1 @ ls2" "listens a' p ls2" "hears a' (fold hear ls1 st)"
    using agent_turn_hears [OF assms(2-4) l(1,2)] by blast
  then show ?thesis
    using assms(1) l(3) by (auto simp: informed_def intro!: exI [of _ ls2] exI [of _ "fold hear ls1 st"])
qed

lemma informed_daemon:
  assumes "informed fd n" "tells_config fd (n_daemon n) d'"
  shows "informed fd (n\<lparr>n_daemon := d', n_pipe := x, n_down := n_down n @ answers fd (n_daemon n) d'\<rparr>)"
proof -
  obtain ls st where l: "listens (n_agent n) (n_down n) ls" "hears (n_agent n) st"
    "registered fd (n_daemon n) \<longrightarrow> fold hear ls st = Some (msec (timeouts (n_daemon n)))"
    and s: "steady fd (n_daemon n)"
    using assms(1) by (auto simp: informed_def)
  obtain ls' where w: "steady fd d'" "written fd ls' (n_daemon n) d'"
    "\<And>st. (registered fd (n_daemon n) \<longrightarrow> st = Some (msec (timeouts (n_daemon n)))) \<Longrightarrow> registered fd d' \<Longrightarrow>
      fold hear ls' st = Some (msec (timeouts d'))"
    using assms(2) s unfolding tells_config_def by blast
  have "answers fd (n_daemon n) d' = stream_of ls'"
    using w(2) by (auto simp: answers_def written_def stream_of_eq)
  then have "listens (n_agent n) (n_down n @ answers fd (n_daemon n) d') (ls @ ls')"
    using l(1) w(2) by (auto simp: listens_def written_def stream_append simp flip: append_assoc)
  moreover have "registered fd d' \<longrightarrow> fold hear (ls @ ls') st = Some (msec (timeouts d'))"
    using w(3) [of "fold hear ls st"] l(3) by simp
  ultimately show ?thesis
    using l(2) w(1) unfolding informed_def
    by (intro conjI exI [of _ "ls @ ls'"] exI [of _ st]) simp_all
qed

lemma reach_informed: "link_reach fd n \<Longrightarrow> informed fd n"
proof (induction rule: link_reach.induct)
  case (start n)
  then show ?case
    by (auto simp: link_start_def informed_def listens_def hears_def stream_of_eq
        intro!: exI [of _ "[]"] exI [of _ None])
next
  case (step n n')
  from step(2,3) show ?case
  proof (induction rule: link_step.induct)
    case (agent ss rs n a' p)
    then show ?case by (intro informed_agent)
  next
    case (reads rs n p d')
    then show ?case using tell_config.handle_ready_rel [of "wake fd rs" "n_daemon n" None d' fd]
      by (intro informed_daemon) simp_all
  next
    case (serves r n d')
    then have "tells_config fd (n_daemon n) d'" using tell_config.handle_ready_rel by blast
    from informed_daemon [OF serves(3) this, of "n_pipe n"] show ?case by simp
  next
    case (bus n sigs)
    let ?d = "(n_daemon n)\<lparr>sess := sessions_poll sigs (sess (n_daemon n))\<rparr>"
    have "answers fd (n_daemon n) ?d = []" by (simp add: answers_def to_client_def)
    then show ?case using informed_daemon [OF bus tell_config.bus, of "sessions_poll sigs (sess (n_daemon n))" "n_pipe n"]
      by simp
  qed
qed

definition settled :: "link \<Rightarrow> bool" where
  "settled n \<longleftrightarrow> n_pipe n = [] \<and> n_down n = []"

lemma settled_agree:
  assumes "link_reach fd n" "settled n"
  shows "held (n_daemon n) fd = Some (wanted (m_playing (mpris (n_agent n)) \<noteq> [])) \<and>
    (\<exists>m. idle (n_agent n) = Some m \<and> mon_follows (msec (timeouts (n_daemon n))) m)"
proof -
  obtain c :: connection and ms where c: "CHR ''\<newline>'' \<notin> set (buf c)" "buf c = stream_of (map enc ms)"
    "fold effect ms (held (n_daemon n) fd) = Some (wanted (m_playing (mpris (n_agent n)) \<noteq> []))"
    using reach_in_step [OF link_reach_net [OF assms(1)]] assms(2) unfolding settled_def
    by (auto simp: in_step_def is_playing_def net.truncate_def)
  have "ms = []" using stream_without_newline [of "map enc ms"] c(1,2) by simp
  then have h: "held (n_daemon n) fd = Some (wanted (m_playing (mpris (n_agent n)) \<noteq> []))" using c(3) by simp
  obtain ls st where l: "listens (n_agent n) [] ls" "hears (n_agent n) st"
    "registered fd (n_daemon n) \<longrightarrow> fold hear ls st = Some (msec (timeouts (n_daemon n)))"
    using reach_informed [OF assms(1)] assms(2) unfolding settled_def by (auto simp: informed_def)
  have "ls = []" using l(1) by (intro stream_without_newline) (auto simp: listens_def)
  moreover have "registered fd (n_daemon n)" using h by (auto simp: held_def registered_def)
  ultimately have "st = Some (msec (timeouts (n_daemon n)))" using l(3) by simp
  then show ?thesis using h l(2) by (auto simp: hears_def split: option.splits)
qed

text \<open>How everything on its way is read: the daemon's part, the agent's part, its acknowledgements.\<close>

lemma conn_drained:
  assumes "link_reach fd n" "n_pipe n = []"
  shows "\<exists>c. map_of (m_conns (srv (n_daemon n))) fd = Some c \<and> buf c = [] \<and>
    \<not> is_listen_fd (srv (n_daemon n)) fd \<and> healthy (n_agent n)"
proof -
  have e: "n_daemon (net.truncate n) = n_daemon n" "n_agent (net.truncate n) = n_agent n"
    "n_pipe (net.truncate n) = n_pipe n" by (simp_all add: net.truncate_def)
  from reach_in_step [OF link_reach_net [OF assms(1)], unfolded in_step_def e assms(2) append_Nil2]
  obtain c ms where c: "map_of (m_conns (srv (n_daemon n))) fd = Some c"
    "CHR ''\<newline>'' \<notin> set (buf c)" "buf c = stream_of (map enc ms)"
    and o: "\<not> is_listen_fd (srv (n_daemon n)) fd" "healthy (n_agent n)" by blast
  have "map enc ms = []" by (rule stream_without_newline) (use c(2) in \<open>unfold c(3)\<close>)
  then have "buf c = []" by (simp add: c(3) stream_of_eq)
  then show ?thesis using c(1) o by blast
qed

lemma acks_ignored: "set ms \<subseteq> {Ack} \<Longrightarrow> handle_lines fd (map enc ms) d = (None, d)"
proof (induction ms)
  case (Cons m ms)
  have "on_line fd encode_ack d = (None, d)"
    by (simp add: on_line_def dispatch_def message_types Let_def)
  then show ?case using Cons enc_line(2) [of Ack] by simp
qed simp

lemma agent_reads_all:
  assumes "healthy a"
  shows "\<exists>r ms a'. agent_turn [] [r] a = (False, a') \<and> until_blocked (daemon_fd a) [r] \<and> capable (a_env r) \<and>
    heard (daemon_fd a) [r] = p \<and> set ms \<subseteq> {Ack} \<and> writes ms a a' \<and> mpris a' = mpris a \<and>
    a_fd r = daemon_fd a"
proof -
  define e where "e = \<lparr>have_wayland = False, wayland_display = False, display_ok = False, display_fd = -1, globals = [],
    got = (Some 1, Some 2), mon_epoll_fd = 0, mon_timer_fd = 0, devices = None, clock = 0\<rparr>"
  define r where "r = \<lparr>a_fd = daemon_fd a, a_reads = [Data p] @ [Read_again], a_env = e, a_inputs = []\<rparr>"
  obtain ls b where s: "split_lines (daemon_buf a @ p) = (ls, b)" by fastforce
  have "agent_mpris_poll [] a = a" by (simp add: agent_mpris_poll_def mpris_poll_def send_lines_def)
  then have t: "agent_turn [] [r] a = (False, handle_daemon_lines e ls (a\<lparr>daemon_buf := b\<rparr>))"
    using feed_quiet [of "[Data p]" "[]" "daemon_buf a"] s
    by (simp add: agent_turn_def agent_handle_def r_def)
  obtain ms where "writes ms a (handle_daemon_lines e ls (a\<lparr>daemon_buf := b\<rparr>))" "set ms \<subseteq> {Ack}"
    "mpris (handle_daemon_lines e ls (a\<lparr>daemon_buf := b\<rparr>)) = mpris a"
    using daemon_lines_write [of "a\<lparr>daemon_buf := b\<rparr>" e ls] assms by auto
  moreover have "until_blocked (daemon_fd a) [r]" "heard (daemon_fd a) [r] = p" "capable (a_env r)"
    "a_fd r = daemon_fd a"
    by (auto simp: until_blocked_def heard_def r_def capable_def e_def intro: exI [of _ "[Data p]"])
  ultimately show ?thesis using t by blast
qed

text \<open>
  Reading, and nothing else: the daemon some of the agent's bytes, or the agent, to which its bus
  and its monitor report nothing, some of the daemon's.
\<close>

inductive link_reading :: "int \<Rightarrow> link \<Rightarrow> link \<Rightarrow> bool" for fd where
  daemon_reads: "quiet rs \<Longrightarrow> n_pipe n = payload rs @ p \<Longrightarrow>
    handle_ready (wake fd rs) (n_daemon n) = (None, d') \<Longrightarrow>
    link_reading fd n (n\<lparr>n_daemon := d', n_pipe := p, n_down := n_down n @ answers fd (n_daemon n) d'\<rparr>)"
| agent_reads: "a_fd r = daemon_fd (n_agent n) \<Longrightarrow> agent_turn [] [r] (n_agent n) = (False, a') \<Longrightarrow>
    until_blocked (daemon_fd (n_agent n)) [r] \<Longrightarrow> capable (a_env r) \<Longrightarrow>
    n_down n = heard (daemon_fd (n_agent n)) [r] @ p \<Longrightarrow>
    link_reading fd n (n\<lparr>n_agent := a', n_pipe := n_pipe n @ sent_bytes (n_agent n) a', n_down := p\<rparr>)"

lemma link_reading_is_step: "link_reading fd n n' \<Longrightarrow> link_step fd n n'"
  by (induction rule: link_reading.induct) (auto intro: link_step.reads link_step.agent)

lemma link_settles:
  assumes "link_reach fd n" "handle_ready (wake fd [Data (n_pipe n)]) (n_daemon n) = (None, d')"
  shows "\<exists>n'. (link_reading fd)\<^sup>*\<^sup>* n n' \<and> settled n' \<and> mpris (n_agent n') = mpris (n_agent n) \<and>
    cm (n_daemon n') = cm d'"
proof -
  let ?q = "n_down n @ answers fd (n_daemon n) d'"
  define n1 where "n1 = n\<lparr>n_daemon := d', n_pipe := [], n_down := ?q\<rparr>"
  have s1: "link_reading fd n n1"
    using link_reading.daemon_reads [of "[Data (n_pipe n)]" n "[]" fd d'] assms(2) by (simp add: n1_def)
  have n1: "n_daemon n1 = d'" "n_agent n1 = n_agent n" "n_pipe n1 = []" by (simp_all add: n1_def)
  obtain c where c: "map_of (m_conns (srv d')) fd = Some c" "buf c = []" "\<not> is_listen_fd (srv d') fd"
    "healthy (n_agent n)"
    using conn_drained [OF link_reach.step [OF assms(1) link_reading_is_step [OF s1]] n1(3)] unfolding n1 by blast
  obtain r ms a' where a': "agent_turn [] [r] (n_agent n) = (False, a')" "until_blocked (daemon_fd (n_agent n)) [r]"
    "capable (a_env r)" "heard (daemon_fd (n_agent n)) [r] = ?q" "set ms \<subseteq> {Ack}" "writes ms (n_agent n) a'"
    "mpris a' = mpris (n_agent n)" "a_fd r = daemon_fd (n_agent n)"
    using agent_reads_all [OF c(4), of ?q] by blast
  define n2 where "n2 = n1\<lparr>n_agent := a', n_pipe := stream_of (map enc ms), n_down := []\<rparr>"
  have s2: "link_reading fd n1 n2"
    using link_reading.agent_reads [of r n1 a' "[]" fd] a' writes_sent [OF a'(6)] by (simp add: n1_def n2_def)
  let ?d = "with_srv (put_buf fd c [] (srv d')) d'"
  have "split_lines (buf c @ payload [Data (n_pipe n2)]) = (map enc ms, [])"
    using split_lines_messages [of "map enc ms" "[]"] c(2) by (simp add: n2_def stream_of_eq)
  then have "handle_ready (wake fd [Data (n_pipe n2)]) d' = (None, ?d)"
    using handle_wake [OF c(1)] c(3) acks_ignored [OF a'(5)] by (simp add: is_listen_fd_def)
  moreover have "answers fd d' ?d = []" by (simp add: answers_def to_client_def servers)
  ultimately have s3: "link_reading fd n2 (n2\<lparr>n_daemon := ?d, n_pipe := [], n_down := []\<rparr>)"
    using link_reading.daemon_reads [of "[Data (n_pipe n2)]" n2 "[]" fd ?d] by (simp add: n2_def n1_def)
  have "(link_reading fd)\<^sup>*\<^sup>* n (n2\<lparr>n_daemon := ?d, n_pipe := [], n_down := []\<rparr>)"
    using s1 s2 s3 by (meson converse_rtranclp_into_rtranclp rtranclp.rtrancl_refl)
  moreover have "settled (n2\<lparr>n_daemon := ?d, n_pipe := [], n_down := []\<rparr>)" by (simp add: settled_def n2_def)
  ultimately show ?thesis
    using a'(7) by (intro exI [of _ "n2\<lparr>n_daemon := ?d, n_pipe := [], n_down := []\<rparr>"]) (simp add: n2_def servers)
qed

text \<open>
  C4: an agent that found no player playing when it started and the daemon run side by side from
  the agent's hello on, in any interleaving, with the bytes of both directions cut and delayed at
  will and other clients, profile changes, reloads, buttons and the session bus in between, on a
  machine whose backlight maximum can be read: whenever nothing is on its way, the daemon holds
  the agent's inhibitor if and only if a player is playing, and the agent has an idle monitor
  that asks for exactly the timeouts of the profile now active.  And from every state in which
  the daemon can read what is on its way without an exception there is a run of reads alone, of
  the daemon and of the agent, that ends in such a state.  (An agent that finds a player playing
  when it starts does not announce it: \<open>playing_at_start_unheard\<close>.)
\<close>

theorem both_sides_agree:
  assumes "link_reach fd n"
  shows "(settled n \<longrightarrow> held (n_daemon n) fd = Some (wanted (m_playing (mpris (n_agent n)) \<noteq> [])) \<and>
      (\<exists>m. idle (n_agent n) = Some m \<and> mon_follows (msec (timeouts (n_daemon n))) m)) \<and>
    (\<forall>d'. handle_ready (wake fd [Data (n_pipe n)]) (n_daemon n) = (None, d') \<longrightarrow>
      (\<exists>n'. (link_reading fd)\<^sup>*\<^sup>* n n' \<and> settled n' \<and> mpris (n_agent n') = mpris (n_agent n) \<and>
        cm (n_daemon n') = cm d'))"
  using settled_agree [OF assms] link_settles [OF assms] by blast

end
