(* ===== verification/Sessions.thy ===== *)
theory Sessions
  imports Two_Way
begin

text \<open>
  The daemon with any number of agents, which come and go: each runs its own loop, in any
  order, its bytes to and from the daemon cut and delayed at will, while the daemon also
  serves clients that are not agents, the input devices and the session bus.  Seen from one
  agent this is a run of \<open>Two_Way\<close>, so its guarantees hold for all of them at once, and with
  them one about the whole machine: when it may be suspended.
\<close>

section \<open>The daemon and its agents\<close>

record member =
  b_agent :: agent
  b_up :: string
  b_down :: string

record fleet =
  f_daemon :: daemon
  f_member :: "int \<Rightarrow> member option"

text \<open>What one agent sees, and the bytes of the daemon on their way to each.\<close>

definition link_of :: "daemon \<Rightarrow> member \<Rightarrow> link" where
  "link_of d m = \<lparr>n_daemon = d, n_agent = b_agent m, n_pipe = b_up m, n_down = b_down m\<rparr>"

definition deliver :: "int \<Rightarrow> daemon \<Rightarrow> daemon \<Rightarrow> member \<Rightarrow> member" where
  "deliver fd d d' m = m\<lparr>b_down := b_down m @ answers fd d d'\<rparr>"

definition deliver_all :: "daemon \<Rightarrow> daemon \<Rightarrow> (int \<Rightarrow> member option) \<Rightarrow> int \<Rightarrow> member option" where
  "deliver_all d d' ms = (\<lambda>fd. map_option (deliver fd d d') (ms fd))"

lemma deliver_all_simps [simp]:
  "deliver_all d d' (\<lambda>fd. None) = (\<lambda>fd. None)"
  "deliver_all d d' (ms(fd := None)) = (deliver_all d d' ms)(fd := None)"
  "deliver_all d d' (ms(fd \<mapsto> m)) = (deliver_all d d' ms)(fd \<mapsto> deliver fd d d' m)"
  by (auto simp: deliver_all_def)

text \<open>
  An agent that has connected and said hello, has its callbacks on the session bus and found no
  player playing; what \<open>agent_start\<close> leads to when the bus can be reached and no player plays.
\<close>

definition newcomer :: "agent \<Rightarrow> string \<Rightarrow> bool" where
  "newcomer a p \<longleftrightarrow> healthy a \<and> knows (mpris a) \<and> m_callbacks (mpris a) \<and> m_playing (mpris a) = [] \<and>
     idle a = None \<and> daemon_buf a = [] \<and> (\<exists>s u. p = stream_of [encode_hello s u])"

lemma agent_start_newcomer:
  assumes "attempts a = retries bad @ (afd, True, False) # as" "failing bad" "0 \<le> afd"
    and "wscript (Agent.world a) afd = []" "mpris a = new_mpris" "idle a = None" "daemon_buf a = []"
    and "a' = agent_start True (True, True) ask names bfd efd a" "m_playing (mpris a') = []"
    and "wire (Agent.world a') = wire (Agent.world a) @ [(afd, p)]"
  shows "newcomer a' p"
  using agent_start_ready [OF assms(1-5,8,10)] assms(6,7,9)
  by (auto simp: newcomer_def assms(8) agent_start_fields)

definition knock :: "daemon \<Rightarrow> int \<Rightarrow> ready" where
  "knock d fd = \<lparr>ready_fd = m_listen_fd (srv d), accepted = fd, reads = [], inputs = []\<rparr>"

definition hang_up :: "int \<Rightarrow> rd list \<Rightarrow> ready" where
  "hang_up fd rs = \<lparr>ready_fd = fd, accepted = -1, reads = rs @ [Read_eof], inputs = []\<rparr>"

text \<open>
  The steps: an agent's connection is accepted, under a descriptor that is not in use; an agent
  takes a turn; the daemon reads some of an agent's bytes; an agent is gone, and the daemon
  reads what was left and the end of the stream; the daemon serves a descriptor that is not
  an agent's, whose client does not register; or the bus.
\<close>

inductive fleet_step :: "fleet \<Rightarrow> fleet \<Rightarrow> bool" where
  join: "newcomer a p \<Longrightarrow> 0 \<le> fd \<Longrightarrow> f_member s fd = None \<Longrightarrow> \<not> has_fd (srv (f_daemon s)) fd \<Longrightarrow>
    \<not> is_listen_fd (srv (f_daemon s)) fd \<Longrightarrow> handle_ready (knock (f_daemon s) fd) (f_daemon s) = (None, d') \<Longrightarrow>
    fleet_step s (s\<lparr>f_daemon := d', f_member := (deliver_all (f_daemon s) d' (f_member s))
      (fd \<mapsto> \<lparr>b_agent = a, b_up = p, b_down = []\<rparr>)\<rparr>)"
| agent: "f_member s fd = Some m \<Longrightarrow> agent_turn ss rs (b_agent m) = (False, a') \<Longrightarrow>
    until_blocked (daemon_fd (b_agent m)) rs \<Longrightarrow> \<forall>r \<in> set rs. capable (a_env r) \<Longrightarrow>
    b_down m = heard (daemon_fd (b_agent m)) rs @ p \<Longrightarrow>
    fleet_step s (s\<lparr>f_member := (f_member s)(fd \<mapsto>
      \<lparr>b_agent = a', b_up = b_up m @ sent_bytes (b_agent m) a', b_down = p\<rparr>)\<rparr>)"
| reads: "f_member s fd = Some m \<Longrightarrow> quiet rs \<Longrightarrow> b_up m = payload rs @ p \<Longrightarrow>
    handle_ready (wake fd rs) (f_daemon s) = (None, d') \<Longrightarrow>
    fleet_step s (s\<lparr>f_daemon := d', f_member := (deliver_all (f_daemon s) d' (f_member s))
      (fd \<mapsto> deliver fd (f_daemon s) d' (m\<lparr>b_up := p\<rparr>))\<rparr>)"
| leave: "f_member s fd = Some m \<Longrightarrow> quiet rs \<Longrightarrow> b_up m = payload rs \<Longrightarrow>
    handle_ready (hang_up fd rs) (f_daemon s) = (None, d') \<Longrightarrow>
    fleet_step s (s\<lparr>f_daemon := d', f_member := (deliver_all (f_daemon s) d' (f_member s))(fd := None)\<rparr>)"
| serves: "f_member s (ready_fd r) = None \<Longrightarrow> handle_ready r (f_daemon s) = (None, d') \<Longrightarrow>
    \<not> registered (ready_fd r) d' \<Longrightarrow>
    fleet_step s (s\<lparr>f_daemon := d', f_member := deliver_all (f_daemon s) d' (f_member s)\<rparr>)"
| bus: "fleet_step s (s\<lparr>f_daemon := (f_daemon s)\<lparr>sess := sessions_poll sigs (sess (f_daemon s))\<rparr>\<rparr>)"

text \<open>
  The start: the daemon has just been set up, on a machine whose backlight maximum can be read
  and with clients that take what is written to them.
\<close>

definition fleet_start :: "fleet \<Rightarrow> bool" where
  "fleet_start s \<longleftrightarrow> (\<exists>path w bus_ok get_seat property lfd ifd bfd efd.
     daemon_setup path w bus_ok get_seat property lfd ifd bfd efd = Inr (f_daemon s)) \<and>
     (\<forall>fd. steady fd (f_daemon s)) \<and> (\<forall>fd. f_member s fd = None)"

inductive fleet_reach :: "fleet \<Rightarrow> bool" where
  start: "fleet_start s \<Longrightarrow> fleet_reach s"
| step: "fleet_reach s \<Longrightarrow> fleet_step s s' \<Longrightarrow> fleet_reach s'"

section \<open>Each agent's view\<close>

lemma link_of_sel [simp]:
  "n_daemon (link_of d m) = d" "n_agent (link_of d m) = b_agent m" "n_pipe (link_of d m) = b_up m"
  "n_down (link_of d m) = b_down m"
  by (simp_all add: link_of_def)

lemma view_agent:
  assumes "link_reach fd (link_of d m)" "agent_turn ss rs (b_agent m) = (False, a')"
    and "until_blocked (daemon_fd (b_agent m)) rs" "\<forall>r \<in> set rs. capable (a_env r)"
    and "b_down m = heard (daemon_fd (b_agent m)) rs @ p"
  shows "link_reach fd (link_of d \<lparr>b_agent = a', b_up = b_up m @ sent_bytes (b_agent m) a', b_down = p\<rparr>)"
  using link_reach.step [OF assms(1) link_step.agent, of ss rs a' p] assms(2-) by (simp add: link_of_def)

lemma view_reads:
  assumes "link_reach fd (link_of d m)" "quiet rs" "b_up m = payload rs @ p"
    and "handle_ready (wake fd rs) d = (None, d')"
  shows "link_reach fd (link_of d' (deliver fd d d' (m\<lparr>b_up := p\<rparr>)))"
  using link_reach.step [OF assms(1) link_step.reads, of rs p d'] assms(2-)
  by (simp add: link_of_def deliver_def)

lemma view_serves:
  assumes "link_reach fd (link_of d m)" "ready_fd r \<noteq> fd" "handle_ready r d = (None, d')"
  shows "link_reach fd (link_of d' (deliver fd d d' m))"
  using link_reach.step [OF assms(1) link_step.serves, of r d'] assms(2-)
  by (simp add: link_of_def deliver_def)

lemma view_bus:
  "link_reach fd (link_of d m) \<Longrightarrow> link_reach fd (link_of (d\<lparr>sess := sessions_poll sigs (sess d)\<rparr>) m)"
  using link_reach.step [OF _ link_step.bus, of fd "link_of d m" sigs] by (simp add: link_of_def)

lemma knock_accepts:
  "handle_ready (knock d fd) d = (None, d') \<Longrightarrow> d' = admit fd d"
  by (simp add: handle_ready_def knock_def is_listen_fd_def)

lemma view_join:
  assumes "newcomer a p" "0 \<le> fd" "\<not> has_fd (srv d) fd" "\<not> is_listen_fd (srv d) fd"
    and "handle_ready (knock d fd) d = (None, d')" "steady fd d" "\<not> registered fd d"
  shows "link_reach fd (link_of d' \<lparr>b_agent = a, b_up = p, b_down = []\<rparr>)"
proof -
  note d' = knock_accepts [OF assms(5)]
  have "\<exists>c. map_of (m_conns (srv d')) fd = Some c \<and> buf c = []" "\<not> is_listen_fd (srv d') fd"
    using assms(2-4) by (auto simp: d' accept_client_def map_of_umap_put is_listen_fd_def)
  moreover have "steady fd d'" "\<not> registered fd d'"
    using assms(6,7) by (simp_all add: d' steady_def registered_def)
  ultimately show ?thesis
    using assms(1)
    by (intro link_reach.start) (simp add: link_start_def net_start_def newcomer_def link_of_def net.truncate_def)
qed

section \<open>The invariant\<close>

definition fleet_ok :: "fleet \<Rightarrow> bool" where
  "fleet_ok s \<longleftrightarrow> daemon_ok (f_daemon s) \<and> (\<forall>fd. steady fd (f_daemon s)) \<and>
     (\<forall>fd. registered fd (f_daemon s) \<longrightarrow> f_member s fd \<noteq> None) \<and>
     (\<forall>fd m. f_member s fd = Some m \<longrightarrow> link_reach fd (link_of (f_daemon s) m))"

lemma others_registered:
  assumes "handle_ready r d = (None, d')" "ready_fd r \<noteq> fd"
  shows "registered fd d' = registered fd d"
  using other.handle_ready_rel [OF assms(1), of fd] assms(2) by (simp add: spares_def registered_def)

lemma daemon_side_ok:
  assumes "fleet_ok s" "handle_ready r (f_daemon s) = (None, d')"
  shows "daemon_ok d'" "steady fd d'"
proof -
  show "daemon_ok d'" using inv.handle_ready_rel [OF assms(2)] assms(1) by (simp add: fleet_ok_def)
  have "tells_config fd (f_daemon s) d'" using tell_config.handle_ready_rel [OF assms(2)] by simp
  then show "steady fd d'" using assms(1) by (auto simp: fleet_ok_def tells_config_def)
qed

text \<open>A step of the daemon, by what it leaves in one entry.\<close>

lemma fleet_ok_update:
  assumes "fleet_ok s" "handle_ready r (f_daemon s) = (None, d')"
    and "\<And>fd. f_member s fd \<noteq> None \<Longrightarrow> fd \<noteq> g \<Longrightarrow> ready_fd r \<noteq> fd"
    and "\<And>fd. registered fd d' \<Longrightarrow> fd \<noteq> g \<Longrightarrow> registered fd (f_daemon s)"
    and "case e of Some m \<Rightarrow> link_reach g (link_of d' m) | None \<Rightarrow> \<not> registered g d'"
  shows "fleet_ok (s\<lparr>f_daemon := d', f_member := (deliver_all (f_daemon s) d' (f_member s))(g := e)\<rparr>)"
proof -
  have view: "link_reach fd (link_of d' (deliver fd (f_daemon s) d' m))" if "fd \<noteq> g" "f_member s fd = Some m" for fd m
    using view_serves [OF _ _ assms(2), of fd m] assms(1,3) that by (auto simp: fleet_ok_def)
  show ?thesis
    using daemon_side_ok [OF assms(1,2)] assms(1,4,5) view
    by (auto simp: fleet_ok_def deliver_all_def split: option.splits)
qed

lemma fleet_ok_serves:
  assumes "fleet_ok s" "handle_ready r (f_daemon s) = (None, d')" "ready_fd r = g"
    and "case e of Some m \<Rightarrow> link_reach g (link_of d' m) | None \<Rightarrow> \<not> registered g d'"
  shows "fleet_ok (s\<lparr>f_daemon := d', f_member := (deliver_all (f_daemon s) d' (f_member s))(g := e)\<rparr>)"
  using others_registered [OF assms(2)] assms(3,4) by (intro fleet_ok_update [OF assms(1,2)]) auto

lemma view_not_listening: "link_reach fd (link_of d m) \<Longrightarrow> \<not> is_listen_fd (srv d) fd"
  using reach_in_step [OF link_reach_net, of fd "link_of d m"]
  by (simp add: in_step_def link_of_def net.truncate_def)

lemma hang_up_unregisters:
  assumes "link_reach fd (link_of d m)" "quiet rs" "handle_ready (hang_up fd rs) d = (None, d')"
  shows "\<not> registered fd d'"
proof -
  obtain c where c: "map_of (m_conns (srv d)) fd = Some c" "\<not> is_listen_fd (srv d) fd"
    using reach_in_step [OF link_reach_net [OF assms(1)]]
    by (auto simp: in_step_def link_of_def net.truncate_def)
  have "feed (rs @ [Read_eof]) (buf c) = (False, [], buf c @ payload rs, [])"
    by (rule feed_eof [OF assms(2)])
  then show ?thesis
    using assms(3) c
    by (auto simp: handle_ready_def hang_up_def has_fd_def handle_client_def feed_client_def drop_client_def
        on_disconnect_def registered_def map_of_umap_erase split_beta)
qed

lemma fleet_ok_step: "fleet_step s s' \<Longrightarrow> fleet_ok s \<Longrightarrow> fleet_ok s'"
proof (induction rule: fleet_step.induct)
  case (join a p fd s d')
  have "\<not> registered fd (f_daemon s)" "steady fd (f_daemon s)" using join by (auto simp: fleet_ok_def)
  note view = view_join [OF join(1,2,4-6) this(2,1)]
  have "ready_fd (knock (f_daemon s) fd) \<noteq> g" if mem: "f_member s g \<noteq> None" for g
  proof -
    obtain m where "link_reach g (link_of (f_daemon s) m)" using mem join(7) unfolding fleet_ok_def by blast
    from view_not_listening [OF this] show ?thesis by (auto simp: knock_def is_listen_fd_def)
  qed
  moreover have "registered g d' \<Longrightarrow> registered g (f_daemon s)" for g
    using knock_accepts [OF join(6)] by (simp add: registered_def)
  ultimately show ?case
    using view by (intro fleet_ok_update [OF join(7,6)]) simp_all
next
  case (agent s fd m ss rs a' p)
  then show ?case using view_agent [of fd "f_daemon s" m ss rs a' p] by (auto simp: fleet_ok_def)
next
  case (reads s fd m rs p d')
  then have "link_reach fd (link_of (f_daemon s) m)" by (simp add: fleet_ok_def)
  from view_reads [OF this reads(2-4)] show ?case
    using fleet_ok_serves [OF reads(5,4), of fd "Some (deliver fd (f_daemon s) d' (m\<lparr>b_up := p\<rparr>))"]
    by (simp add: wake_def)
next
  case (leave s fd m rs d')
  then have "link_reach fd (link_of (f_daemon s) m)" by (simp add: fleet_ok_def)
  from hang_up_unregisters [OF this leave(2,4)] show ?case
    using fleet_ok_serves [OF leave(5,4), of fd None] by (simp add: hang_up_def)
next
  case (serves s r d')
  have "(deliver_all (f_daemon s) d' (f_member s))(ready_fd r := None) = deliver_all (f_daemon s) d' (f_member s)"
    using serves(1) by (auto simp: deliver_all_def)
  then show ?case using fleet_ok_serves [OF serves(4,2), of "ready_fd r" None] serves(3) by simp
next
  case (bus s sigs)
  then show ?case using inv.bus [of "f_daemon s"] view_bus by (auto simp: fleet_ok_def steady_def registered_def)
qed

lemma fleet_start_ok: "fleet_start s \<Longrightarrow> fleet_ok s"
proof -
  assume st: "fleet_start s"
  then obtain path w bus_ok get_seat property lfd ifd bfd efd where
    d: "daemon_setup path w bus_ok get_seat property lfd ifd bfd efd = Inr (f_daemon s)"
    by (auto simp: fleet_start_def)
  have "agents d' = []" if "daemon_setup path w bus_ok get_seat property lfd ifd bfd efd = Inr d'" for d'
    using that by (auto simp: daemon_setup_def Let_def split: sum.splits prod.splits option.splits if_splits)
  then have "agents (f_daemon s) = []" using d .
  then show "fleet_ok s"
    using st setup_ok [OF d] by (simp add: fleet_start_def fleet_ok_def registered_def)
qed

lemma fleet_reach_ok: "fleet_reach s \<Longrightarrow> fleet_ok s"
  by (induction rule: fleet_reach.induct) (auto intro: fleet_start_ok fleet_ok_step)

section \<open>The whole machine\<close>

definition playing :: "fleet \<Rightarrow> bool" where
  "playing s \<longleftrightarrow> (\<exists>fd m. f_member s fd = Some m \<and> m_playing (mpris (b_agent m)) \<noteq> [])"

definition quiescent :: "fleet \<Rightarrow> bool" where
  "quiescent s \<longleftrightarrow> (\<forall>fd m. f_member s fd = Some m \<longrightarrow> b_up m = [] \<and> b_down m = [])"

lemma inhibit_held:
  assumes "umap_ok (agents d)"
  shows "has_any_inhibit d \<longleftrightarrow> (\<exists>fd S. held d fd = Some S \<and> S \<noteq> {})"
proof
  assume "has_any_inhibit d"
  then obtain fd a where "(fd, a) \<in> set (agents d)" "inhibits a \<noteq> []" by (auto simp: has_any_inhibit_iff)
  then show "\<exists>fd S. held d fd = Some S \<and> S \<noteq> {}"
    using umap.find_Some_entries [OF assms, of fd a] by (force simp: held_def)
qed (auto dest: held_inhibits)

lemma quiescent_view:
  assumes "fleet_ok s" "quiescent s" "f_member s fd = Some m"
  shows "held (f_daemon s) fd = Some (wanted (m_playing (mpris (b_agent m)) \<noteq> [])) \<and>
    (\<exists>x. idle (b_agent m) = Some x \<and> mon_follows (msec (timeouts (f_daemon s))) x)"
  using settled_agree [of fd "link_of (f_daemon s) m"] assms
  by (auto simp: fleet_ok_def quiescent_def settled_def)

lemma quiescent_inhibit:
  assumes "fleet_ok s" "quiescent s"
  shows "has_any_inhibit (f_daemon s) \<longleftrightarrow> playing s"
proof -
  have "held (f_daemon s) fd \<noteq> None \<Longrightarrow> f_member s fd \<noteq> None" for fd
    using assms(1) by (auto simp: fleet_ok_def held_def registered_def)
  moreover have "umap_ok (agents (f_daemon s))" using assms(1) by (simp add: fleet_ok_def daemon_ok_def)
  ultimately show ?thesis
    using quiescent_view [OF assms] by (fastforce simp: inhibit_held playing_def wanted_def)
qed

text \<open>
  C3: the daemon from its start on, with any number of agents that come,
  run and go, in any interleaving, and clients that do not register, buttons, profile changes and
  the session bus in between.  The agents are those that reached the session bus, found no player
  playing when they started and can set up an idle monitor (\<open>newcomer\<close>, \<open>capable\<close>); one that
  finds a player playing when it starts does not announce it (\<open>playing_at_start_unheard\<close>) and is
  not among them.  Whenever nothing is on its way: a message that an agent's user has been idle
  long enough to sleep suspends the machine if and only if it comes from the active session, no
  player plays in any session of these agents, and the active profile has a sleep timeout; a
  message that the user has been idle long enough to dim changes nothing unless it comes from the
  active session while no player plays; and every agent has an idle monitor with the timeouts of
  the active profile.
\<close>

theorem machine_sleeps_iff_idle:
  assumes "fleet_reach s" "quiescent s"
  shows "cmds (Daemon.world (snd (on_line fd encode_idle_sleep (f_daemon s)))) = cmds (Daemon.world (f_daemon s)) @
      (if is_active_agent fd (f_daemon s) \<and> \<not> playing s \<and> 0 < sint (snd (timeouts (f_daemon s)))
       then [''systemctl suspend''] else []) \<and>
    (\<not> is_active_agent fd (f_daemon s) \<or> playing s \<longrightarrow> on_line fd encode_idle_dim (f_daemon s) = (None, f_daemon s)) \<and>
    (\<forall>g m. f_member s g = Some m \<longrightarrow>
      (\<exists>x. idle (b_agent m) = Some x \<and> mon_follows (msec (timeouts (f_daemon s))) x))"
proof -
  have ok: "fleet_ok s" by (rule fleet_reach_ok [OF assms(1)])
  note inh = quiescent_inhibit [OF ok assms(2)]
  have "may_suspend fd (f_daemon s) \<longleftrightarrow>
      is_active_agent fd (f_daemon s) \<and> \<not> playing s \<and> 0 < sint (snd (timeouts (f_daemon s)))"
    by (auto simp: may_suspend_def inh timeouts_def split: option.splits)
  then show ?thesis
    using suspend_when [of fd "f_daemon s"] not_may_dim [of fd "f_daemon s"] quiescent_view [OF ok assms(2)] inh
    by (auto simp: may_dim_def)
qed

end
