(* ===== verification/Survival.thy ===== *)
theory Survival
  imports Daemon_Props
begin

text \<open>
  Exceptions.  The daemon's handlers can throw only where a sysfs node that should hold a number
  does not; on a machine whose backlight can be read none ever leaves the loop.
\<close>

section \<open>A readable backlight stays readable\<close>

definition calm :: "daemon \<Rightarrow> bool" where
  "calm d \<longleftrightarrow> max_ok (world d) \<and> current_ok (world d) \<and> \<not> sysfs (m_path (cm d))"

lemma calm_keep:
  assumes "dirs (world d') = dirs (world d)" "m_path (cm d') = m_path (cm d)"
    and "\<And>p. sysfs p \<Longrightarrow> files (world d') p = files (world d) p"
  shows "calm d' = calm d"
proof -
  have "max_ok (world d') = max_ok (world d)" by (rule max_ok_keep) (simp_all add: assms)
  moreover have "current_ok (world d') = current_ok (world d)" by (rule current_ok_keep) (simp_all add: assms)
  ultimately show ?thesis using assms(2) by (simp add: calm_def)
qed

lemma calm_same:
  "calm d \<Longrightarrow> dirs (world d') = dirs (world d) \<Longrightarrow> m_path (cm d') = m_path (cm d) \<Longrightarrow>
    (\<And>p. sysfs p \<Longrightarrow> files (world d') p = files (world d) p) \<Longrightarrow> calm d'"
  using calm_keep by blast

interpretation calm: daemon_rel UNIV UNIV "\<lambda>d d'. calm d \<longrightarrow> calm d'"
proof (unfold_locales, goal_cases)
  case (4 d w q)
  then show ?case using same_env_max_ok [OF 4] by (simp add: calm_def same_env_def)
next
  case (15 n d c w)
  then have "m_path c = m_path (cm d)" "w = persist_active c (world d)"
    by (auto simp: cm_set_active_def Let_def split: option.splits)
  moreover have "files (persist_active c (world d)) p = files (world d) p" if "\<not> sysfs (m_path c)" "sysfs p" for p
    using that by (intro persist_active_other) auto
  ultimately have "calm (d\<lparr>cm := c, world := w\<rparr>) = calm d" if "\<not> sysfs (m_path (cm d))"
    using that by (intro calm_keep) (auto simp: frame)
  then show ?case by (cases "sysfs (m_path (cm d))") (simp_all add: calm_def)
next
  case (7 d m w)
  then show ?case
    using broadcast_frame [of encode_pre_sleep "srv d" "world d"] by (subst calm_keep [of _ d]) simp_all
next
  case (14 d c)
  then have "m_path c = m_path (cm d)" by (auto simp: cm_reload_def split: sum.splits)
  then show ?case by (subst calm_keep [of _ d]) simp_all
qed (auto elim!: calm_same simp: send_def frame)

section \<open>No handler throws\<close>

lemma on_change_calm: "calm d \<Longrightarrow> on_change d = (e, d') \<Longrightarrow> e = None"
  using apply_returns [of "world d"] by (auto simp: calm_def on_change_def Let_def split: option.splits prod.splits)

lemma set_active_calm:
  assumes "calm d" "set_active n d = (ok, e, d')"
  shows "e = None"
proof -
  obtain b c w where a: "cm_set_active n (cm d) (world d) = (b, c, w)" by (metis prod_cases3)
  show ?thesis
  proof (cases b)
    case True
    then have "calm (d\<lparr>cm := c, world := w\<rparr>)" using calm.active [of n d c w] a assms(1) by simp
    then show ?thesis using on_change_calm assms(2) a True by (auto simp: set_active_def)
  qed (use assms(2) a in \<open>simp add: set_active_def\<close>)
qed

lemma on_idle_dim_calm: "calm d \<Longrightarrow> on_idle_dim fd d = (e, d') \<Longrightarrow> e = None"
  using dim_returns [of "world d"]
  by (auto simp: calm_def on_idle_dim_def Let_def split: option.splits prod.splits if_splits)

lemma on_active_calm: "calm d \<Longrightarrow> on_active fd d = (e, d') \<Longrightarrow> e = None"
  using undim_returns [of "world d"]
  by (auto simp: calm_def on_active_def Let_def split: option.splits prod.splits if_splits)

lemma on_ctl_calm: "calm d \<Longrightarrow> on_ctl fd msg d = (e, d') \<Longrightarrow> e = None"
  using set_active_calm
  by (auto simp: on_ctl_def Let_def split: option.splits prod.splits if_splits)

lemma on_line_calm: "calm d \<Longrightarrow> on_line fd l d = (e, d') \<Longrightarrow> e = None"
  using on_idle_dim_calm on_active_calm on_ctl_calm
  by (auto simp: on_line_def dispatch_def Let_def split: sum.splits if_splits)

text \<open>The rest passes on what the lines do, in states that stay calm.\<close>

lemma lines_calm: "calm d \<Longrightarrow> handle_lines fd ls d = (e, d') \<Longrightarrow> e = None"
proof (induction fd ls d rule: handle_lines.induct)
  case (2 fd l ls d)
  obtain e1 d1 where 1: "on_line fd l d = (e1, d1)" by fastforce
  then have "e1 = None" "calm d1" using on_line_calm calm.on_line_rel [OF 1] 2(3) by auto
  then show ?case using 2 1 by (auto split: if_splits)
qed simp

lemma client_calm:
  assumes "calm d" "handle_client fd rs d = (e, d')"
  shows "e = None"
proof (cases "feed_client fd rs (srv d)")
  case (Some x)
  then obtain ok ls sv where f: "feed_client fd rs (srv d) = Some (ok, ls, sv)" by (cases x) auto
  then have "calm (d\<lparr>srv := sv\<rparr>)" using calm.fed assms(1) by blast
  from lines_calm [OF this] show ?thesis
    using assms(2) f by (auto simp: handle_client_def split: prod.splits option.splits)
qed (use assms(2) in \<open>simp add: handle_client_def\<close>)

lemma ready_calm: "calm d \<Longrightarrow> handle_ready r d = (e, d') \<Longrightarrow> e = None"
  using client_calm by (auto simp: handle_ready_def split: if_splits)

lemma all_calm: "calm d \<Longrightarrow> handle_all rs d = (e, d') \<Longrightarrow> e = None"
proof (induction rs d rule: handle_all.induct)
  case (2 r rs d)
  obtain e1 d1 where 1: "handle_ready r d = (e1, d1)" by fastforce
  then have "e1 = None" "calm d1" using ready_calm calm.handle_ready_rel [OF 1] 2(2) by auto
  then show ?case using 2 1 by auto
qed simp

lemma loop_calm: "calm d \<Longrightarrow> daemon_loop ts d = (e, d') \<Longrightarrow> e = None"
proof (induction ts d rule: daemon_loop.induct)
  case (2 sigs rs ts d)
  obtain e1 d1 where 1: "turn sigs rs d = (e1, d1)" by fastforce
  then have "calm d1" using calm.turn_rel [OF 1] 2(2) by auto
  moreover have "e1 = None" using 1 all_calm [of "d\<lparr>sess := sessions_poll sigs (sess d)\<rparr>" rs e1 d1] calm.bus 2(2)
    by (auto simp: turn_def)
  ultimately show ?case using 2 1 by auto
qed simp

section \<open>The daemon's run\<close>

lemma setup_calm:
  assumes "cm_new w path = Inr c" "0 \<le> lfd" "max_ok w" "current_ok w" "\<not> sysfs path"
  shows "\<exists>d. daemon_setup path w bus_ok get_seat property lfd ifd bfd efd = Inr d \<and> calm d"
proof -
  have path: "m_path c = path" using assms(1) by (auto simp: cm_new_def cm_reload_def split: sum.splits)
  have applied: "apply_profile p w = (None, snd (apply_profile p w))" for p
    using apply_returns [OF assms(3), of p] by (cases "apply_profile p w") simp
  have "calm (watch_all bfd efd d)" if "world d = w" "cm d = c" for d
    using that assms(3-5) path by (simp add: calm_def)
  moreover have "calm (watch_all bfd efd d)" if "world d = snd (apply_profile p w)" "cm d = c" for d p
    using that assms(3-5) path same_env_apply [OF applied [of p]] same_env_max_ok [OF same_env_apply [OF applied [of p]]]
    by (simp add: calm_def same_env_def)
  moreover have "fst (apply_profile p w) = None" for p using applied [of p] by (metis fst_conv)
  ultimately show ?thesis
    using assms(1,2)
    by (auto simp: daemon_setup_def server_init_def new_server_def Let_def split_beta split: option.split)
qed

text \<open>
  C13: with a configuration that loads, and a backlight, if there is one, whose two files
  hold numbers or nothing, no exception ever ends the daemon: whatever its clients send,
  whatever profiles are chosen and configurations reloaded, whatever bus and devices report and
  whichever writes fail, it runs for all the turns it is given and exits with 0.  It exits with
  1, before the loop, exactly when it has no listening socket.  Stack and memory, which deep
  nesting in a line or a line without an end would use up, have no bound in the model.
\<close>

theorem daemon_survives:
  assumes "cm_new w path = Inr c" "max_ok w" "current_ok w" "\<not> sysfs path"
  shows "if 0 \<le> lfd
    then \<exists>d. daemon_run (daemon_setup path w bus_ok get_seat property lfd ifd bfd efd) ts = (0, Some d)
    else daemon_run (daemon_setup path w bus_ok get_seat property lfd ifd bfd efd) ts = (1, None)"
proof (cases "0 \<le> lfd")
  case True
  then obtain d0 where d0: "daemon_setup path w bus_ok get_seat property lfd ifd bfd efd = Inr d0" "calm d0"
    using setup_calm [OF assms(1) _ assms(2-4)] by blast
  obtain e d where "daemon_loop ts d0 = (e, d)" by fastforce
  moreover from this have "e = None" by (rule loop_calm [OF d0(2)])
  ultimately show ?thesis using True d0(1) by (simp add: daemon_run_def)
next
  case False
  then show ?thesis using assms(1) by (simp add: daemon_run_def daemon_setup_def server_init_def Let_def split_beta)
qed

end
