(* ===== verification/Settling.thy ===== *)
theory Settling
  imports Sessions Survival
begin

text \<open>
  From every state the daemon and its agents can be in, reading what is on its way is enough to
  come to rest: the daemon reads what the agents have written, each agent what the daemon has,
  and the daemon the acknowledgements; none of it starts anything new.
\<close>

section \<open>What reading leaves alone\<close>

definition players :: "fleet \<Rightarrow> int \<Rightarrow> mpris option" where
  "players s fd = map_option (\<lambda>m. mpris (b_agent m)) (f_member s fd)"

definition waiting_up :: "fleet \<Rightarrow> int set" where
  "waiting_up s = {fd. \<exists>m. f_member s fd = Some m \<and> b_up m \<noteq> []}"

definition waiting_down :: "fleet \<Rightarrow> int set" where
  "waiting_down s = {fd. \<exists>m. f_member s fd = Some m \<and> b_down m \<noteq> []}"

lemma players_playing: "players s' = players s \<Longrightarrow> playing s' = playing s"
proof -
  assume p: "players s' = players s"
  have "playing t \<longleftrightarrow> (\<exists>fd x. players t fd = Some x \<and> m_playing x \<noteq> [])" for t
    by (auto simp: playing_def players_def)
  then show ?thesis using p by simp
qed

lemma quiescent_waiting: "quiescent s \<longleftrightarrow> waiting_up s = {} \<and> waiting_down s = {}"
  by (auto simp: quiescent_def waiting_up_def waiting_down_def)

text \<open>
  Reading, and nothing else: the daemon some bytes of an agent, or an agent, to which its bus and
  its monitor report nothing, some bytes of the daemon.
\<close>

inductive fleet_reading :: "fleet \<Rightarrow> fleet \<Rightarrow> bool" where
  daemon_reads: "f_member s fd = Some m \<Longrightarrow> quiet rs \<Longrightarrow> b_up m = payload rs @ p \<Longrightarrow>
    handle_ready (wake fd rs) (f_daemon s) = (None, d') \<Longrightarrow>
    fleet_reading s (s\<lparr>f_daemon := d', f_member := (deliver_all (f_daemon s) d' (f_member s))
      (fd \<mapsto> deliver fd (f_daemon s) d' (m\<lparr>b_up := p\<rparr>))\<rparr>)"
| agent_reads: "f_member s fd = Some m \<Longrightarrow> a_fd r = daemon_fd (b_agent m) \<Longrightarrow>
    agent_turn [] [r] (b_agent m) = (False, a') \<Longrightarrow> until_blocked (daemon_fd (b_agent m)) [r] \<Longrightarrow>
    capable (a_env r) \<Longrightarrow> b_down m = heard (daemon_fd (b_agent m)) [r] @ p \<Longrightarrow>
    fleet_reading s (s\<lparr>f_member := (f_member s)(fd \<mapsto>
      \<lparr>b_agent = a', b_up = b_up m @ sent_bytes (b_agent m) a', b_down = p\<rparr>)\<rparr>)"

lemma reading_is_step: "fleet_reading s s' \<Longrightarrow> fleet_step s s'"
  by (induction rule: fleet_reading.induct) (auto intro: fleet_step.reads fleet_step.agent)

text \<open>The daemon reads all an agent has written.\<close>

lemma daemon_catches_up:
  assumes "fleet_reach s" "calm (f_daemon s)" "fd \<in> waiting_up s"
  shows "\<exists>s'. fleet_reading s s' \<and> calm (f_daemon s') \<and> players s' = players s \<and> waiting_up s' = waiting_up s - {fd}"
proof -
  obtain m where m: "f_member s fd = Some m" using assms(3) by (auto simp: waiting_up_def)
  let ?r = "wake fd [Data (b_up m)]"
  obtain e d' where h: "handle_ready ?r (f_daemon s) = (e, d')" by fastforce
  have e: "e = None" by (rule ready_calm [OF assms(2) h])
  define s' where "s' = s\<lparr>f_daemon := d', f_member := (deliver_all (f_daemon s) d' (f_member s))
      (fd \<mapsto> deliver fd (f_daemon s) d' (m\<lparr>b_up := []\<rparr>))\<rparr>"
  have "fleet_reading s s'"
    unfolding s'_def using h e by (intro daemon_reads [OF m, of "[Data (b_up m)]"]) simp_all
  moreover have "calm (f_daemon s')" using calm.handle_ready_rel [OF h] assms(2) by (simp add: s'_def)
  moreover have "players s' g = players s g" for g
    by (cases "f_member s g") (auto simp: s'_def players_def deliver_all_def deliver_def m)
  then have "players s' = players s" ..
  moreover have "waiting_up s' = waiting_up s - {fd}"
    by (auto simp: s'_def waiting_up_def deliver_all_def deliver_def m split: if_splits)
  ultimately show ?thesis by blast
qed

text \<open>An agent reads all the daemon has written, and the daemon the acknowledgements.\<close>

lemma agent_catches_up:
  assumes "fleet_reach s" "calm (f_daemon s)" "waiting_up s = {}" "fd \<in> waiting_down s"
  shows "\<exists>s'. fleet_reading\<^sup>*\<^sup>* s s' \<and> calm (f_daemon s') \<and> players s' = players s \<and> waiting_up s' = {} \<and>
    waiting_down s' = waiting_down s - {fd}"
proof -
  obtain m where m: "f_member s fd = Some m" using assms(4) by (auto simp: waiting_down_def)
  have up: "b_up m = []" using m assms(3) by (auto simp: waiting_up_def)
  let ?d = "f_daemon s"
  have "link_reach fd (link_of ?d m)" using fleet_reach_ok [OF assms(1)] m by (simp add: fleet_ok_def)
  from conn_drained [OF this] up obtain c where c: "map_of (m_conns (srv ?d)) fd = Some c" "buf c = []"
    "\<not> is_listen_fd (srv ?d) fd" "healthy (b_agent m)" by auto
  obtain r ms a where a: "agent_turn [] [r] (b_agent m) = (False, a)" "until_blocked (daemon_fd (b_agent m)) [r]"
    "capable (a_env r)" "heard (daemon_fd (b_agent m)) [r] = b_down m" "set ms \<subseteq> {Ack}" "writes ms (b_agent m) a"
    "mpris a = mpris (b_agent m)" "a_fd r = daemon_fd (b_agent m)"
    using agent_reads_all [OF c(4), of "b_down m"] by blast
  let ?acks = "stream_of (map enc ms)"
  define s1 where "s1 = s\<lparr>f_member := (f_member s)(fd \<mapsto> \<lparr>b_agent = a, b_up = ?acks, b_down = []\<rparr>)\<rparr>"
  have 1: "fleet_reading s s1"
    using agent_reads [OF m a(8) a(1-3), of "[]"] a(4) up writes_sent [OF a(6)] by (simp add: s1_def)
  let ?d' = "with_srv (put_buf fd c [] (srv ?d)) ?d"
  have "split_lines (buf c @ payload [Data ?acks]) = (map enc ms, [])"
    using split_lines_messages [of "map enc ms" "[]"] c(2) by (simp add: stream_of_eq)
  then have h: "handle_ready (wake fd [Data ?acks]) ?d = (None, ?d')"
    using handle_wake [OF c(1)] c(3) acks_ignored [OF a(5)] by (simp add: is_listen_fd_def)
  define s2 where "s2 = s1\<lparr>f_daemon := ?d', f_member := (deliver_all ?d ?d' (f_member s1))
      (fd \<mapsto> deliver fd ?d ?d' \<lparr>b_agent = a, b_up = [], b_down = []\<rparr>)\<rparr>"
  have 2: "fleet_reading s1 s2"
    using daemon_reads [of s1 fd "\<lparr>b_agent = a, b_up = ?acks, b_down = []\<rparr>" "[Data ?acks]" "[]" ?d'] h
    by (simp add: s1_def s2_def)
  have silent: "answers g ?d ?d' = []" for g by (simp add: answers_def to_client_def servers)
  have "deliver_all ?d ?d' ms = ms" for ms
  proof
    show "deliver_all ?d ?d' ms g = ms g" for g
      by (cases "ms g") (simp_all add: deliver_all_def deliver_def silent)
  qed
  then have s2: "f_member s2 = (f_member s)(fd \<mapsto> \<lparr>b_agent = a, b_up = [], b_down = []\<rparr>)"
    by (simp add: s2_def s1_def deliver_def silent)
  have "calm (f_daemon s2)" using calm.handle_ready_rel [OF h] assms(2) by (simp add: s2_def)
  moreover have "players s2 = players s" using a(7) m by (auto simp: players_def s2)
  moreover have "waiting_up s2 = {}" "waiting_down s2 = waiting_down s - {fd}"
    using assms(3) by (auto simp: waiting_up_def waiting_down_def s2 split: if_splits)
  moreover have "fleet_reading\<^sup>*\<^sup>* s s2" using 1 2 by (meson r_into_rtranclp rtranclp.rtrancl_into_rtrancl)
  ultimately show ?thesis by blast
qed

section \<open>One after the other\<close>

lemma dom_deliver_all [simp]: "dom (deliver_all d d' ms) = dom ms"
  by (auto simp: deliver_all_def)

lemma finite_members: "fleet_reach s \<Longrightarrow> finite (dom (f_member s))"
proof (induction rule: fleet_reach.induct)
  case (start s)
  then show ?case by (simp add: fleet_start_def dom_def)
next
  case (step s s')
  from step(2,3) show ?case by (induction rule: fleet_step.induct) simp_all
qed

lemma reach_steps: "fleet_reading\<^sup>*\<^sup>* s s' \<Longrightarrow> fleet_reach s \<Longrightarrow> fleet_reach s'"
  by (induction rule: rtranclp_induct) (auto intro: fleet_reach.step reading_is_step)

lemma finite_waiting:
  assumes "fleet_reach s"
  shows "finite (waiting_up s)" "finite (waiting_down s)"
  using finite_members [OF assms]
  by (auto simp: waiting_up_def waiting_down_def elim!: rev_finite_subset intro: domI)

text \<open>A set of descriptors that single runs can be taken out of can be emptied by one.\<close>

lemma emptied:
  assumes "finite (W s)" "P s"
    and one: "\<And>s fd. P s \<Longrightarrow> fd \<in> W s \<Longrightarrow> \<exists>s'. R\<^sup>*\<^sup>* s s' \<and> P s' \<and> W s' = W s - {fd}"
  shows "\<exists>s'. R\<^sup>*\<^sup>* s s' \<and> P s' \<and> W s' = {}"
  using assms(1,2)
proof (induction "card (W s)" arbitrary: s rule: less_induct)
  case less
  show ?case
  proof (cases "W s = {}")
    case False
    then obtain fd where "fd \<in> W s" by blast
    from one [OF less.prems(2) this] obtain t where t: "R\<^sup>*\<^sup>* s t" "P t" "W t = W s - {fd}" by blast
    then have "card (W t) < card (W s)" "finite (W t)"
      using less.prems(1) \<open>fd \<in> W s\<close> card_Diff1_less [of "W s" fd] by simp_all
    from less.hyps [OF this t(2)] t(1) show ?thesis by (meson rtranclp_trans)
  qed (use less.prems in blast)
qed

lemma fleet_settles:
  assumes "fleet_reach s" "calm (f_daemon s)"
  shows "\<exists>s'. fleet_reading\<^sup>*\<^sup>* s s' \<and> quiescent s' \<and> players s' = players s"
proof -
  let ?P = "\<lambda>t. fleet_reach t \<and> calm (f_daemon t) \<and> players t = players s"
  have "\<exists>t. fleet_reading\<^sup>*\<^sup>* s t \<and> ?P t \<and> waiting_up t = {}"
  proof (rule emptied [where P = ?P])
    fix t fd assume "?P t" "fd \<in> waiting_up t"
    then show "\<exists>t'. fleet_reading\<^sup>*\<^sup>* t t' \<and> ?P t' \<and> waiting_up t' = waiting_up t - {fd}"
      using daemon_catches_up [of t fd] by (metis fleet_reach.step reading_is_step r_into_rtranclp)
  qed (use assms finite_waiting in auto)
  then obtain t where t: "fleet_reading\<^sup>*\<^sup>* s t" "?P t" "waiting_up t = {}" by blast
  have "\<exists>u. fleet_reading\<^sup>*\<^sup>* t u \<and> (?P u \<and> waiting_up u = {}) \<and> waiting_down u = {}"
  proof (rule emptied [where P = "\<lambda>u. ?P u \<and> waiting_up u = {}"])
    fix u fd assume "?P u \<and> waiting_up u = {}" "fd \<in> waiting_down u"
    then show "\<exists>u'. fleet_reading\<^sup>*\<^sup>* u u' \<and> (?P u' \<and> waiting_up u' = {}) \<and> waiting_down u' = waiting_down u - {fd}"
      using agent_catches_up [of u fd] by (metis reach_steps)
  qed (use t finite_waiting in auto)
  then show ?thesis using t(1) by (metis quiescent_waiting rtranclp_trans)
qed

text \<open>
  C5: the daemon and its agents, each of which found no player playing when it started (one that
  finds a player playing does not announce it, \<open>playing_at_start_unheard\<close>).  From every state
  they can be in while the brightness of the backlight, if there is one, reads as a number there is a
  run of reads alone, by the daemon and by the agents, that ends with nothing on its way and the
  same players playing; and there the daemon holds an inhibitor if and only if a player of one of
  these agents was playing.
\<close>

theorem machine_settles:
  assumes "fleet_reach s" "current_ok (Daemon.world (f_daemon s))"
  shows "\<exists>s'. fleet_reading\<^sup>*\<^sup>* s s' \<and> quiescent s' \<and> players s' = players s \<and>
    (has_any_inhibit (f_daemon s') \<longleftrightarrow> playing s)"
proof -
  have "steady 0 (f_daemon s)" using fleet_reach_ok [OF assms(1)] by (simp add: fleet_ok_def)
  then have "calm (f_daemon s)" using assms(2) by (simp add: steady_def calm_def)
  from fleet_settles [OF assms(1) this] obtain s' where
    s': "fleet_reading\<^sup>*\<^sup>* s s'" "quiescent s'" "players s' = players s" by blast
  have "fleet_ok s'" by (rule fleet_reach_ok [OF reach_steps [OF s'(1) assms(1)]])
  then show ?thesis using s' quiescent_inhibit players_playing by blast
qed

end
