(* ===== verification/Watching.thy ===== *)
theory Watching
  imports Daemon_Props Agent_Steps
begin

text \<open>
  What the daemon and the agent wait for: the daemon's epoll set follows the connections
  exactly, so that no client starves and no closed descriptor stays in it; the agent's holds
  the daemon, the session bus and the idle monitor in use.
\<close>

section \<open>The daemon\<close>

text \<open>
  Every connection is in the set, and apart from connections only descriptors of \<open>B\<close> are.
\<close>

definition watch_ok :: "int set \<Rightarrow> daemon \<Rightarrow> bool" where
  "watch_ok B d \<longleftrightarrow> 0 \<le> epoll_fd d \<and> distinct (watched d) \<and>
     (\<forall>fd. has_fd (srv d) fd \<longrightarrow> fd \<in> set (watched d)) \<and>
     (\<forall>fd \<in> set (watched d). has_fd (srv d) fd \<or> fd \<in> B)"

lemma watched_epoll_add:
  "watched (epoll_add fd d) = epoll_ctl_add (epoll_fd d) fd (watched d)"
  by (simp add: epoll_add_def epoll_ctl_add_def)

lemma watched_closed [simp]:
  "watched (epoll_del fd (drop_client fd d)) = epoll_ctl_del fd (watched d)"
  "watched (drop_client fd (on_disconnect fd d)) = epoll_ctl_del fd (watched d)"
  by (simp_all add: epoll_del_def on_disconnect_def drop_client_def split_beta epoll_ctl_del_def)

lemma watched_admit [simp]: "watched (admit fd d) = epoll_ctl_add (epoll_fd d) fd (watched d)"
  by (simp add: admit_def accept_client_def epoll_add_def epoll_ctl_add_def)

lemma has_fd_admit: "has_fd (snd (accept_client fd sv)) g \<longleftrightarrow> has_fd sv g \<or> g = fd \<and> 0 \<le> fd"
  by (auto simp: accept_client_def has_fd_def map_of_umap_put)

lemma has_fd_close: "has_fd (fst (close_client fd sv w)) g \<longleftrightarrow> has_fd sv g \<and> g \<noteq> fd"
  by (auto simp: close_client_def has_fd_def map_of_umap_erase)

lemma has_fd_feed: "feed_client fd rs sv = Some (ok, ls, sv') \<Longrightarrow> has_fd sv' g = has_fd sv g"
  by (auto simp: feed_client_def has_fd_def map_of_umap_put split_beta split: option.splits if_splits)

text \<open>What happens to the set on the way from one state to another.\<close>

interpretation watch: daemon_rel UNIV UNIV "\<lambda>d d'. watch_ok B d \<longrightarrow> watch_ok B d'" for B
proof (unfold_locales, goal_cases)
  case (9 fd d)
  then show ?case
    by (auto simp: watch_ok_def has_fd_admit)
next
  case (10 fd rs d ok ls sv)
  then show ?case using has_fd_feed by (simp add: watch_ok_def)
next
  case (11 fd d)
  then show ?case by (auto simp: watch_ok_def has_fd_close)
next
  case (12 fd d)
  then show ?case by (auto simp: watch_ok_def has_fd_close)
qed (auto simp: watch_ok_def send_def)

text \<open>A descriptor of the daemon's own stays, as long as no new connection gets its number.\<close>

definition stays :: "int \<Rightarrow> daemon \<Rightarrow> daemon \<Rightarrow> bool" where
  "stays b d d' \<longleftrightarrow> (b \<in> set (watched d) \<and> \<not> has_fd (srv d) b \<longrightarrow> b \<in> set (watched d') \<and> \<not> has_fd (srv d') b)"

interpretation stay: daemon_rel "- {b}" "- {b}" "stays b" for b
proof (unfold_locales, goal_cases)
  case (9 fd d)
  then show ?case by (auto simp: stays_def has_fd_admit epoll_ctl_add_def)
next
  case (10 fd rs d ok ls sv)
  then show ?case using has_fd_feed by (simp add: stays_def)
next
  case (11 fd d)
  then show ?case by (auto simp: stays_def has_fd_close)
next
  case (12 fd d)
  then show ?case by (auto simp: stays_def has_fd_close)
qed (auto simp: stays_def send_def)

lemma ready_stays:
  "handle_ready r d = (e, d') \<Longrightarrow> accepted r \<noteq> b \<Longrightarrow> stays b d d'"
  using stay.handle_ready_rel [of r d e d' b] by (cases "has_fd (srv d) b") (auto simp: stays_def)

lemma all_stay:
  "handle_all rs d = (e, d') \<Longrightarrow> \<forall>r \<in> set rs. accepted r \<noteq> b \<Longrightarrow> stays b d d'"
  by (induction rs d rule: handle_all.induct)
    (auto split: prod.splits option.splits intro: ready_stays stay.trans [OF ready_stays])

lemma loop_stays:
  "daemon_loop ts d = (e, d') \<Longrightarrow> \<forall>(sigs, rs) \<in> set ts. \<forall>r \<in> set rs. accepted r \<noteq> b \<Longrightarrow> stays b d d'"
proof (induction ts d rule: daemon_loop.induct)
  case (2 sigs rs ts d)
  obtain e1 d1 where t: "turn sigs rs d = (e1, d1)" by fastforce
  have "stays b d d1"
    using t 2(3) stay.trans [OF stay.bus all_stay] by (simp add: turn_def)
  then show ?case using 2 t by (auto split: option.splits intro: stay.trans)
qed simp

text \<open>
  C8: at every point of a run, after any turns and also when one ends
  in an exception, the daemon waits for exactly the descriptors of its open connections and its
  own three (the listening socket, the bus, the input monitor, as far as they could be opened),
  each once, as long as \<open>accept4\<close> does not return one of its own.
\<close>

theorem waits_for_open_descriptors:
  assumes "daemon_setup path w bus_ok get_seat property lfd ifd bfd efd = Inr d0" "0 \<le> efd"
    and "own = {lfd, bus_fd bfd (sess d0), ifd}"
    and "daemon_loop ts d0 = (e, d)" "\<forall>(sigs, rs) \<in> set ts. \<forall>r \<in> set rs. accepted r \<notin> own"
  shows "distinct (watched d) \<and> set (watched d) = {fd. has_fd (srv d) fd} \<union> {fd \<in> own. 0 \<le> fd}"
proof -
  obtain d1 where d0: "d0 = watch_all bfd efd d1" "m_listen_fd (srv d1) = lfd" "hw_fd d1 = ifd"
    "m_conns (srv d1) = []" "watched d1 = []"
    using assms(1)
    by (auto simp: daemon_setup_def Let_def server_init_def new_server_def
        split: sum.splits prod.splits option.splits if_splits)
  let ?d = "d1\<lparr>epoll_fd := efd\<rparr>"
  have conns: "\<not> has_fd (srv d0) fd" for fd using d0 by (simp add: has_fd_def)
  have w0: "set (watched d0) = {fd \<in> own. 0 \<le> fd}" "distinct (watched d0)" "epoll_fd d0 = efd"
    using assms(2,3) d0 by (auto simp: watch_all_def Let_def watched_epoll_add)
  then have "watch_ok {fd \<in> own. 0 \<le> fd} d0" using assms(2) conns by (simp add: watch_ok_def)
  then have ok: "watch_ok {fd \<in> own. 0 \<le> fd} d" using watch.loop_rel [OF assms(4)] by auto
  have "b \<in> set (watched d)" if "b \<in> own" "0 \<le> b" for b
  proof -
    have "stays b d0 d" using loop_stays [OF assms(4), of b] assms(5) that(1) by auto
    then show ?thesis using that w0 conns by (simp add: stays_def)
  qed
  then show ?thesis using ok by (auto simp: watch_ok_def)
qed

section \<open>The agent\<close>

text \<open>A monitor keeps its descriptor.\<close>

lemma i_fd_keeps [simp]:
  "i_epoll_fd (i_set_timeouts d s i) = i_epoll_fd i" "i_epoll_fd (snd (i_handle r i)) = i_epoll_fd i"
  by (cases r; simp add: i_set_timeouts_def reset_idle_timer_def on_timeout_def Let_def)+

lemma w_display_keeps [simp]:
  "w_display (destroy_notifications w) = w_display w" "w_display (snd (create_notifications g d s w)) = w_display w"
  "w_display (w_set_timeouts g d s w) = w_display w"
proof -
  show "w_display (destroy_notifications w) = w_display w" for w
    by (simp add: destroy_notifications_def Let_def split: option.split)
  then show "w_display (snd (create_notifications g d s w)) = w_display w"
    by (auto simp: create_notifications_def Let_def split: option.split)
  then show "w_display (w_set_timeouts g d s w) = w_display w" by (simp add: w_set_timeouts_def)
qed

lemma w_fd_keeps [simp]:
  "w_fd n (w_set_timeouts g d s w) = w_fd n w" "w_fd n (snd (on_notification e w)) = w_fd n w"
  by (simp add: w_fd_def) (cases e; simp)

lemma mon_fd_keeps [simp]:
  "mon_fd n (mon_set_timeouts g d s m) = mon_fd n m" "mon_fd n (snd (mon_feed i m)) = mon_fd n m"
  by (cases m; simp) (cases "(i, m)" rule: mon_feed.cases; simp)

lemma mon_fd_poll [simp]: "mon_fd n (snd (mon_poll is m)) = mon_fd n m"
proof (induction "is" arbitrary: m)
  case (Cons i "is")
  show ?case using Cons [of "snd (mon_feed i m)"] by (simp add: split_beta)
qed simp

definition agent_waits :: "int \<Rightarrow> int set \<Rightarrow> int \<Rightarrow> agent \<Rightarrow> bool" where
  "agent_waits f B dfd a \<longleftrightarrow> 0 \<le> agent_epoll_fd a \<and> daemon_fd a = f \<and> distinct (agent_watched a) \<and>
     set (agent_watched a) =
       {fd. 0 \<le> fd \<and> (fd = f \<or> fd \<in> B \<or> (\<exists>m. idle a = Some m \<and> fd = mon_fd dfd m))}"

interpretation wait: agent_rel "{e. display_fd e = dfd}" "\<lambda>a a'. agent_waits f B dfd a \<longrightarrow> agent_waits f B dfd a'"
  for f B dfd
proof (unfold_locales, goal_cases)
  case (9 a e d s)
  obtain mon fds where "choose_monitor e d s = (mon, fds)" by fastforce
  from setup_first [OF 9(1) this] show ?case
    using 9 by (auto simp: agent_waits_def split: option.split)
qed (auto simp: agent_waits_def)

text \<open>
  C28: once it is connected, and as long as its loop runs, the
  agent waits for exactly the connection to the daemon, the session bus if it could be opened
  and the idle monitor it uses, each once.
\<close>

theorem agent_waits_for_its_descriptors:
  assumes "failing bad" "0 \<le> fd" "0 \<le> efd"
    and "agent_start bus_ok matches ask names bfd efd
      (new_agent o' w (retries bad @ (fd, True, False) # as) fs) = a1"
    and "mpris_init bus_ok matches ask names new_mpris = (ok, out, m)"
    and "agent_loop ts a1 = (None, a)" "\<forall>(ss, rs) \<in> set ts. \<forall>r \<in> set rs. display_fd (a_env r) = dfd"
  shows "daemon_fd a = fd \<and> distinct (agent_watched a) \<and>
    set (agent_watched a) = {x. 0 \<le> x \<and>
      (x = fd \<or> ok \<and> x = mpris_bus_fd bfd m \<or> (\<exists>n. idle a = Some n \<and> x = mon_fd dfd n))}"
proof -
  let ?B = "if ok then {mpris_bus_fd bfd m} else {}"
  let ?a = "(new_agent o' w (retries bad @ (fd, True, False) # as) fs)\<lparr>agent_epoll_fd := efd\<rparr>"
  obtain hello where "connect_to_daemon ?a = agent_send hello (agent_watch fd (?a\<lparr>daemon_fd := fd, attempts := as, Agent.world := w\<lparr>closed := closed w @ sockets bad\<rparr>\<rparr>))"
    using connect_loop_retry [OF assms(1,2), of False as ?a] by (simp add: connect_to_daemon_def new_agent_def)
  then have "agent_waits fd ?B dfd a1"
    unfolding assms(4) [symmetric] using assms(2,3,5)
    by (auto simp: agent_start_def agent_waits_def new_agent_def Let_def split_beta)
  then have "agent_waits fd ?B dfd a" using wait.loop_rel [OF assms(6)] assms(7) by auto
  then show ?thesis by (auto simp: agent_waits_def)
qed

end
