(* ===== verification/Teardown.thy ===== *)
theory Teardown
  imports Watching
begin

text \<open>
  The destructors: what the monitors, the agent (\<open>src/agent/agent.cpp\<close>) and the daemon
  (\<open>src/daemon/daemon.cpp\<close>) give back when they end, and what is left to the kernel.
\<close>

section \<open>The monitors\<close>

text \<open>\<open>~HwEventMonitor\<close>: the descriptors closed.\<close>

definition hw_destroy :: "int \<Rightarrow> int list" where
  "hw_destroy hw_epoll = (if 0 \<le> hw_epoll then [hw_epoll] else [])"

text \<open>However far \<open>init\<close> came, the destructor leaves nothing at the compositor.\<close>

lemma w_init_ok: "w_init wd ok gs g d s new_wayland_idle = (b, m) \<Longrightarrow> w_ok m"
proof -
  assume i: "w_init wd ok gs g d s new_wayland_idle = (b, m)"
  have new: "w_ok (new_wayland_idle\<lparr>w_display := x, w_registry := y, w_notifier := n, w_seat := t\<rparr>)" for x y n t
    by (simp add: w_ok_def new_wayland_idle_def)
  have "w_ok (new_wayland_idle\<lparr>w_display := False\<rparr>)" by (simp add: w_ok_def new_wayland_idle_def)
  with i show ?thesis
    using create_live [OF new] new_wayland_ok new
    by (auto simp: w_init_def Let_def split: if_splits prod.splits)
qed

lemma failed_monitor_leaves_nothing:
  "w_init wd ok gs g d s new_wayland_idle = (b, m) \<Longrightarrow> live (w_requests (fst (w_destroy m))) [] = []"
  using w_init_ok destroy_live by (simp add: w_destroy_def)

text \<open>The input monitor closes its timer and its epoll set, but none of the devices it has opened.\<close>

lemma devices_left_open:
  assumes "i_init d s efd tfd (Some ds) now new_input_idle = (True, m)"
    and "distinct (efd # tfd # map snd ds)"
  shows "i_destroy m = [tfd, efd]"
    "filter (\<lambda>fd. fd \<notin> set (i_destroy m)) (i_watched m) =
      map snd (filter (\<lambda>(name, fd). take 5 name = ''event'' \<and> 0 \<le> fd) ds)"
proof -
  have m: "i_timer_fd m = tfd" "i_epoll_fd m = efd" "0 \<le> efd" "0 \<le> tfd"
    "i_watched m = tfd # map snd (filter (\<lambda>(name, fd). take 5 name = ''event'' \<and> 0 \<le> fd) ds)"
    using assms(1)
    by (auto simp: i_init_def open_input_devices_def reset_idle_timer_def new_input_idle_def Let_def split: if_splits)
  show d: "i_destroy m = [tfd, efd]" using m by (simp add: i_destroy_def)
  have "\<forall>fd \<in> set (map snd (filter (\<lambda>(name, fd). take 5 name = ''event'' \<and> 0 \<le> fd) ds)). fd \<noteq> tfd \<and> fd \<noteq> efd"
    using assms(2) by force
  then show "filter (\<lambda>fd. fd \<notin> set (i_destroy m)) (i_watched m) =
      map snd (filter (\<lambda>(name, fd). take 5 name = ''event'' \<and> 0 \<le> fd) ds)"
    unfolding d m(5) by (simp add: filter_id_conv)
qed

section \<open>The programs\<close>




definition daemon_end :: "daemon \<Rightarrow> daemon" where
  "daemon_end d = d\<lparr>Daemon.world := close_all ((if 0 \<le> epoll_fd d then [epoll_fd d] else []) @
     hw_destroy (hw_fd d)) (Daemon.world d)\<rparr>"

section \<open>Every descriptor the agent has opened for itself is closed once\<close>







lemma run_child_closed [simp]: "closed (world (run_child c a)) = closed (world a)"
  by (auto simp: run_child_def take_fork_def Let_def frame split: list.splits)

text \<open>A monitor keeps its descriptors for as long as it lives.\<close>

lemma i_keeps_fds [simp]:
  "i_timer_fd (snd (i_handle x m)) = i_timer_fd m" "i_epoll_fd (snd (i_handle x m)) = i_epoll_fd m"
  "i_epoll_fd (reset_idle_timer m) = i_epoll_fd m"
  by (cases x; simp add: on_timeout_def reset_idle_timer_def Let_def)+

lemma i_keeps_destroy [simp]:
  "i_destroy (reset_idle_timer m) = i_destroy m" "i_destroy (snd (i_handle x m)) = i_destroy m"
  "i_destroy (i_set_timeouts d s m) = i_destroy m"
  by (simp_all add: i_destroy_def i_set_timeouts_def)

lemma mon_feed_destroy [simp]:
  "mon_destroy (mon_set_timeouts g d s m) = mon_destroy m" "mon_destroy (snd (mon_feed i m)) = mon_destroy m"
  by (cases m; simp) (cases "(i, m)" rule: mon_feed.cases; simp)

lemma mon_poll_destroy [simp]: "mon_destroy (snd (mon_poll is m)) = mon_destroy m"
  by (induction "is" arbitrary: m) (simp_all add: split_beta)












end
