(* ===== verification/Witnesses.thy ===== *)
theory Witnesses
  imports Demo Idle_Cycle Settling Teardown
begin

text \<open>
  Each property applied to the machine, daemon and agent of \<open>Demo\<close>, or to small inputs of
  its own: the hypotheses hold together, and the conclusion says what it should.
\<close>

section \<open>JSON\<close>

theorem parser_reads_renderings_witness:
  "parse_value ('' '' @ ''[ -12 , 2.5e1, [{ }]]'' @ '',x'') =
    Inr (JArray [JInt (- 12), JDouble (Dbl False (25 * 2 ^ 48) (- 48)), JArray [JObject []]], '',x'')"
proof -
  have ds: "all_digits ''12''" "all_digits ''2''" "all_digits ''5''" "all_digits ''1''"
    by (simp_all add: all_digits_def)
  have vs: "value10 ''12'' = 12" "value10 ''25'' = 25" "value10 ''1'' = 1"
    by (simp_all add: value10_def digit10_def)
  have i: "renders (JInt (- 12)) ''-12''"
    using r_int [OF int_text.neg [OF ds(1)]] by (simp add: vs fits64_def)
  have e: "expo_text ''e1'' 1" using expo_text.bare [OF _ ds(4), of "CHR ''e''"] by (simp add: vs)
  have r: "real_text ''2.5e1'' False 25 0"
    using real_text.real [OF ds(2) frac_text.point [OF ds(3)] e, of "[]" False] by (simp add: vs)
  have "decimal False 25 0 = Inr (Dbl False (25 * 2 ^ 48) (- 48))"
    by (simp add: decimal_def to_binary64_def bin_exp_def scale2_def nbits.simps round_div_def Let_def)
  from r_double [OF r this] have d: "renders (JDouble (Dbl False (25 * 2 ^ 48) (- 48))) ''2.5e1''" .
  have o: "renders (JObject []) (''{'' @ '' '' @ ''}'')" by (rule r_object0) simp
  have "renders (JArray [JInt (- 12), JDouble (Dbl False (25 * 2 ^ 48) (- 48)), JArray [JObject []]])
      (''['' @ ('' '' @ ''-12'' @ '' '' @ '','' @ '' '' @ ''2.5e1'' @ [] @ '','' @
        '' '' @ (''['' @ ([] @ (''{'' @ '' '' @ ''}'') @ []) @ '']'') @ []) @ '']'')"
    by (intro r_array r_elems r_elem i d o ws_space ws_Nil)
  from parser_reads_renderings [OF this, of "'' ''" "'',x''"] show ?thesis by simp
qed

theorem printers_round_trip_witness:
  "parse (dump (config_json demo_config)) = Inr (config_json demo_config) \<and>
   parse (dump_pretty (config_json demo_config)) = Inr (config_json demo_config)"
  using printers_round_trip [of "config_json demo_config"] by simp

theorem parser_total_and_wellformed_witness:
  "parse ''  '' = Inl (Runtime_error ''json: unexpected end'')"
  using parser_total_and_wellformed [of "''  ''"] by (simp add: ws_def white_def)

section \<open>Lines and sockets\<close>

theorem line_written_or_cut_witness: "\<exists>q. q \<noteq> [] \<and> ''ab'' @ q = ''abc'' @ ''\<newline>''"
  using line_written_or_cut [of "[Wrote 2, Write_fail]" "''abc''" False "''ab''" "[]"]
  by (simp add: write_line_def)

theorem messages_arrive_witness:
  "feed_all [[Data (take 5 (stream_of [encode_lock, encode_ack]))],
      [Read_intr, Data (drop 5 (stream_of [encode_lock, encode_ack]))]] [] =
    ([encode_lock, encode_ack], [])"
proof -
  have e: "map dump [typed T_LOCK, typed T_ACK] = [encode_lock, encode_ack]" by (simp add: encoders)
  show ?thesis
    using messages_arrive [of "[typed T_LOCK, typed T_ACK]"
        "[[Data (take 5 (stream_of [encode_lock, encode_ack]))],
          [Read_intr, Data (drop 5 (stream_of [encode_lock, encode_ack]))]]", unfolded e]
    by simp
qed

section \<open>Configuration\<close>

theorem config_round_trip_witness:
  "load_config (Some (dump (config_json demo_config))) demo_path = Inr demo_config"
  by (rule config_round_trip [OF demo_config_ok]) simp

theorem config_loaded_or_error_witness:
  "\<exists>c. load_config (Some (dump_pretty (config_json demo_config))) demo_path = Inr c \<and>
    map prof_name (profiles c) = [''balanced'', ''saver''] \<and> active_profile c = ''balanced''"
proof -
  let ?r = "config_json demo_config"
  have p: "profiles demo_config = [demo_profile, demo_saver]" "active_profile demo_config = ''balanced''"
    by (simp_all add: demo_config_def)
  have n: "str (profile_json demo_profile) ''name'' [] = ''balanced''" "str (profile_json demo_saver) ''name'' [] = ''saver''"
    by (simp_all add: profile_json_def field_access demo_saver_def)
  show ?thesis
    using config_loaded_or_error [of demo_path "dump_pretty ?r" "Runtime_error []" ?r] demo_parse
    by (auto simp: Let_def p n)
qed

theorem chosen_profile_survives_witness:
  "\<exists>cm' w' cm2. cm_set_active ''saver'' demo_cm demo_world = (True, cm', w') \<and> m_active cm' = ''saver'' \<and>
    cm_new w' demo_path = Inr cm2 \<and> m_active cm2 = ''saver''"
proof -
  obtain ok cm' w' where s: "cm_set_active ''saver'' demo_cm demo_world = (ok, cm', w')"
    by (metis prod_cases3)
  have path: "m_path demo_cm = demo_path" by (simp add: demo_cm_def)
  have found: "find_profile (m_config demo_cm) ''saver'' \<noteq> None"
    by (simp add: demo_cm_def demo_config_def find_profile_def demo_saver_def)
  show ?thesis
    using chosen_profile_survives [OF s demo_cm_ok, of "dump_pretty (config_json demo_config)"
      "config_json demo_config" demo_config] s found
    by (auto simp: path demo_file_values demo_parse demo_load)
qed

section \<open>The battery\<close>

lemma show_nat_zero: "show_nat 0 = ''0''"
  by code_simp

theorem battery_reading_consistent_witness:
  "present (battery_read demo_files) \<and> bat_name (battery_read demo_files) = ''BAT0''"
proof -
  note z = show_nat_zero
  have "demo_files (''/sys/class/power_supply/BAT'' @ show_nat 0 @ ''/present'') = Some ''1''"
    by (simp add: z demo_files_def demo_texts)
  then show ?thesis
    using battery_reading_consistent [of demo_files] by (metis z less_nat_zero_code option.distinct(1)
      append_Cons append_Nil zero_less_numeral)
qed

theorem time_estimates_witness:
  "\<exists>t. time_to_empty_min (read_battery demo_files 0) = Some t \<and> sint t = 257"
proof -
  have b: "demo_bat = ''/sys/class/power_supply/BAT'' @ show_nat 0"
    by (simp add: demo_bat_def show_nat_zero)
  have n: "battery_nodes demo_files demo_bat 30 50 7"
    by (simp add: battery_nodes_def node_is_def demo_file_values fits64_def)
  show ?thesis
    using time_estimates [OF b n demo_file_values(4) HOL.refl] by (simp add: fits64_def fits32_def)
qed

section \<open>The agent's monitors\<close>

lemma demo_input_idle: "i_idle_since 0 demo_input"
  by (simp add: i_idle_since_def demo_input_def new_input_idle_def)

theorem idle_cycle_witness:
  "\<exists>m1 m2 m3. i_handle (Timer_ready (0 + of_nat 300000)) demo_input = ([On_dim], m1) \<and>
    i_handle (Timer_ready (0 + of_nat 600000)) m1 = ([On_sleep], m2) \<and>
    i_handle (Device_ready 700000) m2 = ([On_active], m3)"
proof -
  obtain o1 m1 where 1: "i_handle (Timer_ready (0 + of_nat 300000)) demo_input = (o1, m1)" by fastforce
  obtain o2 m2 where 2: "i_handle (Timer_ready (0 + of_nat 600000)) m1 = (o2, m2)" by fastforce
  obtain o3 m3 where 3: "i_handle (Device_ready 700000) m2 = (o3, m3)" by fastforce
  have "sint (i_dim_ms demo_input) = 300000" "sint (i_sleep_ms demo_input) = 600000"
    by (simp_all add: demo_input_def)
  then have "o1 = [On_dim] \<and> o2 = [On_sleep] \<and> o3 = [On_active]"
    using idle_cycle [OF demo_input_idle _ _ _ _ 1 2 3] by simp
  then show ?thesis using 1 2 3 by blast
qed

theorem wayland_no_stale_notification_witness:
  "\<exists>m. create_notifications (Some 1, Some 2) 1000 2000 new_wayland_idle = (True, m) \<and>
    map snd (live (w_requests m) []) = [1000, 2000]"
proof -
  obtain m where c: "create_notifications (Some 1, Some 2) 1000 2000 new_wayland_idle = (True, m)"
    by (simp add: create_notifications_def Let_def)
  show ?thesis using wayland_no_stale_notification [OF new_wayland_ok c] c by simp
qed

definition vlc :: string where "vlc = ''org.mpris.MediaPlayer2.vlc''"

definition all_playing :: bus where "all_playing = (\<lambda>u. Some (Some ''Playing''))"

lemma vlc_name: "is_mpris_name vlc"
  by (simp add: is_mpris_name_def vlc_def)


theorem playing_at_start_unheard_witness:
  "\<exists>m. mpris_init True (True, True) all_playing (Some [(vlc, Some '':1.5'')]) new_mpris = (True, [], m) \<and>
    m_inhibiting m \<and> fst (mpris_poll [] (set_callbacks m)) = []"
proof -
  obtain out m where i: "mpris_init True (True, True) all_playing (Some [(vlc, Some '':1.5'')]) new_mpris =
      (True, out, m)"
    by (cases "scan_existing_players all_playing (Some [(vlc, Some '':1.5'')]) (new_mpris\<lparr>m_open := True\<rparr>)")
      (simp add: mpris_init_def)
  obtain out' m' where p: "mpris_poll [] (set_callbacks m) = (out', m')" by fastforce
  have "out' = []" using p by (auto simp: mpris_poll_def split: if_splits)
  then show ?thesis
    using playing_at_start_unheard [OF i _ vlc_name _ p, of "'':1.5''"] i p by (simp add: all_playing_def)
qed

section \<open>The agent\<close>

definition closed_by_daemon :: agent_ready where
  "closed_by_daemon = \<lparr>a_fd = 3, a_reads = [Read_eof], a_env = demo_env, a_inputs = []\<rparr>"

theorem lost_daemon_ends_agent_witness:
  "\<exists>a'. agent_loop [([], [closed_by_daemon])] demo_agent = (Some 0, a') \<and>
    wire (Agent.world a') = [(3, encode_hello ''3'' 1000 @ ''\<newline>'')]"
proof -
  obtain code a' where l: "agent_loop [([], [closed_by_daemon])] demo_agent = (code, a')" by fastforce
  have m: "mpris_poll [] (mpris demo_agent) = ([], new_mpris)"
    by (simp add: mpris_poll_def new_mpris_def)
  show ?thesis
    using lost_daemon_ends_agent [OF m _ _ _ _ _ _ _ l, of "[]" "[(-1, False)]" 3 "[]"] l
    by (simp add: closed_by_daemon_def retries_def failing_def)
qed


section \<open>Power\<close>

theorem profile_applied_witness:
  "\<exists>w'. apply_profile demo_profile demo_world = (None, w') \<and>
    backlight w' demo_backlight 937 749 \<and>
    read_file (''/sys/devices/system/cpu/cpufreq/policy0'' @ ''/scaling_governor'') w' = ''powersave''"
proof -
  obtain e w' where a: "apply_profile demo_profile demo_world = (e, w')" by fastforce
  have r: "rstrip (cpu_governor demo_profile) = cpu_governor demo_profile"
    "rstrip (cpu_epp demo_profile) = cpu_epp demo_profile" by (simp_all add: rstrip_def)
  show ?thesis
    using profile_applied [OF demo_backlight_works _ _ _ r a] a by (simp add: demo_policies)
qed

section \<open>The daemon\<close>

theorem idle_rounds_darken_witness:
  "\<exists>c. backlight (Daemon.world ((idle_round 7 ^^ 100) (demo_daemon demo_agents))) demo_backlight 937 c \<and>
    c * 100 div 937 = 0"
proof -
  have b: "backlight (Daemon.world (demo_daemon demo_agents)) demo_backlight 937 500"
    by (simp add: demo_backlight_works)
  have p: "d_active_profile (demo_daemon demo_agents) = Some demo_profile"
    "0 \<le> sint (dim_brightness_percent demo_profile)" "sint (dim_brightness_percent demo_profile) \<le> 100"
    by simp_all
  have "coprime (937 :: int) 100" "(500 :: int) < 937" by (simp_all add: coprime_iff_gcd_eq_1 gcd_non_0_int)
  then show ?thesis by (rule idle_rounds_darken [OF b demo_may_dim p])
qed

lemma demo_agents_ok: "umap_ok demo_agents" "umap_ok playing_agents"
  by (simp_all add: demo_agents_def playing_agents_def umap_ok_def)

theorem inhibitors_refine_set_witness:
  "abs_inhibits (snd (on_line 7 (encode_inhibit ''call'') (demo_daemon playing_agents))) =
    {(7, ''call''), (7, ''mpris-playing'')} \<and>
   abs_inhibits (on_disconnect 7 (demo_daemon playing_agents)) = {}"
proof -
  have a: "abs_inhibits (demo_daemon playing_agents) = {(7, ''mpris-playing'')}"
    by (auto simp: abs_inhibits_def playing_agents_def split: if_splits)
  have "map_of (agents (demo_daemon playing_agents)) 7 \<noteq> None" by (simp add: playing_agents_def)
  from inhibitors_refine_set [OF demo_ok [OF demo_agents_ok(2)] this, of "''call''"] show ?thesis
    by (auto simp: a)
qed

theorem no_pre_sleep_witness:
  "cmds (Daemon.world (do_suspend ''suspend'' demo_started)) =
    cmds (Daemon.world demo_started) @ [''systemctl suspend'']"
  using no_pre_sleep [OF demo_reachable, of "''suspend''"] by (simp add: run_suspend frame)

theorem only_known_commands_witness:
  "\<exists>d' cs. daemon_loop [([], [])] demo_started = (None, d') \<and>
    cmds (Daemon.world d') = cmds (Daemon.world demo_started) @ cs \<and> set cs \<subseteq> known_commands"
proof -
  obtain d' where t: "daemon_loop [([], [])] demo_started = (None, d')" by (simp add: turn_def)
  show ?thesis using only_known_commands [OF t] t by blast
qed

theorem reachable_invariant_witness: "daemon_ok demo_started"
  by (rule reachable_invariant [OF demo_reachable])

theorem malformed_keeps_inhibitors_witness:
  "\<exists>d'. on_line 7 ''oops'' (demo_daemon playing_agents) = (None, d') \<and> \<not> has_fd (srv d') 7 \<and>
    on_line 8 encode_idle_sleep d' = (None, d')"
proof -
  obtain e d' where l: "on_line 7 ''oops'' (demo_daemon playing_agents) = (e, d')" by fastforce
  have "\<exists>x. decode ''oops'' = Inl x"
    by (simp add: decode_def parse_def parse_value.simps skip_ws_def json_ws_def is_digit_def)
  then obtain x where x: "decode ''oops'' = Inl x" by blast
  show ?thesis
    using malformed_keeps_inhibitors [OF x _ _ l,
      of "\<lparr>session_id = ''3'', uid = 1000, inhibits = [''mpris-playing'']\<rparr>"] l
    by (simp add: playing_agents_def)
qed

theorem eof_discards_lines_witness:
  "\<exists>d'. handle_client 8 ([Data (encode_ctl ''lock'' [] @ ''\<newline>'')] @ [Read_eof]) (demo_daemon demo_agents) =
      (None, d') \<and> wire (Daemon.world d') = []"
proof -
  obtain e d' where h: "handle_client 8 ([Data (encode_ctl ''lock'' [] @ ''\<newline>'')] @ [Read_eof])
      (demo_daemon demo_agents) = (e, d')"
    by fastforce
  have "quiet [Data (encode_ctl ''lock'' [] @ ''\<newline>'')]" by simp
  then show ?thesis using eof_discards_lines [OF _ _ h] h by simp
qed

definition lid_closed :: ready where
  "lid_closed = \<lparr>ready_fd = 5, accepted = -1, reads = [],
     inputs = [[\<lparr>ev_type = 5, ev_code = 0, ev_value = 1\<rparr>, \<lparr>ev_type = 0, ev_code = 0, ev_value = 0\<rparr>]]\<rparr>"

theorem buttons_run_actions_witness:
  "\<exists>d'. handle_ready lid_closed (demo_daemon demo_agents) = (None, d') \<and>
    cmds (Daemon.world d') = [''systemctl suspend'']"
proof -
  obtain e d' where h: "handle_ready lid_closed (demo_daemon demo_agents) = (e, d')" by fastforce
  show ?thesis using buttons_run_actions [OF _ _ _ h] h
    by (simp add: lid_closed_def named_action_def systemctl_table_def map_filter_simps)
qed

text \<open>One client comes and goes, another comes: the set is back to the daemon's own and the second.\<close>

theorem waits_for_open_descriptors_witness:
  "\<exists>d. daemon_loop [([], [knock demo_seated 8]), ([], [hang_up 8 []]), ([], [knock demo_seated 10])] demo_seated =
      (None, d) \<and> distinct (watched d) \<and> set (watched d) = {10, 4, 6, 5}"
proof -
  let ?ts = "[([], [knock demo_seated 8]), ([], [hang_up 8 []]), ([], [knock demo_seated 10])]"
  obtain d where l: "daemon_loop ?ts demo_seated = (None, d)" and c: "{fd. has_fd (srv d) fd} = {10}"
    by (simp add: turn_def handle_ready_def knock_def hang_up_def demo_seated_def demo_boot_def is_listen_fd_def
        accept_client_def has_fd_def map_of_umap_put handle_client_def feed_client_def Let_def
        close_client_def umap_erase_def feed_eof [of "[]", simplified] drop_client_def on_disconnect_def epoll_del_def)
  have b: "bus_fd 6 (sess demo_seated) = 6"
    by (simp add: demo_seated_def sessions_init_def bus_fd_def demo_boot_def split_beta Let_def
        refresh_active_session_def new_sessions_def split: option.splits)
  have "distinct (watched d) \<and> set (watched d) = {fd. has_fd (srv d) fd} \<union> {fd \<in> {4, 6, 5}. 0 \<le> fd}"
    by (rule waits_for_open_descriptors [OF demo_seated_setup _ _ l])
      (auto simp: b knock_def hang_up_def)
  moreover have "{fd \<in> {4, 6, 5}. 0 \<le> fd} = {4, 6, 5 :: int}" by auto
  ultimately have "distinct (watched d) \<and> set (watched d) = {10, 4, 6, 5}" unfolding c by simp
  with l show ?thesis by blast
qed

section \<open>Requests\<close>

text \<open>Choosing the other profile on the demo machine raises no exception.\<close>

lemma demo_set_profile:
  assumes "d = (demo_daemon ags)\<lparr>dimmed := v\<rparr>"
  shows "\<exists>d'. on_line 8 (encode_ctl ''set_profile'' ''saver'') d = (None, d') \<and>
    d_active_profile d' = Some demo_saver"
proof -
  let ?c = "demo_cm\<lparr>m_active := ''saver''\<rparr>"
  define w where "w = persist_active ?c demo_world"
  have found: "find_profile (m_config demo_cm) ''saver'' = Some demo_saver"
    by (simp add: demo_cm_def demo_config_def find_profile_def demo_saver_def)
  then have act: "cm_active_profile ?c = Some demo_saver" by (simp add: cm_active_profile_def)
  have "demo_backlight @ q \<noteq> m_path ?c" for q
    by (simp add: demo_cm_def demo_texts)
  then have b: "backlight w demo_backlight 937 500"
    by (intro backlight_change [OF demo_backlight_works]) (simp_all add: w_def frame persist_active_other)
  have sv: "0 \<le> sint (brightness_percent demo_saver)" "sint (brightness_percent demo_saver) \<le> 100"
    by (simp_all add: demo_saver_def)
  obtain w1 where w1: "apply_profile demo_saver w = (None, w1)"
    using apply_backlight(1) [OF b sv] by (cases "apply_profile demo_saver w") simp
  have "set_active ''saver'' d = (True, None, broadcast_config (d\<lparr>cm := ?c, Daemon.world := w1\<rparr>))"
    using assms found act w1
    by (simp add: set_active_def cm_set_active_def on_change_def d_active_profile_def Let_def flip: w_def)
  then show ?thesis
    using act by (auto simp: on_line_ctl on_ctl_def d_active_profile_def)
qed

theorem set_profile_request_witness:
  "\<exists>d' sent line. on_line 8 (encode_ctl ''set_profile'' ''saver'') (demo_daemon demo_agents) = (None, d') \<and>
    wire (Daemon.world d') = sent @ [(8, line @ ''\<newline>'')] \<and> m_active (cm d') = ''saver'' \<and>
    ctl_finish ''set-profile'' line = (0, ''ok'' @ ''\<newline>'', [])"
proof -
  have "demo_daemon demo_agents = (demo_daemon demo_agents)\<lparr>dimmed := False\<rparr>" by (simp add: demo_daemon_def)
  from demo_set_profile [OF this] obtain d' where d':
    "on_line 8 (encode_ctl ''set_profile'' ''saver'') (demo_daemon demo_agents) = (None, d')"
    by blast
  have f: "find_profile (m_config (cm (demo_daemon demo_agents))) ''saver'' \<noteq> None"
    by (simp add: demo_cm_def demo_config_def find_profile_def demo_saver_def)
  have w: "wscript (Daemon.world (demo_daemon demo_agents)) 8 = []" "wire (Daemon.world (demo_daemon demo_agents)) = []"
    by simp_all
  note r = set_profile_request [OF w(1) d', unfolded if_P [OF f] w(2) append_Nil]
  from r d' show ?thesis by blast
qed

theorem status_reported_witness:
  "\<exists>d' line out. on_line 8 (encode_ctl ''status'' []) (demo_daemon demo_agents) = (None, d') \<and>
    wire (Daemon.world d') = [(8, line @ ''\<newline>'')] \<and> ctl_finish ''status'' line = (0, out, []) \<and>
    take 24 out = ''profile:        balanced''"
proof -
  obtain e d' where l: "on_line 8 (encode_ctl ''status'' []) (demo_daemon demo_agents) = (e, d')" by fastforce
  show ?thesis using status_reported [OF _ l HOL.refl] l by (auto simp: demo_cm_def)
qed

theorem inhibitors_reported_witness:
  "\<exists>d' line. on_line 8 (encode_ctl ''list_inhibitors'' []) (demo_daemon playing_agents) = (None, d') \<and>
    wire (Daemon.world d') = [(8, line @ ''\<newline>'')] \<and>
    ctl_finish ''list-inhibitors'' line = (0, ''3: mpris-playing'' @ ''\<newline>'', [])"
proof -
  obtain e d' where l: "on_line 8 (encode_ctl ''list_inhibitors'' []) (demo_daemon playing_agents) = (e, d')"
    by fastforce
  have w: "wscript (Daemon.world (demo_daemon playing_agents)) 8 = []" by simp
  have i: "inhibitors (demo_daemon playing_agents) = [''3: mpris-playing'']" "has_any_inhibit (demo_daemon playing_agents)"
    by (simp_all add: inhibitors_def has_any_inhibit_def playing_agents_def)
  have "e = None \<and> (\<exists>line. wire (Daemon.world d') = [(8, line @ ''\<newline>'')] \<and>
      ctl_finish ''list-inhibitors'' line = (0, ''3: mpris-playing'' @ ''\<newline>'', []))"
    using inhibitors_reported [OF w l demo_ok [OF demo_agents_ok(2)], THEN conjunct2, THEN conjunct2]
      inhibitors_reported [OF w l demo_ok [OF demo_agents_ok(2)], THEN conjunct1]
    by (auto simp: i)
  then show ?thesis using l by blast
qed

lemma demo_max_ok: "max_ok demo_world"
  using demo_backlight_works by (auto simp: max_ok_def backlight_def read_file_def fits32_def stoi_show)

lemma demo_current_ok: "current_ok demo_world"
  using demo_backlight_works by (auto simp: current_ok_def backlight_def read_file_def fits32_def stoi_show)

theorem daemon_survives_witness:
  "\<exists>d. daemon_run (daemon_setup demo_path demo_world True None None 4 5 6 9)
    [([], [knock demo_seated 8]), ([], [wake 8 [Data (encode_ctl ''reload_config'' [] @ ''\<newline>{]\<newline>'')]])] = (0, Some d)"
proof -
  have "cm_new demo_world demo_path = Inr demo_cm"
    by (simp add: cm_new_def cm_reload_def demo_file_values demo_load demo_cm_def)
      (simp add: demo_config_def)
  moreover have "\<not> sysfs demo_path" by (simp add: demo_path_def sysfs_def)
  ultimately show ?thesis
    using daemon_survives [of demo_world demo_path demo_cm 4] demo_max_ok demo_current_ok by simp
qed

section \<open>The daemon and an agent\<close>

definition daemon_ready :: "string \<Rightarrow> agent_ready" where
  "daemon_ready bytes = \<lparr>a_fd = 3, a_reads = [Data (take 9 bytes), Read_intr, Data (drop 9 bytes)] @ [Read_again],
     a_env = demo_env, a_inputs = []\<rparr>"

theorem profile_change_strands_dimming_witness:
  "\<exists>d'. on_line 8 (encode_ctl ''set_profile'' ''saver'') ((demo_daemon demo_agents)\<lparr>dimmed := True\<rparr>) =
      (None, d') \<and> dimmed d' \<and> on_line 7 encode_idle_dim d' = (None, d') \<and>
    wire (Agent.world (idle_poll [From_input (Device_ready 5)]
      (on_daemon_line demo_env (encode_config 300 600) demo_agent))) = []"
proof -
  obtain d' where d': "on_line 8 (encode_ctl ''set_profile'' ''saver'')
      ((demo_daemon demo_agents)\<lparr>dimmed := True\<rparr>) = (None, d')" "d_active_profile d' = Some demo_saver"
    using demo_set_profile [OF HOL.refl] by blast
  have s: "dim_timeout demo_saver = 300" "sleep_timeout demo_saver = 600"
    by (simp_all add: demo_saver_def default_profile_def)
  show ?thesis
    using profile_change_strands_dimming [OF _ d', of demo_agent demo_input] d'(1) s
    by (simp add: demo_input_def new_input_idle_def)
qed

section \<open>Running side by side\<close>

text \<open>The second entry under the key is not read any more.\<close>

theorem active_session_is_last_reported_witness:
  "\<exists>d'. daemon_loop [([(Some ''org.freedesktop.login1.Seat'', Some [(Some ''ActiveSession'', Session_struct (Some ''5'')),
        (Some ''ActiveSession'', Session_struct (Some ''6''))])], [])] (demo_daemon demo_agents) = (None, d') \<and>
    m_active_session_id (sess d') = ''5'' \<and> \<not> is_active_agent 7 d'"
proof -
  let ?sigs = "[(Some ''org.freedesktop.login1.Seat'', Some [(Some ''ActiveSession'', Session_struct (Some ''5'')),
    (Some ''ActiveSession'', Session_struct (Some ''6''))])]"
  obtain d' where t: "daemon_loop [(?sigs, [])] (demo_daemon demo_agents) = (None, d')" and g: "agents d' = demo_agents"
    by (simp add: turn_def)
  have b: "m_bus (sess (demo_daemon demo_agents))" by (simp add: demo_daemon_def)
  have l: "''5'' = last (m_active_session_id (sess (demo_daemon demo_agents)) #
      concat (map reported (concat (map fst [(?sigs, [] :: ready list)]))))"
    by (simp add: reported_def)
  show ?thesis
    using active_session_is_last_reported [OF b t l] t g by (auto simp: demo_agents_def split: if_splits)
qed

theorem delivery_independent_of_chunking_witness:
  "\<exists>s d'. s = encode_inhibit ''x'' @ ''\<newline>'' \<and>
    handle_all (map (wake 7) [[Data (take 5 s)], [Read_intr, Data (drop 5 s)]]) (demo_daemon demo_agents) = (None, d') \<and>
    handle_all [wake 7 [Data (take 5 s), Read_intr, Data (drop 5 s)]] (demo_daemon demo_agents) = (None, d')"
proof -
  define s where "s = encode_inhibit ''x'' @ ''\<newline>''"
  let ?d = "demo_daemon demo_agents" and ?rss = "[[Data (take 5 s)], [Read_intr, Data (drop 5 s)]]"
  have c: "map_of (m_conns (srv ?d)) 7 = Some (demo_conn 7)" "\<not> is_listen_fd (srv ?d) 7" "7 \<noteq> m_listen_fd (srv ?d)"
    by (simp_all add: demo_daemon_def is_listen_fd_def)
  have b: "buf (demo_conn 7) = []" by (simp add: demo_conn_def)
  have p: "concat (map payload ?rss) = s" "payload (concat ?rss) = s" by simp_all
  have sp: "split_lines s = ([encode_inhibit ''x''], [])"
    using split_lines_messages [of "[encode_inhibit ''x'']" "[]"] by (simp add: s_def framing)
  have dec: "\<forall>l \<in> set (fst (split_lines (buf (demo_conn 7) @ concat (map payload ?rss)))). decodable l"
    unfolding p b using sp by (simp add: decodable_def)
  obtain e d1 where 1: "handle_all (map (wake 7) ?rss) ?d = (e, d1)" by fastforce
  obtain e' d2 where 2: "handle_all [wake 7 (concat ?rss)] ?d = (e', d2)" by fastforce
  have "split_lines (buf (demo_conn 7) @ payload (concat ?rss)) = ([encode_inhibit ''x''], [])"
    unfolding p b using sp by simp
  from handle_wake [OF c(1,3) _ this] have "handle_ready (wake 7 (concat ?rss)) ?d =
      handle_lines 7 [encode_inhibit ''x''] (with_srv (put_buf 7 (demo_conn 7) [] (srv ?d)) ?d)" by simp
  then have "e' = None"
    using 2 by (simp add: on_line_inhibit split: if_splits prod.splits)
  moreover have "e = e' \<and> (e = None \<longrightarrow> d1 = d2)"
    by (rule delivery_independent_of_chunking [OF c(1,2) _ _ dec 1 2]) (simp_all add: b)
  ultimately have "handle_all (map (wake 7) ?rss) ?d = (None, d1)" "handle_all [wake 7 (concat ?rss)] ?d = (None, d1)"
    using 1 2 by simp_all
  moreover have "concat ?rss = [Data (take 5 s), Read_intr, Data (drop 5 s)]" by simp
  ultimately show ?thesis using s_def by metis
qed

theorem idle_period_witness:
  "\<exists>s1 s2 s3 d1 d2 d3. handle_ready (wake 7 [Data s1]) (demo_daemon demo_agents) = (None, d1) \<and>
    handle_ready (wake 7 [Data s2]) d1 = (None, d2) \<and> handle_ready (wake 7 [Data s3]) d2 = (None, d3) \<and>
    backlight (Daemon.world d1) demo_backlight 937 187 \<and> cmds (Daemon.world d2) = [''systemctl suspend''] \<and>
    backlight (Daemon.world d3) demo_backlight 937 496"
proof -
  let ?d = "demo_daemon demo_agents"
  define a1 where "a1 = idle_poll [From_input (Timer_ready (0 + of_nat 300000))] demo_agent"
  define a2 where "a2 = idle_poll [From_input (Timer_ready (0 + of_nat 600000))] a1"
  define a3 where "a3 = idle_poll [From_input (Device_ready 700000)] a2"
  obtain o1 m1 where 1: "i_handle (Timer_ready (0 + of_nat 300000)) demo_input = (o1, m1)" by fastforce
  obtain o2 m2 where 2: "i_handle (Timer_ready (0 + of_nat 600000)) m1 = (o2, m2)" by fastforce
  obtain o3 m3 where 3: "i_handle (Device_ready 700000) m2 = (o3, m3)" by fastforce
  have ms: "sint (i_dim_ms demo_input) \<le> int 300000" "int 300000 < sint (i_sleep_ms demo_input)"
    "sint (i_sleep_ms demo_input) \<le> int 600000" "(600000::nat) < 2 ^ 31"
    by (simp_all add: demo_input_def)
  have o: "o1 = [On_dim]" "o2 = [On_sleep]" "o3 = [On_active]"
    using idle_cycle_run [OF demo_input_idle ms 1 2 3] by simp_all
  have h: "healthy demo_agent" by (simp add: healthy_def demo_world_def)
  have a: "idle demo_agent = Some (Input demo_input)" "daemon_fd demo_agent = 3" by simp_all
  note w1 = idle_poll_says [OF h a(1) 1 [unfolded o], folded a1_def]
  note w2 = idle_poll_says [OF _ _ 2 [unfolded o], of a1, folded a2_def]
  note w3 = idle_poll_says [OF _ _ 3 [unfolded o], of a2, folded a3_def]
  let ?rs1 = "[Data (enc Idle_dim @ ''\<newline>'')]" and ?rs2 = "[Data (enc Idle_sleep @ ''\<newline>'')]"
    and ?rs3 = "[Data (enc Is_active @ ''\<newline>'')]"
  have b: "wire (Agent.world a1) = wire (Agent.world demo_agent) @ [(daemon_fd demo_agent, payload ?rs1)]"
    "wire (Agent.world a2) = wire (Agent.world a1) @ [(daemon_fd demo_agent, payload ?rs2)]"
    "wire (Agent.world a3) = wire (Agent.world a2) @ [(daemon_fd demo_agent, payload ?rs3)]"
    using w1 w2 w3 by (simp_all add: writes_def)
  have c: "map_of (m_conns (srv ?d)) 7 = Some (demo_conn 7)" "buf (demo_conn 7) = []" "\<not> is_listen_fd (srv ?d) 7"
    by (simp_all add: demo_daemon_def is_listen_fd_def demo_conn_def)
  have p: "d_active_profile ?d = Some demo_profile" "0 < sint (sleep_timeout demo_profile)"
    "0 \<le> sint (dim_brightness_percent demo_profile)" "sint (dim_brightness_percent demo_profile) \<le> 100"
    "backlight (Daemon.world ?d) demo_backlight 937 500"
    by (simp_all add: demo_backlight_works)
  obtain e1 d1 where t1: "handle_ready (wake 7 ?rs1) ?d = (e1, d1)" by fastforce
  obtain e2 d2 where t2: "handle_ready (wake 7 ?rs2) d1 = (e2, d2)" by fastforce
  obtain e3 d3 where t3: "handle_ready (wake 7 ?rs3) d2 = (e3, d3)" by fastforce
  have q: "quiet ?rs1" "quiet ?rs2" "quiet ?rs3" by simp_all
  note r = idle_period [OF h a(1) demo_input_idle ms a1_def a2_def a3_def b q c demo_may_dim p t1 t2 t3]
  have n: "937 * sint (dim_brightness_percent demo_profile) div 100 = 187" "restored 937 500 = 496"
    "cmds (Daemon.world ?d) = []"
    by (simp_all add: restored_def demo_world_def)
  show ?thesis using r t1 t2 t3 unfolding n by (metis append_Nil)
qed

text \<open>The agent that has just connected and said hello, and found no player.\<close>

definition fresh_agent :: agent where
  "fresh_agent = new_agent (opts demo_agent) demo_world [(-1, False, False), (3, True, False)] []"

definition net_agent :: agent where
  "net_agent = agent_start True (True, True) all_playing (Some []) 6 9 fresh_agent"

definition net_begin :: net where
  "net_begin = \<lparr>n_daemon = demo_daemon [], n_agent = net_agent, n_pipe = encode_hello ''3'' 1000 @ ''\<newline>''\<rparr>"

lemma fresh_agent_fields:
  "attempts fresh_agent = retries [(-1, False)] @ (3, True, False) # []"
  "wscript (Agent.world fresh_agent) 3 = []" "mpris fresh_agent = new_mpris"
  "Agent.world fresh_agent = demo_world" "opt_session_id (opts fresh_agent) = ''3''"
  "opt_uid (opts fresh_agent) = 1000" "idle fresh_agent = None" "daemon_buf fresh_agent = []"
  by (simp_all add: fresh_agent_def new_agent_def retries_def)

lemma net_agent_fields:
  "mpris net_agent = set_callbacks (new_mpris\<lparr>m_open := True\<rparr>)"
  "wire (Agent.world net_agent) = wire (Agent.world fresh_agent) @ [(3, encode_hello ''3'' 1000 @ ''\<newline>'')]"
  "daemon_fd net_agent = 3" "wscript (Agent.world net_agent) = wscript demo_world"
  "idle net_agent = None" "daemon_buf net_agent = []"
  using connect_after_retries [of "fresh_agent\<lparr>agent_epoll_fd := 9\<rparr>" "[(-1, False)]" 3 "[]"] fresh_agent_fields
  by (simp_all add: failing_def net_agent_def agent_start_def mpris_init_def scan_existing_players_def send_lines_def Let_def)

lemma demo_conn_8:
  "map_of (m_conns (srv (demo_daemon []))) 8 = Some (demo_conn 8)" "buf (demo_conn 8) = []"
  "\<not> is_listen_fd (srv (demo_daemon [])) 8" "8 \<noteq> m_listen_fd (srv (demo_daemon []))"
  by (simp_all add: demo_conn_def is_listen_fd_def demo_daemon_def)

lemma net_begins: "net_start 8 net_begin"
  unfolding net_begin_def
  by (rule agent_start_net [OF fresh_agent_fields(1) _ _ fresh_agent_fields(2,3) net_agent_def _ _ demo_conn_8(1-3)])
    (simp_all add: net_agent_fields set_callbacks_def new_mpris_def failing_def)

definition link_env :: mon_env where
  "link_env = demo_env\<lparr>got := (Some 1, Some 2)\<rparr>"

definition link_ready :: agent_ready where
  "link_ready = (daemon_ready [])\<lparr>a_env := link_env,
     a_reads := [Data (encode_config 300 600 @ ''\<newline>'')] @ [Read_again]\<rparr>"

lemma link_ready_reads:
  "a_fd link_ready = 3" "capable (a_env link_ready)" "until_blocked 3 [link_ready]"
  "heard 3 [link_ready] = encode_config 300 600 @ ''\<newline>''"
proof -
  show fd: "a_fd link_ready = 3" by (simp add: link_ready_def daemon_ready_def)
  show "capable (a_env link_ready)" by (simp add: link_ready_def link_env_def demo_env_def capable_def)
  have r: "a_reads link_ready = [Data (encode_config 300 600 @ ''\<newline>'')] @ [Read_again]"
    by (simp add: link_ready_def)
  have "quiet [Data (encode_config 300 600 @ ''\<newline>'')]" by simp
  then show "until_blocked 3 [link_ready]" unfolding until_blocked_def using r by auto
  show "heard 3 [link_ready] = encode_config 300 600 @ ''\<newline>''" by (simp add: heard_def fd r)
qed

text \<open>The agent of \<open>net_begin\<close> reads its configuration and says nothing.\<close>

lemma net_agent_configured:
  "\<exists>a. agent_turn [] [link_ready] net_agent = (False, a) \<and> mpris a = mpris net_agent \<and>
    sent_bytes net_agent a = [] \<and> map_option (mon_fd (-1)) (idle a) = Some 10"
proof -
  obtain b a where t: "agent_turn [] [link_ready] net_agent = (b, a)" by fastforce
  have f: "feed ([Data (encode_config 300 600 @ ''\<newline>'')] @ [Read_again]) [] = (True, [encode_config 300 600], [], [])"
    by (rule feed_line) (simp_all add: framing)
  have ne: "encode_config 300 600 \<noteq> []" by (simp add: encoders dump_object_nonempty config_msg_def)
  have r: "a_reads link_ready = [Data (encode_config 300 600 @ ''\<newline>'')] @ [Read_again]" "a_env link_ready = link_env"
    by (simp_all add: link_ready_def)
  have "agent_mpris_poll [] net_agent = net_agent" by (simp add: agent_mpris_poll_def mpris_poll_def send_lines_def)
  moreover have "\<exists>m. choose_monitor link_env 300000 600000 = (Some m, []) \<and> mon_fd (-1) m = 10"
    by (simp add: choose_monitor_def i_init_def open_input_devices_def reset_idle_timer_def link_env_def demo_env_def Let_def)
  ultimately have "b = False" "Agent.world a = Agent.world net_agent" "mpris a = mpris net_agent"
    "map_option (mon_fd (-1)) (idle a) = Some 10"
    using t f ne r link_ready_reads(1) net_agent_fields
    by (auto simp: agent_turn_def agent_handle_def handle_daemon_lines_def on_daemon_line_def Let_def
        setup_idle_monitor_def install_monitor_eq)
  then show ?thesis using t by (auto simp: sent_bytes_def)
qed

theorem agent_waits_for_its_descriptors_witness:
  "\<exists>a. agent_loop [([], [link_ready])] net_agent = (None, a) \<and> distinct (agent_watched a) \<and>
    set (agent_watched a) = {3, 6, 10}"
proof -
  obtain a where t: "agent_turn [] [link_ready] net_agent = (False, a)" and i: "map_option (mon_fd (-1)) (idle a) = Some 10"
    using net_agent_configured by blast
  then have l: "agent_loop [([], [link_ready])] net_agent = (None, a)" by simp
  have "agent_start True (True, True) all_playing (Some []) 6 9
      (new_agent (opts demo_agent) demo_world (retries [(-1, False)] @ (3, True, False) # []) []) = net_agent"
    by (simp add: net_agent_def fresh_agent_def retries_def)
  from agent_waits_for_its_descriptors [OF _ _ _ this _ l, of True "[]" "new_mpris\<lparr>m_open := True\<rparr>" "-1"]
  have "distinct (agent_watched a) \<and> set (agent_watched a) = {x. 0 \<le> x \<and> (x = 3 \<or> x = 6 \<or>
      (\<exists>n. idle a = Some n \<and> x = mon_fd (-1) n))}"
    by (simp add: failing_def mpris_init_def scan_existing_players_def mpris_bus_fd_def link_ready_def link_env_def demo_env_def)
  moreover have "{x. 0 \<le> x \<and> (x = 3 \<or> x = 6 \<or> (\<exists>n. idle a = Some n \<and> x = mon_fd (-1) n))} = {3, 6, 10}"
    using i by auto
  ultimately show ?thesis using l by auto
qed

text \<open>An agent whose user has no file of his own, and the system's.\<close>

definition agent_file :: json where
  "agent_file = JObject [(''before_sleep_cmd'', JString ''sync''), (''lock_cmd'', JString ''swaylock'')]"

definition system_files :: "string \<Rightarrow> string option" where
  "system_files = [SYSTEM_AGENT_CONFIG \<mapsto> dump agent_file]"

theorem configured_commands_run_witness:
  "\<exists>o' a. agent_main ''draind-agent'' [''-l'', ''warn''] 1000 [''HOME'' \<mapsto> ''/home/u''] (Some ''3'') None system_files =
      Inr (o', LWarn) \<and>
    agent_loop [([], [])] (agent_start True (True, True) all_playing (Some []) 6 9 (new_agent o' demo_world [(3, True, False)] [])) =
      (None, a) \<and>
    cmds (Agent.world (on_daemon_line demo_env encode_lock a)) = [''swaylock''] \<and>
    cmds (Agent.world (on_daemon_line demo_env encode_pre_sleep a)) = [''sync'']"
proof -
  let ?env = "[''HOME'' \<mapsto> ''/home/u'']"
  have p: "parse (dump agent_file) = Inr agent_file" by (rule parse_dump) (simp_all add: agent_file_def)
  have u: "user_config_path ?env None = ''/home/u/.config/draind/draind-agent.json''"
    by (simp add: user_config_path_def env_str_def)
  have f: "system_files (user_config_path ?env None) = None" "system_files SYSTEM_AGENT_CONFIG = Some (dump agent_file)"
    unfolding u by (simp_all add: system_files_def SYSTEM_AGENT_CONFIG_def)
  have c: "configured_command system_files (user_config_path ?env None) ''lock_cmd'' = ''swaylock''"
    "configured_command system_files (user_config_path ?env None) ''before_sleep_cmd'' = ''sync''"
    by (simp_all add: configured_command_def f p) (simp_all add: agent_file_def str_def)
  obtain o' where m: "agent_main ''draind-agent'' [''-l'', ''warn''] 1000 ?env (Some ''3'') None system_files = Inr (o', LWarn)"
    by (simp add: agent_main_def parse_log_level_def Let_def)
  define a1 where "a1 = agent_start True (True, True) all_playing (Some []) 6 9 (new_agent o' demo_world [(3, True, False)] [])"
  have a1: "forks a1 = []" "daemon_fd a1 = 3" "wscript (Agent.world a1) 3 = []" "cmds (Agent.world a1) = []"
    by (simp_all add: a1_def agent_start_def connect_to_daemon_def new_agent_def mpris_init_def scan_existing_players_def
        send_lines_def Let_def agent_send_def send_line_healthy demo_world_def)
  have l: "agent_loop [([], [])] a1 = (None, a1)"
    by (simp add: agent_turn_def agent_mpris_poll_def mpris_poll_def send_lines_def)
  from configured_commands_run [OF m a1_def [symmetric] l a1(1) _ _ HOL.refl, of demo_env] a1 m l show ?thesis
    unfolding c by (simp add: shell_def c_str_def a1_def [symmetric])
qed

text \<open>A daemon reads the hello and answers with the timeouts.\<close>

lemma hello_read:
  assumes "map_of (m_conns (srv d)) fd = Some c" "buf c = []" "\<not> is_listen_fd (srv d) fd"
    and "wscript (Daemon.world d) fd = []" "d_active_profile d = Some p"
    and "d' = on_hello fd (hello_msg s u) d"
  shows "handle_ready (wake fd [Data (enc (Hello s u) @ ''\<newline>'')]) d = (None, d')"
    "answers fd d d' = encode_config (dim_timeout p) (sleep_timeout p) @ ''\<newline>''"
    "cm d' = cm d" "sess d' = sess d" "cmds (Daemon.world d') = cmds (Daemon.world d)"
    "agents d' = umap_put fd \<lparr>session_id = s, uid = u, inhibits = []\<rparr> (agents d)"
proof -
  show "handle_ready (wake fd [Data (enc (Hello s u) @ ''\<newline>'')]) d = (None, d')"
    using wake_message [OF assms(1-3), of "[Data (enc (Hello s u) @ ''\<newline>'')]" "Hello s u"] assms(6)
    by (simp add: on_line_hello)
  show "answers fd d d' = encode_config (dim_timeout p) (sleep_timeout p) @ ''\<newline>''"
    using assms(4,5)
    by (simp add: assms(6) on_hello_def send_config_def d_active_profile_def send_healthy answers_def to_client_def)
  show "cm d' = cm d" "sess d' = sess d" "cmds (Daemon.world d') = cmds (Daemon.world d)"
    "agents d' = umap_put fd \<lparr>session_id = s, uid = u, inhibits = []\<rparr> (agents d)"
    by (simp_all add: assms(6) on_hello_def send_config_def ucast_uid Let_def)
qed

theorem both_sides_agree_witness:
  "\<exists>n m. link_reach 8 n \<and> n_pipe n = [] \<and> n_down n = [] \<and> held (n_daemon n) 8 = Some {} \<and>
    idle (n_agent n) = Some m \<and> mon_follows (300000, 600000) m"
proof -
  define n0 :: link where "n0 = net.extend net_begin \<lparr>n_down = []\<rparr>"
  let ?h = "Hello ''3'' 1000" and ?c = "encode_config 300 600 @ ''\<newline>''"
  define d where "d = on_hello 8 (hello_msg ''3'' 1000) (demo_daemon [])"
  have n0: "n_daemon n0 = demo_daemon []" "n_agent n0 = net_agent" "n_pipe n0 = enc ?h @ ''\<newline>''" "n_down n0 = []"
    "net.truncate n0 = net_begin"
    by (simp_all add: n0_def net_begin_def net.truncate_def net.extend_def)
  have "link_start 8 n0"
    using net_begins demo_max_ok
    by (simp add: link_start_def n0 net_agent_fields registered_def steady_def)
      (simp add: demo_cm_def demo_path_def sysfs_def)
  then have r0: "link_reach 8 n0" by (rule link_reach.start)
  note h = hello_read [OF demo_conn_8(1-3) _ demo_daemon_fields(11) d_def]
  have s1: "link_step 8 n0 (n0\<lparr>n_daemon := d, n_pipe := [], n_down := ?c\<rparr>)"
    using link_step.reads [of "[Data (n_pipe n0)]" n0 "[]" 8 d] h(1,2) by (simp add: n0)
  obtain a where a: "agent_turn [] [link_ready] net_agent = (False, a)" "mpris a = mpris net_agent"
    "sent_bytes net_agent a = []" using net_agent_configured by blast
  define n where "n = n0\<lparr>n_daemon := d, n_agent := a, n_pipe := [], n_down := []\<rparr>"
  have "link_step 8 (n0\<lparr>n_daemon := d, n_pipe := [], n_down := ?c\<rparr>) n"
    using link_step.agent [of "[]" "[link_ready]" "n0\<lparr>n_daemon := d, n_pipe := [], n_down := ?c\<rparr>" a "[]" 8]
      a link_ready_reads net_agent_fields
    by (simp add: n0 n_def)
  then have r2: "link_reach 8 n" using link_reach.step [OF r0 s1] link_reach.step by blast
  have "m_playing (mpris a) = []" by (simp add: a net_agent_fields set_callbacks_def new_mpris_def)
  moreover have "msec (timeouts d) = (300000, 600000)"
    using h(3) by (simp add: timeouts_def d_active_profile_def demo_active)
  ultimately show ?thesis
    using both_sides_agree [OF r2] r2 by (auto simp: n_def wanted_def settled_def)
qed

text \<open>The daemon as it has started, and as agent 8 has connected and written its hello.\<close>

definition boot_fleet :: fleet where
  "boot_fleet = \<lparr>f_daemon = demo_seated, f_member = (\<lambda>fd. None)\<rparr>"

definition joined_fleet :: fleet where
  "joined_fleet = \<lparr>f_daemon = admit 8 demo_seated, f_member =
     [8 \<mapsto> \<lparr>b_agent = net_agent, b_up = enc (Hello ''3'' 1000) @ ''\<newline>'', b_down = []\<rparr>]\<rparr>"

lemma demo_seated_steady: "steady fd demo_seated"
proof -
  obtain e w where w: "apply_profile demo_profile demo_world = (e, w)" by fastforce
  note env = same_env_apply [OF w]
  then show ?thesis
    using demo_max_ok same_env_max_ok [OF env] w
    by (simp add: steady_def demo_seated_def demo_boot_def same_env_def)
      (simp add: demo_cm_def demo_path_def sysfs_def)
qed

lemma boot_reach: "fleet_reach boot_fleet"
  using demo_seated_setup demo_seated_steady
  by (intro fleet_reach.start) (simp add: fleet_start_def boot_fleet_def, blast)

lemma joined_reach: "fleet_reach joined_fleet"
proof -
  let ?h = "Hello ''3'' 1000"
  have k: "handle_ready (knock demo_seated 8) demo_seated = (None, admit 8 demo_seated)"
    by (simp add: handle_ready_def knock_def is_listen_fd_def)
  have "newcomer net_agent (enc ?h @ ''\<newline>'')"
    using net_begins by (auto simp: newcomer_def net_start_def net_begin_def net_agent_fields stream_of_eq)
  from fleet_step.join [OF this, of 8 boot_fleet "admit 8 demo_seated"] have "fleet_step boot_fleet joined_fleet"
    using k by (simp add: boot_fleet_def joined_fleet_def demo_seated_def demo_boot_def has_fd_def is_listen_fd_def)
  then show ?thesis by (rule fleet_reach.step [OF boot_reach])
qed

theorem machine_sleeps_iff_idle_witness:
  "\<exists>s. fleet_reach s \<and> quiescent s \<and> f_member s 8 \<noteq> None \<and> \<not> playing s \<and>
    cmds (Daemon.world (snd (on_line 8 encode_idle_sleep (f_daemon s)))) = [''systemctl suspend'']"
proof -
  let ?h = "Hello ''3'' 1000" and ?c = "encode_config 300 600 @ ''\<newline>''"
  define d1 where "d1 = admit 8 demo_seated"
  have d1: "map_of (m_conns (srv d1)) 8 = Some (demo_conn 8)" "buf (demo_conn 8) = []" "\<not> is_listen_fd (srv d1) 8"
    "wscript (Daemon.world d1) 8 = []" "d_active_profile d1 = Some demo_profile"
    using demo_seated_steady [of 8]
    by (simp_all add: d1_def demo_seated_def demo_boot_def accept_client_def demo_conn_def has_fd_def
        is_listen_fd_def steady_def d_active_profile_def demo_active)
  let ?m0 = "\<lparr>b_agent = net_agent, b_up = enc ?h @ ''\<newline>'', b_down = []\<rparr>"
  define d2 where "d2 = on_hello 8 (hello_msg ''3'' 1000) d1"
  note h = hello_read [OF d1 d2_def]
  define s2 where "s2 = \<lparr>f_daemon = d2, f_member = [8 \<mapsto> \<lparr>b_agent = net_agent, b_up = [], b_down = ?c\<rparr>]\<rparr>"
  have "fleet_step joined_fleet s2"
    using fleet_step.reads [of joined_fleet 8 ?m0 "[Data (enc ?h @ ''\<newline>'')]" "[]" d2] h(1,2)
    by (simp add: joined_fleet_def d1_def [symmetric] s2_def deliver_def)
  then have r2: "fleet_reach s2" by (rule fleet_reach.step [OF joined_reach])
  obtain a where a: "agent_turn [] [link_ready] net_agent = (False, a)" "mpris a = mpris net_agent"
    "sent_bytes net_agent a = []" using net_agent_configured by blast
  define s3 where "s3 = \<lparr>f_daemon = d2, f_member = [8 \<mapsto> \<lparr>b_agent = a, b_up = [], b_down = []\<rparr>]\<rparr>"
  have "fleet_step s2 s3"
    using fleet_step.agent [of s2 8 "\<lparr>b_agent = net_agent, b_up = [], b_down = ?c\<rparr>" "[]" "[link_ready]" a "[]"]
      a link_ready_reads net_agent_fields
    by (simp add: s2_def s3_def)
  then have r3: "fleet_reach s3" by (rule fleet_reach.step [OF r2])
  have q: "quiescent s3" "\<not> playing s3"
    by (auto simp: quiescent_def playing_def s3_def a net_agent_fields set_callbacks_def new_mpris_def)
  have "cmds (snd (apply_profile demo_profile demo_world)) = []"
    using same_env_apply [of demo_profile demo_world, OF prod.collapse [symmetric]] by (simp add: same_env_def)
  then have "cmds (Daemon.world d2) = []"
    using h(5) by (simp add: d1_def demo_seated_def demo_boot_def)
  moreover have "is_active_agent 8 d2"
    using h(4,6)
    by (simp add: is_active_agent_def map_of_umap_put is_active_def d1_def demo_seated_def
        sessions_init_def refresh_active_session_def)
  moreover have "0 < sint (snd (timeouts d2))"
    using h(3) d1(5) by (simp add: timeouts_def d_active_profile_def)
  ultimately show ?thesis
    using machine_sleeps_iff_idle [OF r3 q(1), of 8] r3 q by (auto simp: s3_def)
qed

theorem machine_settles_witness:
  "\<exists>s'. fleet_reading\<^sup>*\<^sup>* joined_fleet s' \<and> \<not> quiescent joined_fleet \<and> quiescent s' \<and>
    players s' 8 = Some (mpris net_agent) \<and> \<not> has_any_inhibit (f_daemon s')"
proof -
  let ?w = "snd (apply_profile demo_profile demo_world)"
  have "current_ok ?w"
    using same_env_apply [of demo_profile demo_world, OF prod.collapse [symmetric]] demo_current_ok
    by (simp add: same_env_def)
  then have "current_ok (Daemon.world (f_daemon joined_fleet))"
    by (simp add: joined_fleet_def demo_seated_def demo_boot_def accept_client_def)
  from machine_settles [OF joined_reach this] obtain s' where s': "fleet_reading\<^sup>*\<^sup>* joined_fleet s'"
    "quiescent s'" "players s' = players joined_fleet" "has_any_inhibit (f_daemon s') \<longleftrightarrow> playing joined_fleet"
    by blast
  have "\<not> playing joined_fleet"
    by (auto simp: playing_def joined_fleet_def net_agent_fields set_callbacks_def new_mpris_def split: if_splits)
  moreover have "\<not> quiescent joined_fleet" by (auto simp: quiescent_def joined_fleet_def)
  moreover have "players joined_fleet 8 = Some (mpris net_agent)" by (simp add: players_def joined_fleet_def)
  ultimately show ?thesis using s' by auto
qed

end
