(* ===== verification/Rounding.thy ===== *)
theory Rounding
  imports Cxx_Double Complex_Main
begin

text \<open>
  The binary64 conversion of \<open>Cxx_Double\<close> against what IEEE 754 asks of it: no other binary64
  number is closer to the exact value.
\<close>

definition magnitude :: "dbl \<Rightarrow> real" where
  "magnitude d = real (dman d) * 2 powi dexp d"

text \<open>The magnitudes of the finite binary64 numbers.\<close>

definition binary64 :: "real set" where
  "binary64 = {real m * 2 powi x | m x. m < 2 ^ 53 \<and> - 1074 \<le> x \<and> x \<le> 971}"

lemma scale2_value:
  assumes "scale2 a b e = (c, d)" "0 < b"
  shows "0 < d" "real a / real b = real c / real d * 2 powi e"
  using assms by (auto simp: scale2_def power_int_def field_simps split: if_splits)

text \<open>\<open>round_div\<close> is the nearest integer.\<close>

lemma round_div_close:
  assumes "0 < d"
  shows "2 * d * round_div c d \<le> 2 * c + d" "2 * c \<le> 2 * d * round_div c d + d"
proof -
  define q r where "q = c div d" "r = c mod d"
  have c: "c = d * q + r" "r < d" using assms by (simp_all add: q_r_def)
  have "round_div c d = (if 2 * r < d \<or> 2 * r = d \<and> even q then q else q + 1)"
    by (simp add: round_div_def q_r_def Let_def)
  moreover have "d * (q + 1) = d * q + d" by simp
  ultimately show "2 * d * round_div c d \<le> 2 * c + d" "2 * c \<le> 2 * d * round_div c d + d"
    using c by (simp_all add: mult.assoc)
qed

lemma round_div_nearest:
  assumes "0 < d"
  shows "\<bar>real (round_div c d) - real c / real d\<bar> \<le> \<bar>real_of_int k - real c / real d\<bar>"
proof -
  have d: "0 < real d" using assms by simp
  have half: "\<bar>real (round_div c d) - real c / real d\<bar> \<le> 1 / 2"
  proof -
    have "2 * real d * real (round_div c d) \<le> 2 * real c + real d"
      "2 * real c \<le> 2 * real d * real (round_div c d) + real d"
      using round_div_close [OF assms, of c] by (metis of_nat_le_iff of_nat_add of_nat_mult of_nat_numeral)+
    moreover have "real c = real d * (real c / real d)" using d by simp
    ultimately have "real d * (2 * real (round_div c d)) \<le> real d * (2 * (real c / real d) + 1)"
      "real d * (2 * (real c / real d)) \<le> real d * (2 * real (round_div c d) + 1)"
      by (simp_all add: algebra_simps)
    then have "2 * real (round_div c d) \<le> 2 * (real c / real d) + 1" "2 * (real c / real d) \<le> 2 * real (round_div c d) + 1"
      using d by (simp_all only: mult_le_cancel_left_pos)
    then show ?thesis by linarith
  qed
  show ?thesis
  proof (cases "k = int (round_div c d)")
    case False
    then have "1 \<le> \<bar>real_of_int k - real (round_div c d)\<bar>"
      by linarith
    then show ?thesis using half by linarith
  qed simp
qed

text \<open>The exponent leaves a quotient of 53 bits.\<close>

lemma halve:
  fixes u w :: real
  assumes "u * (if P then 2 else 1) = w" "P \<longleftrightarrow> 2 ^ 53 \<le> w" "2 ^ 52 \<le> w" "w < 2 ^ 54"
  shows "2 ^ 52 \<le> u" "u < 2 ^ 53"
  using assms by (auto split: if_splits)

lemma bin_exp_normal:
  assumes "0 < a" "0 < b" "scale2 a b (bin_exp a b) = (c, d)"
  shows "2 ^ 52 \<le> real c / real d" "real c / real d < 2 ^ 53"
proof -
  define e where "e = int (nbits a) - int (nbits b) - 53"
  obtain c0 d0 where s0: "scale2 a b e = (c0, d0)" by fastforce
  define v where "v = real a / real b"
  note v0 = scale2_value [OF s0 assms(2), folded v_def]
  note v1 = scale2_value [OF assms(3,2), folded v_def]
  have low: "2 powi (int (nbits n) - 1) \<le> real n" and high: "real n < 2 powi int (nbits n)" if "0 < n" for n
  proof -
    have n: "2 ^ (nbits n - 1) \<le> n" "n < 2 ^ nbits n" "0 < nbits n" using nbits_bounds [OF that] by auto
    then have "real (2 ^ (nbits n - 1)) \<le> real n" "real n < real (2 ^ nbits n)" by (simp_all only: of_nat_le_iff of_nat_less_iff)
    moreover have "2 powi (int (nbits n) - 1) = (2 :: real) ^ (nbits n - 1)"
      using n(3) by (simp add: power_int_def nat_diff_distrib)
    ultimately show "2 powi (int (nbits n) - 1) \<le> real n" "real n < 2 powi int (nbits n)" by simp_all
  qed
  have "2 powi (int (nbits a) - 1) / 2 powi int (nbits b) \<le> v" "v < 2 powi int (nbits a) / 2 powi (int (nbits b) - 1)"
    unfolding v_def using low [OF assms(1)] high [OF assms(1)] low [OF assms(2)] high [OF assms(2)] assms(1,2)
    by (auto intro!: frac_le frac_less) 
  then have "2 powi (52 + e) \<le> v" "v < 2 powi (54 + e)"
    by (simp_all add: e_def power_int_diff power_int_add mult.commute)
  then have t0: "2 ^ 52 \<le> real c0 / real d0" "real c0 / real d0 < 2 ^ 54"
  proof -
    have "2 ^ 52 * 2 powi e \<le> real c0 / real d0 * 2 powi e" "real c0 / real d0 * 2 powi e < 2 ^ 54 * 2 powi e"
      using \<open>2 powi (52 + e) \<le> v\<close> \<open>v < 2 powi (54 + e)\<close> v0(2) by (simp_all add: power_int_add)
    then show "2 ^ 52 \<le> real c0 / real d0" "real c0 / real d0 < 2 ^ 54"
      by (simp_all only: mult_le_cancel_right_pos mult_less_cancel_right_pos zero_less_power_int zero_less_numeral)
  qed
  have cut: "d0 * 2 ^ 53 \<le> c0 \<longleftrightarrow> 2 ^ 53 \<le> real c0 / real d0"
  proof -
    have "d0 * 2 ^ 53 \<le> c0 \<longleftrightarrow> real (d0 * 2 ^ 53) \<le> real c0" by (simp only: of_nat_le_iff)
    then show ?thesis using v0(1) by (simp add: field_simps)
  qed
  have b: "bin_exp a b = (if d0 * 2 ^ 53 \<le> c0 then e + 1 else e)"
    by (simp add: bin_exp_def s0 flip: e_def)
  have "real c / real d * (if d0 * 2 ^ 53 \<le> c0 then 2 else 1) * 2 powi e = real c0 / real d0 * 2 powi e"
    using v0(2) v1(2) unfolding b by (simp add: power_int_add mult_ac split: if_splits)
  then have "real c / real d * (if d0 * 2 ^ 53 \<le> c0 then 2 else 1) = real c0 / real d0"
    by (simp only: mult_cancel_right) simp
  from halve [OF this cut t0] show "2 ^ 52 \<le> real c / real d" "real c / real d < 2 ^ 53" .
qed

text \<open>
  No binary64 number is closer to the fraction than the result, where there is one.
\<close>

lemma no_closer:
  assumes "2 ^ 52 \<le> t" "y \<in> binary64" and near: "\<And>k. \<bar>real q - t\<bar> \<le> \<bar>real_of_int k - t\<bar>"
  shows "\<bar>real q * 2 powi e - t * 2 powi e\<bar> \<le> \<bar>y - t * 2 powi e\<bar>"
proof -
  have scaled: "\<bar>u * 2 powi e - t * 2 powi e\<bar> = \<bar>u - t\<bar> * 2 powi e" for u
    by (simp add: abs_mult flip: left_diff_distrib)
  obtain m x where y: "y = real m * 2 powi x" "m < 2 ^ 53" using assms(2) by (auto simp: binary64_def)
  show ?thesis
  proof (cases "e \<le> x")
    case True
    have "y = real_of_int (int m * 2 ^ nat (x - e)) * 2 powi e"
    proof -
      have "2 powi x = (2 powi (x - e) * 2 powi e :: real)" by (simp flip: power_int_add)
      then show ?thesis using True by (simp add: y(1) power_int_def [of _ "x - e"])
    qed
    then show ?thesis using near [of "int m * 2 ^ nat (x - e)"] unfolding scaled by (simp add: scaled)
  next
    case False
    have "real m \<le> 2 ^ 53" using y(2) by (metis less_imp_le of_nat_le_iff of_nat_numeral of_nat_power)
    moreover have "2 powi x \<le> (2 powi (e - 1) :: real)" using False by (intro power_int_increasing) simp_all
    ultimately have "y \<le> 2 ^ 53 * 2 powi (e - 1)" unfolding y(1) by (intro mult_mono) simp_all
    also have "\<dots> = 2 ^ 52 * 2 powi e" by (simp add: power_int_diff)
    finally have "y \<le> 2 ^ 52 * 2 powi e" .
    moreover have "2 ^ 52 * 2 powi e \<le> t * 2 powi e" using assms(1) by (intro mult_right_mono) simp_all
    ultimately have "\<bar>2 ^ 52 * 2 powi e - t * 2 powi e\<bar> \<le> \<bar>y - t * 2 powi e\<bar>" by linarith
    moreover have "\<bar>real q - t\<bar> * 2 powi e \<le> \<bar>2 ^ 52 - t\<bar> * 2 powi e"
      using near [of "2 ^ 52"] by (intro mult_right_mono) simp_all
    ultimately show ?thesis unfolding scaled by linarith
  qed
qed

lemma to_binary64_nearest:
  assumes "to_binary64 neg a b = Inr r" "0 < b" "y \<in> binary64"
  shows "\<bar>magnitude r - real a / real b\<bar> \<le> \<bar>y - real a / real b\<bar>"
proof (cases "a = 0")
  case True
  then show ?thesis using assms(1) by (auto simp: to_binary64_def magnitude_def)
next
  case False
  define e where "e = bin_exp a b"
  obtain c d where s: "scale2 a b e = (c, d)" by fastforce
  note v = scale2_value [OF s assms(2)]
  have t: "2 ^ 52 \<le> real c / real d" using bin_exp_normal(1) [OF _ assms(2)] s False by (simp add: e_def)
  define q where "q = round_div c d"
  have x: "(if q = 2 ^ 53 then (2 ^ 52, e + 1) else (q, e)) = (m, x) \<Longrightarrow> real m * 2 powi x = real q * 2 powi e" for m x
    by (auto simp: power_int_add split: if_splits)
  have "magnitude r = real a / real b \<or> magnitude r = real q * 2 powi e"
  proof -
    obtain m x where mx: "(if q = 2 ^ 53 then (2 ^ 52, e + 1) else (q, e)) = (m, x)" by fastforce
    obtain c' d' where s': "scale2 a b (- 1074) = (c', d')" by fastforce
    show ?thesis
      using assms(1) False mx x [OF mx] scale2_value [OF s' assms(2)]
      by (auto simp: to_binary64_def Let_def s s' magnitude_def real_of_nat_div simp flip: e_def q_def split: if_splits)
  qed
  then show ?thesis
    using no_closer [OF t assms(3) round_div_nearest [OF v(1)], of e] by (auto simp: v(2) q_def)
qed

text \<open>So \<open>stod\<close> takes decimal digits to the nearest number.\<close>

lemma decimal_nearest:
  assumes "decimal neg n e = Inr r" "y \<in> binary64"
  shows "\<bar>magnitude r - real n * 10 powi e\<bar> \<le> \<bar>y - real n * 10 powi e\<bar>"
proof (cases "0 \<le> e")
  case True
  then show ?thesis
    using assms to_binary64_nearest [of neg "n * 10 ^ nat e" 1 r y] by (simp add: decimal_def power_int_def)
next
  case False
  then have "real n * 10 powi e = real n / real (10 ^ nat (- e))" by (simp add: power_int_def field_simps)
  then show ?thesis
    using assms False to_binary64_nearest [of neg n "10 ^ nat (- e)" r y] by (simp add: decimal_def)
qed

lemma stod_nearest:
  assumes "stod (ip @ ''.'' @ fp) = Inr r" "ip \<noteq> []" "\<forall>c \<in> set (ip @ fp). is_digit c" "y \<in> binary64"
  shows "\<bar>magnitude r - real (digits_val (ip @ fp)) / 10 ^ length fp\<bar>
    \<le> \<bar>y - real (digits_val (ip @ fp)) / 10 ^ length fp\<bar>"
proof -
  obtain c cs where c: "ip = c # cs" "is_digit c" using assms(2,3) by (cases ip) auto
  then have "\<not> is_space c" "c \<noteq> CHR ''-''" "c \<noteq> CHR ''+''" using digit_not_space by (auto simp: is_digit_def)
  then have "read_sign (dropWhile is_space (ip @ ''.'' @ fp)) = (False, ip @ ''.'' @ fp)"
    by (simp add: c(1) read_sign_def)
  moreover have "\<not> is_digit (CHR ''.'')" by (simp add: is_digit_def)
  moreover have fp: "takeWhile is_digit fp = fp" "dropWhile is_digit fp = []" using assms(3) by simp_all
  ultimately have "stod (ip @ ''.'' @ fp) = decimal False (digits_val (ip @ fp)) (- int (length fp))"
    using assms(2,3)
    by (simp add: stod_def frac_part_def starts_with_in_def exp_part_def takeWhile_append2 dropWhile_append2 fp)
  then show ?thesis
    using decimal_nearest [of False "digits_val (ip @ fp)" "- int (length fp)" r y] assms(1,4)
    by (simp add: power_int_def divide_simps split: if_splits)
qed

end
