(* ===== verification/Spec2Isabelle.thy ===== *)
theory Spec2Isabelle
  imports Witnesses Rounding
begin

text \<open>
  draind: a power management daemon for Linux laptops, its per-session agent and its control
  tool, in C++ under \<open>src/src\<close>.  This library models all three programs and proves what
  makes them correct, alone and together.

  THE PROGRAMS.  \<open>draind\<close> (\<open>daemon/\<close>) runs as root.  It owns the backlight, the CPU governor
  and the suspend command, tracks which logind session is active on seat0, watches the lid
  and the buttons, and listens on a Unix socket.  A \<open>draind-agent\<close> (\<open>agent/\<close>) runs in every
  user session: it says hello, reports idleness (from the Wayland compositor or from input
  devices and a timer) and inhibitors (media players on the session bus), and runs the lock
  and pre-sleep commands.  \<open>draind-ctl\<close> (\<open>ctl/\<close>) sends one request and prints the reply.  They
  talk in lines of JSON (\<open>shared/\<close>).  Each is single-threaded around one event loop.

  WHAT A STATE IS.  Each class with state is a record with its fields' names: \<open>config_manager\<close>,
  \<open>power\<close>, \<open>sessions\<close>, \<open>server\<close>, \<open>connection\<close>, \<open>daemon\<close>, \<open>mpris\<close>, \<open>input_idle\<close>,
  \<open>wayland_idle\<close>, \<open>agent\<close>.  What the processes see and do outside themselves is the record
  \<open>world\<close>: file contents, directories, which files refuse to be opened or written, the outcomes
  of the writes still to come, and as traces the bytes sent, the commands run, the descriptors
  closed (those of agent and daemon, by \<open>close\<close>; what a library closes is its own).  What the
  environment decides later (bytes read, signals, ready descriptors, answers
  of a bus, results of connecting and forking) is an argument: a list of outcomes that the
  loop consumes.  A loop of the program that ends is a terminating function; a loop that runs
  until the process is told to quit runs for the turns it is given, and the theorems hold for
  every list of them.  The only bounded search is that for the decimal exponent of a number
  below one in \<open>Cxx_Double\<close>, as many steps as the denominator has digits, which is shown to be
  enough (\<open>dec_exp_below_one\<close>).

  ERRORS.  An operation that throws returns \<open>Inl\<close> of the exception (\<open>'a res\<close>), or, where it
  has changed state before, the exception next to the state it leaves (\<open>outcome\<close>).  \<open>what\<close> is
  the text the code puts into a reply.

  NUMBERS.  \<open>int\<close>, \<open>int64_t\<close>, \<open>uint32_t\<close>, \<open>uint64_t\<close> are words of their width, read signed where
  the type is; division truncates toward zero.  Signed overflow, undefined in C++, wraps in the
  model, and the theorems it could touch (brightness, battery estimates) assume the products
  fit.  \<open>double\<close> is an exact binary64 value, \<open>stod\<close> rounds to nearest, ties to even.  Strings are
  lists of bytes.  \<open>std::map\<close> and \<open>std::set\<close> are strictly sorted lists, \<open>std::unordered_map\<close> an
  association list with distinct keys, in which a new key comes last: an order the standard
  allows.

  THE THEORIES, bottom up.
  \<^item> \<open>Prelude\<close>: word types, exceptions, the two kinds of map with the locale \<open>kv_store\<close>, list facts,
    the collections \<open>frame\<close>, \<open>field_access\<close>, \<open>framing\<close>.
  \<^item> \<open>Cxx_Numbers\<close>, \<open>Cxx_Double\<close>: the conversions of the standard library the code calls.
    \<open>Rounding\<close>: no binary64 number is closer to a decimal text than the one \<open>stod\<close> returns.
  \<^item> \<open>Json\<close> (\<open>shared/json.hpp\<close>), \<open>Json_Grammar\<close>: values, parser, the two printers; the grammar
    they are specified by, whose characters, escapes and digits are written out apart from the
    parser.  The parser terminates, reads every rendering of every value, rejects
    or returns values with sorted, distinct keys; the printers are read back.
  \<^item> \<open>Protocol\<close> (\<open>shared/protocol.hpp\<close>): every message; each decodes to what was encoded.
  \<^item> \<open>Socket\<close> (\<open>shared/socket.cpp\<close>): whole-line writes, the line buffer, setting sockets up.
  \<^item> \<open>World\<close>: the machine.  \<open>Battery\<close> (\<open>shared/battery.hpp\<close>), \<open>Logger\<close> (\<open>shared/logger.hpp\<close>).
  \<^item> \<open>Config\<close>, \<open>Config_Manager\<close> (\<open>shared/config.cpp\<close>, \<open>daemon/config_manager.cpp\<close>): loading,
    choosing and persisting profiles; round trips through the file.
  \<^item> \<open>Power_Manager\<close>, \<open>Session_Tracker\<close>, \<open>Server\<close>, \<open>Hw_Events\<close>: the daemon's parts, file by file.
  \<^item> \<open>Daemon\<close> (\<open>daemon/daemon.cpp\<close>): handlers, callbacks, loop, \<open>run\<close>.  \<open>Daemon_Steps\<close>: the locales
    that lift a relation from parts of the daemon to its handlers and its loop: from the elementary
    updates of the state (\<open>update_rel\<close>, and \<open>daemon_rel\<close> with the session bus), or from those and the
    operations that tell the agents the configuration (\<open>handler_rel\<close>, and \<open>loop_rel\<close> with the bus), both
    over what \<open>daemon_core\<close> asks of every such relation; their parameters are the descriptors
    handled and accepted.
    \<open>Daemon_Props\<close>: interpretations and what the daemon guarantees.  \<open>Survival\<close>: on a machine whose
    backlight can be read no handler throws, so the daemon runs until it is told to quit.
  \<^item> \<open>Delivery\<close>: handlers do not depend on how a client's bytes are cut.
  \<^item> \<open>Ctl\<close> (\<open>ctl/main.cpp\<close>), \<open>Requests\<close>: the control tool, and requests from its command line to
    its exit code.
  \<^item> \<open>Idle_Monitor\<close> (locale \<open>idle_source\<close>), \<open>Wayland_Idle\<close>, \<open>Mpris\<close> (locale \<open>mpris_trace\<close>), \<open>Agent\<close>: the
    agent's monitors and the agent (\<open>agent/*.cpp\<close>).  \<open>Agent_Steps\<close>: the locale \<open>agent_rel\<close>, which lifts a
    relation from the updates of the agent's state to its turns and loop.  \<open>Programs\<close>: the command
    lines, the agent's configuration, and the commands an agent started with them runs.
  \<^item> \<open>Watching\<close>: the epoll sets of daemon and agent hold what they should wait for, and no more.
    \<open>Teardown\<close>: the destructors, and that the agent closes once every socket it opens, its epoll
    set, and the descriptors of every input monitor it sets up, failed ones included.
  \<^item> \<open>System\<close>, \<open>Network\<close>, \<open>Two_Way\<close>, \<open>Idle_Cycle\<close>: one agent and the daemon over the bytes they
    exchange.  \<open>Sessions\<close>: the daemon from its start with any number of agents.  \<open>Settling\<close>: reading
    what is on its way brings that machine to rest, by induction on the descriptors still to read.
  \<^item> \<open>Demo\<close>, \<open>Witnesses\<close>: a concrete laptop, daemon and agent, on which the hypotheses of the
    properties hold together.

  THE PROPERTIES are numbered C1 to C40 in the order of their importance; each stands after
  a text block that states it.  In groups:
  \<^item> Suspending and dimming: when a suspend happens (C1), inhibitors as an abstract set (C2), the
    daemon's inhibitor follows the players the agent sees and the agent's timeouts follow the
    active profile, in every interleaving of the two (\<open>both_sides_agree\<close>),
    with any number of agents that come and go a machine that sleeps exactly when it may
    (\<open>machine_sleeps_iff_idle\<close>), which from every state only has to read what is on its way
    (\<open>machine_settles\<close>), an idle period from timer to backlight and back
    (\<open>idle_period\<close>), which session counts as active.
  \<^item> Messages: lines and values through any chunks, delivery independent
    of chunking, the parser and the printers.
  \<^item> The daemon: its invariant over all reachable states, the only commands it ever runs, the
    descriptors it waits for, no exception that ends it (\<open>daemon_survives\<close>), buttons, profiles and
    their persistence, requests and their answers.
  \<^item> The agent: the idle monitors, the players, the descriptors it waits for and those it
    closes, the commands of its configuration files.
  \<^item> Limits, proved as they are: malformed lines, bytes before an end of file, the missing
    pre-sleep broadcast, backlight drift, a profile change while dimmed, players before
    start, a daemon that goes away.

  The start of \<open>Network\<close> is what \<open>agent_start\<close> and \<open>accept_client\<close> lead to when the agent reaches the
  session bus and finds no player playing.  The restriction is needed: a player that plays when
  the agent starts is not announced (\<open>playing_at_start_unheard\<close>), so \<open>both_sides_agree\<close>,
  \<open>machine_sleeps_iff_idle\<close> and \<open>machine_settles\<close>, which start there, speak of agents that found
  none, whatever plays later.  Its steps leave open
  what the daemon's answers do to the agent, so the theorems hold for any.  The steps of \<open>Two_Way\<close>
  are those with the answers kept as bytes on their way, which the agent's turns read; it assumes
  that the agent's descriptor takes what is written to it and that the calls a monitor is set up
  with succeed.  The fleet of \<open>Sessions\<close> assumes as much of every connection, a backlight whose
  maximum can be read, a configuration file outside sysfs, and that a client that is no agent
  says no hello.

  The epoll sets are the fields \<open>watched\<close> and \<open>agent_watched\<close>; what \<open>epoll_wait\<close> reports is an
  argument of a turn, any descriptors, so that the theorems do not rest on them.  Writing to a
  peer that has closed is one of the errors of \<open>write\<close>: the processes are taken to be started
  with \<open>SIGPIPE\<close> ignored, as systemd starts its services.

  NOT MODELLED.  The result of a failed \<open>epoll_wait\<close>, which skips a turn; signals other than as
  the end of the turns; the text of log statements outside \<open>Logger\<close>; destructors of library objects
  (the buses' connections, the messages read); the sizes of stack and memory: the parser recurses
  and the line buffer grows without a limit, in the code as in the model.  libsystemd (sd-bus, sd-login) and the Wayland client library
  are not part of the repository: what their calls return is an argument, what they are asked
  is, for Wayland, a trace.
\<close>

end
